theory Spec2Isabelle
  imports Complex_Main
begin

section \<open>The SLSQP driver of PyLGR: \<^verbatim>\<open>pylgr/optimize/_slsqp.py\<close>\<close>

text \<open>
  A shallow embedding of \<^verbatim>\<open>_minimize_slsqp\<close>, \<^verbatim>\<open>_eval_constraint\<close> and
  \<^verbatim>\<open>_eval_con_normals\<close>. The dense SQP kernel \<^verbatim>\<open>slsqp\<close>, the objective adapter
  built by \<^verbatim>\<open>_prepare_scalar_function\<close>, the finite-difference service
  \<^verbatim>\<open>approx_derivative\<close> and the caller's functions are parameters of the model: the driver
  is verified for every kernel and every evaluator.
\<close>

subsection \<open>Floating-point values and Python exceptions\<close>

text \<open>
  A float64 is NaN, an infinity or a finite value. The driver never does arithmetic on
  floats: it compares them, takes minima and maxima, and stores them, so the finite values
  are taken as reals.
\<close>

datatype npfloat = NaN | NegInf | Fin real | PosInf

text \<open>Which message an exception carries; the class is the constructor of \<open>py_error\<close>.\<close>

datatype type_val = TStr string | TOther

datatype err_msg =
    NoTypeDefined nat
  | MustBeDictionary
  | TypeMustBeString
  | UnknownType type_val
  | NoFunctionDefined nat
  | BoundsLength
  | LbGtUb "bool list"
  | BroadcastShapes
  | NegativeDimensions
  | ConcatenateShapes
  | IntTooLarge
  | NoSuchMode int
  | ByCaller string

datatype py_error =
    KeyError err_msg
  | TypeError err_msg
  | ValueError err_msg
  | IndexError err_msg
  | OverflowError err_msg
  | Raised err_msg

text \<open>IEEE comparison \<open>a < b\<close>: false as soon as one side is NaN.\<close>

fun fl_less :: "npfloat \<Rightarrow> npfloat \<Rightarrow> bool" where
  "fl_less NaN b = False"
| "fl_less a NaN = False"
| "fl_less PosInf b = False"
| "fl_less a NegInf = False"
| "fl_less NegInf b = True"
| "fl_less a PosInf = True"
| "fl_less (Fin u) (Fin v) = (u < v)"

definition fl_isnan :: "npfloat \<Rightarrow> bool" where
  "fl_isnan v = (v = NaN)"

definition fl_isfinite :: "npfloat \<Rightarrow> bool" where
  "fl_isfinite v = (case v of Fin r \<Rightarrow> True | _ \<Rightarrow> False)"

text \<open>
  numpy's clip kernel on floats: \<^verbatim>\<open>_NPY_MIN(_NPY_MAX(x, lo), hi)\<close> with
  \<^verbatim>\<open>_NPY_MAX(a, b) = isnan(a) ? a : (a > b ? a : b)\<close> and
  \<^verbatim>\<open>_NPY_MIN(a, b) = isnan(a) ? a : (a < b ? a : b)\<close>.
\<close>

definition npy_max :: "npfloat \<Rightarrow> npfloat \<Rightarrow> npfloat" where
  "npy_max u v = (if fl_isnan u then u else if fl_less v u then u else v)"

definition npy_min :: "npfloat \<Rightarrow> npfloat \<Rightarrow> npfloat" where
  "npy_min u v = (if fl_isnan u then u else if fl_less u v then u else v)"

definition npy_clip :: "npfloat \<Rightarrow> npfloat \<Rightarrow> npfloat \<Rightarrow> npfloat" where
  "npy_clip v lo hi = npy_min (npy_max v lo) hi"

subsection \<open>numpy arrays\<close>

text \<open>
  A one-dimensional array is a list. A two-dimensional array keeps its shape beside its
  rows, since \<^verbatim>\<open>np.zeros((0, n))\<close> has no row and still \<open>n\<close> columns.
\<close>

datatype mat = Mat (nrows: nat) (ncols: nat) (rows: "npfloat list list")

definition np_zeros :: "int \<Rightarrow> py_error + npfloat list" where
  "np_zeros k = (if k < 0 then Inl (ValueError NegativeDimensions)
                 else Inr (replicate (nat k) (Fin 0)))"

definition np_zeros2 :: "int \<Rightarrow> int \<Rightarrow> py_error + mat" where
  "np_zeros2 r k =
     (if r < 0 \<or> k < 0 then Inl (ValueError NegativeDimensions)
      else Inr (Mat (nat r) (nat k) (replicate (nat r) (replicate (nat k) (Fin 0)))))"

text \<open>Sequencing of computations that may raise: the first exception ends the run.\<close>

definition bind_err :: "'e + 'a \<Rightarrow> ('a \<Rightarrow> 'e + 'b) \<Rightarrow> 'e + 'b" where
  "bind_err r f = (case r of Inl e \<Rightarrow> Inl e | Inr v \<Rightarrow> f v)"

fun map_err :: "('a \<Rightarrow> 'e + 'b) \<Rightarrow> 'a list \<Rightarrow> 'e + 'b list" where
  "map_err f [] = Inr []"
| "map_err f (y # ys) =
     bind_err (f y) (\<lambda>v. bind_err (map_err f ys) (\<lambda>vs. Inr (v # vs)))"

text \<open>
  \<^verbatim>\<open>np.vstack\<close>: the arrays are stacked row-wise; all must have the same number of
  columns, and there must be at least one.
\<close>

definition np_vstack :: "mat list \<Rightarrow> py_error + mat" where
  "np_vstack ms =
     (case ms of
        [] \<Rightarrow> Inl (ValueError ConcatenateShapes)
      | m0 # rest \<Rightarrow>
          if list_all (\<lambda>m'. ncols m' = ncols m0) rest
          then Inr (Mat (sum_list (map nrows ms)) (ncols m0) (concat (map rows ms)))
          else Inl (ValueError ConcatenateShapes))"

text \<open>\<^verbatim>\<open>np.concatenate((p, q), 1)\<close>: column-wise; the row counts must agree.\<close>

definition np_hstack2 :: "mat \<Rightarrow> mat \<Rightarrow> py_error + mat" where
  "np_hstack2 p q =
     (if nrows p = nrows q
      then Inr (Mat (nrows p) (ncols p + ncols q) (map (\<lambda>(r, s). r @ s) (zip (rows p) (rows q))))
      else Inl (ValueError ConcatenateShapes))"

text \<open>
  Python slicing \<^verbatim>\<open>xs[start:stop]\<close> with integer bounds: a negative bound counts from
  the end, and both are clamped into the sequence; slicing never raises.
\<close>

definition slice_bound :: "int \<Rightarrow> int \<Rightarrow> nat" where
  "slice_bound len i = nat (if i < 0 then max 0 (len + i) else min i len)"

definition py_slice :: "'a list \<Rightarrow> int \<Rightarrow> int \<Rightarrow> 'a list" where
  "py_slice xs start stop =
     (let len = int (length xs);
          lo = slice_bound len start;
          hi = slice_bound len stop
      in take (hi - lo) (drop lo xs))"

text \<open>
  Broadcasting of one-dimensional arrays: two lengths are compatible when they are equal
  or one of them is 1, and the result has the larger length.
\<close>

definition broadcast_len :: "nat \<Rightarrow> nat \<Rightarrow> nat option" where
  "broadcast_len p q =
     (if p = q then Some p else if p = 1 then Some q else if q = 1 then Some p else None)"

definition broadcast_to :: "nat \<Rightarrow> 'a list \<Rightarrow> 'a list" where
  "broadcast_to k xs = (if length xs = k then xs else replicate k (hd xs))"

type_synonym new_bounds = "npfloat list \<times> npfloat list"

text \<open>
  \<^verbatim>\<open>np.clip(x, lb, ub)\<close>: the three arrays are broadcast against each other and
  clipped element by element; incompatible shapes raise ValueError.
\<close>

definition np_clip :: "npfloat list \<Rightarrow> new_bounds \<Rightarrow> py_error + npfloat list" where
  "np_clip xs nb =
     (case broadcast_len (length (fst nb)) (length (snd nb)) of
        None \<Rightarrow> Inl (ValueError BroadcastShapes)
      | Some kb \<Rightarrow>
          (case broadcast_len (length xs) kb of
             None \<Rightarrow> Inl (ValueError BroadcastShapes)
           | Some k \<Rightarrow>
               Inr (map (\<lambda>(v, lo, hi). npy_clip v lo hi)
                      (zip (broadcast_to k xs)
                         (zip (broadcast_to k (fst nb)) (broadcast_to k (snd nb)))))))"

subsection \<open>Bounds (lines 52-60 and 147-173)\<close>

type_synonym old_bounds = "(npfloat option \<times> npfloat option) list"

text \<open>
  scipy's \<^verbatim>\<open>old_bound_to_new\<close>: a missing lower bound is \<open>-inf\<close>, a missing upper
  bound is \<open>inf\<close>.
\<close>

definition old_bound_to_new :: "old_bounds \<Rightarrow> new_bounds" where
  "old_bound_to_new bs =
     (map (\<lambda>(l, u). case l of None \<Rightarrow> NegInf | Some v \<Rightarrow> v) bs,
      map (\<lambda>(l, u). case u of None \<Rightarrow> PosInf | Some v \<Rightarrow> v) bs)"

text \<open>
  Lines 54-57. Without bounds \<^verbatim>\<open>new_bounds\<close> is the pair of scalars \<open>(-inf, inf)\<close>,
  which numpy broadcasts as it does arrays of length 1.
\<close>

definition make_new_bounds :: "old_bounds option \<Rightarrow> new_bounds" where
  "make_new_bounds bounds =
     (case bounds of
        None \<Rightarrow> ([NegInf], [PosInf])
      | Some bs \<Rightarrow> if length bs = 0 then ([NegInf], [PosInf]) else old_bound_to_new bs)"

text \<open>
  Lines 147-173: \<^verbatim>\<open>np.array(..., dtype=float)\<close> turns \<open>None\<close> into NaN; the length
  check, the \<open>lb > ub\<close> check (false on NaN), and infinite bounds marked by NaN.
\<close>

definition bound_scalar :: "npfloat option \<Rightarrow> npfloat" where
  "bound_scalar b = (case b of None \<Rightarrow> NaN | Some v \<Rightarrow> v)"

definition mark_infinite :: "npfloat \<Rightarrow> npfloat" where
  "mark_infinite v = (if fl_isfinite v then v else NaN)"

definition decompose_bounds ::
  "old_bounds option \<Rightarrow> nat \<Rightarrow> py_error + (npfloat list \<times> npfloat list)" where
  "decompose_bounds bounds n =
     (if bounds = None \<or> length (the bounds) = 0
      then Inr (replicate n NaN, replicate n NaN)
      else
        let bnds = map (\<lambda>(l, u). (bound_scalar l, bound_scalar u)) (the bounds) in
        if length bnds \<noteq> n then Inl (IndexError BoundsLength)
        else
          let bnderr = map (\<lambda>(l, u). fl_less u l) bnds in
          if list_ex (\<lambda>b. b) bnderr then Inl (ValueError (LbGtUb bnderr))
          else Inr (map (\<lambda>(l, u). mark_infinite l) bnds, map (\<lambda>(l, u). mark_infinite u) bnds))"

subsection \<open>Constraints (lines 62-110)\<close>

text \<open>
  A caller's function may raise; its result is a vector (a scalar result is the vector of
  length 1 that \<^verbatim>\<open>np.atleast_1d\<close> makes of it) or a two-dimensional Jacobian. The
  extra arguments \<^verbatim>\<open>args\<close> of a constraint are part of its functions.
\<close>

type_synonym vecfun = "npfloat list \<Rightarrow> py_error + npfloat list"
type_synonym jacfun = "npfloat list \<Rightarrow> py_error + mat"

text \<open>
  A constraint specification as the caller writes it: a dictionary whose keys \<open>type\<close>,
  \<open>fun\<close> and \<open>jac\<close> may be absent (\<open>None\<close>), or an object that is no dictionary.
\<close>

record con_dict =
  d_type :: "type_val option"
  d_fun :: "vecfun option"
  d_jac :: "jacfun option"

datatype con_obj = Dict con_dict | NotSubscriptable

datatype constraints_arg = OneDict con_dict | ConSeq "con_obj list"

record constraint =
  c_fun :: vecfun
  c_jac :: jacfun

record cons =
  cons_eq :: "constraint list"
  cons_ineq :: "constraint list"

text \<open>\<^verbatim>\<open>str.lower\<close> on ASCII text.\<close>

definition py_lower_char :: "char \<Rightarrow> char" where
  "py_lower_char ch =
     (case map_of (zip ''ABCDEFGHIJKLMNOPQRSTUVWXYZ'' ''abcdefghijklmnopqrstuvwxyz'') ch of
        None \<Rightarrow> ch
      | Some l \<Rightarrow> l)"

definition py_lower :: "string \<Rightarrow> string" where
  "py_lower s = map py_lower_char s"

subsection \<open>The kernel's cells and the environment of a run\<close>

text \<open>
  Everything \<^verbatim>\<open>slsqp\<close> receives by reference and may change in place: the iterate, the
  bound arrays, the current values, the counters, both workspaces and its state cells.
  \<open>rcells\<close> are \<open>alpha, f0, gs, h1, h2, h3, h4, t, t0, tol\<close> and \<open>icells\<close> are
  \<open>iexact, incons, ireset, itermx, line\<close>.
\<close>

record kstate =
  kx :: "npfloat list"
  kxl :: "npfloat list"
  kxu :: "npfloat list"
  kc :: "npfloat list"
  kg :: "npfloat list"
  ka :: mat
  kacc :: npfloat
  majiter :: int
  mode :: int
  kw :: "npfloat list"
  kjw :: "npfloat list"
  rcells :: "npfloat list"
  icells :: "int list"
  n1 :: int
  n2 :: int
  n3 :: int

text \<open>
  The parameters of the model. \<open>kernel m meq fx cells\<close> is one call of \<^verbatim>\<open>slsqp\<close>.
  \<open>prepare_scalar_function\<close>, \<open>sf_fun\<close>, \<open>sf_grad\<close> and the two counters are the
  objective adapter (\<^verbatim>\<open>_prepare_scalar_function\<close>, whose code is not part of this file):
  an object with a state of its own, which holds the objective, its gradient and their
  options.
\<close>

record 'sf env =
  kernel :: "int \<Rightarrow> int \<Rightarrow> npfloat \<Rightarrow> kstate \<Rightarrow> kstate"
  approx_derivative :: "vecfun \<Rightarrow> npfloat list \<Rightarrow> new_bounds \<Rightarrow> py_error + mat"
  prepare_scalar_function :: "npfloat list \<Rightarrow> new_bounds \<Rightarrow> py_error + 'sf"
  sf_fun :: "'sf \<Rightarrow> npfloat list \<Rightarrow> py_error + (npfloat \<times> 'sf)"
  sf_grad :: "'sf \<Rightarrow> npfloat list \<Rightarrow> py_error + (npfloat list \<times> 'sf)"
  sf_nfev :: "'sf \<Rightarrow> int"
  sf_ngev :: "'sf \<Rightarrow> int"

text \<open>
  Modelled from the spec: \<^verbatim>\<open>_check_clip_x\<close> and \<^verbatim>\<open>_clip_x_for_func\<close> of
  \<^verbatim>\<open>pylgr/optimize/_optimize.py\<close> are not part of this file. The spec has every call
  first clip its argument into the bound box.
\<close>

definition check_clip_x :: "npfloat list \<Rightarrow> new_bounds \<Rightarrow> py_error + npfloat list" where
  "check_clip_x xv nb = np_clip xv nb"

definition clip_x_for_func ::
  "(npfloat list \<Rightarrow> py_error + 'r) \<Rightarrow> new_bounds \<Rightarrow> npfloat list \<Rightarrow> py_error + 'r" where
  "clip_x_for_func func nb xv = bind_err (check_clip_x xv nb) func"

text \<open>Lines 91-105: the Jacobian synthesised for a constraint that brings none.\<close>

definition cjac_factory :: "'sf env \<Rightarrow> new_bounds \<Rightarrow> vecfun \<Rightarrow> jacfun" where
  "cjac_factory env nb f =
     (\<lambda>xv. bind_err (check_clip_x xv nb) (\<lambda>xc. approx_derivative env f xc nb))"

text \<open>One turn of the loop of lines 67-110, for the constraint \<open>con\<close> at index \<open>ic\<close>.\<close>

definition triage_one ::
  "'sf env \<Rightarrow> new_bounds \<Rightarrow> cons \<Rightarrow> nat \<Rightarrow> con_obj \<Rightarrow> py_error + cons" where
  "triage_one env nb cs ic con =
     (case con of
        NotSubscriptable \<Rightarrow> Inl (TypeError MustBeDictionary)
      | Dict d \<Rightarrow>
          (case d_type d of
             None \<Rightarrow> Inl (KeyError (NoTypeDefined ic))
           | Some TOther \<Rightarrow> Inl (TypeError TypeMustBeString)
           | Some (TStr s) \<Rightarrow>
               let ctype = py_lower s in
               if ctype \<notin> set [''eq'', ''ineq''] then Inl (ValueError (UnknownType (TStr s)))
               else
                 (case d_fun d of
                    None \<Rightarrow> Inl (ValueError (NoFunctionDefined ic))
                  | Some f \<Rightarrow>
                      let cjac = (case d_jac d of None \<Rightarrow> cjac_factory env nb f | Some j \<Rightarrow> j);
                          entry = \<lparr>c_fun = f, c_jac = cjac\<rparr>
                      in if ctype = ''eq''
                         then Inr (cs\<lparr>cons_eq := cons_eq cs @ [entry]\<rparr>)
                         else Inr (cs\<lparr>cons_ineq := cons_ineq cs @ [entry]\<rparr>))))"

fun triage :: "'sf env \<Rightarrow> new_bounds \<Rightarrow> cons \<Rightarrow> nat \<Rightarrow> con_obj list \<Rightarrow> py_error + cons" where
  "triage env nb cs ic [] = Inr cs"
| "triage env nb cs ic (con # rest) =
     bind_err (triage_one env nb cs ic con) (\<lambda>cs'. triage env nb cs' (Suc ic) rest)"

text \<open>Lines 63-64: a single dictionary stands for the tuple that holds it.\<close>

definition as_sequence :: "constraints_arg \<Rightarrow> con_obj list" where
  "as_sequence ca = (case ca of OneDict d \<Rightarrow> [Dict d] | ConSeq cs \<Rightarrow> cs)"

subsection \<open>The constraint evaluator (lines 285-328)\<close>

definition eval_constraint :: "npfloat list \<Rightarrow> cons \<Rightarrow> py_error + npfloat list" where
  "eval_constraint xv cs =
     bind_err
       (if cons_eq cs \<noteq> []
        then bind_err (map_err (\<lambda>con. c_fun con xv) (cons_eq cs)) (\<lambda>rs. Inr (concat rs))
        else np_zeros 0)
       (\<lambda>c_eq.
          bind_err
            (if cons_ineq cs \<noteq> []
             then bind_err (map_err (\<lambda>con. c_fun con xv) (cons_ineq cs)) (\<lambda>rs. Inr (concat rs))
             else np_zeros 0)
            (\<lambda>c_ieq. Inr (c_eq @ c_ieq)))"

definition eval_con_normals ::
  "npfloat list \<Rightarrow> cons \<Rightarrow> int \<Rightarrow> int \<Rightarrow> int \<Rightarrow> int \<Rightarrow> int \<Rightarrow> py_error + mat" where
  "eval_con_normals xv cs la n m meq mieq =
     bind_err
       (if cons_eq cs \<noteq> []
        then bind_err (map_err (\<lambda>con. c_jac con xv) (cons_eq cs)) np_vstack
        else np_zeros2 meq n)
       (\<lambda>a_eq.
          bind_err
            (if cons_ineq cs \<noteq> []
             then bind_err (map_err (\<lambda>con. c_jac con xv) (cons_ineq cs)) np_vstack
             else np_zeros2 mieq n)
            (\<lambda>a_ieq.
               bind_err (if m = 0 then np_zeros2 la n else np_vstack [a_eq, a_ieq])
                 (\<lambda>a0. bind_err (np_zeros2 la 1) (\<lambda>z. np_hstack2 a0 z))))"


subsection \<open>Workspace sizes (lines 138-145)\<close>

text \<open>\<open>n\<close>, \<open>m\<close> and \<open>meq\<close> are Python integers; \<open>//\<close> is floor division, as \<open>div\<close> on \<open>int\<close>.\<close>

definition len_jw :: "int \<Rightarrow> int \<Rightarrow> int \<Rightarrow> int" where
  "len_jw n m meq = (let n1 = n + 1; mineq = m - meq + n1 + n1 in mineq)"

definition len_w :: "int \<Rightarrow> int \<Rightarrow> int \<Rightarrow> int" where
  "len_w n m meq =
     (let n1 = n + 1;
          mineq = m - meq + n1 + n1
      in (3*n1+m)*(n1+1)+(n1-meq+1)*(mineq+2) + 2*mineq+(n1+mineq)*(n1-meq)
         + 2*meq + n1 + ((n+1)*n) div 2 + 2*m + 3*n + 3*n1 + 1)"

subsection \<open>KKT multipliers (lines 249-267)\<close>

text \<open>
  The offsets into the real workspace. \<open>n1\<close> is the kernel's state cell of that name, as
  the kernel left it (line 206 rebinds the name \<open>n1\<close> to that cell).
\<close>

definition kkt_offset :: "int \<Rightarrow> int \<Rightarrow> int \<Rightarrow> int" where
  "kkt_offset la n1v n =
     (let im = 1;
          il = im + la;
          ix = il + (n1v * n) div 2 + 1;
          ir = ix + n - 1
      in ir)"

text \<open>One turn of the inner loop: the next span of the slice, and the advanced index.\<close>

definition kkt_take :: "'a list \<Rightarrow> 'a list list \<times> int \<Rightarrow> nat \<Rightarrow> 'a list list \<times> int" where
  "kkt_take mult st dm =
     (fst st @ [py_slice mult (snd st) (snd st + int dm)], snd st + int dm)"

text \<open>
  The outer loop over \<open>("eq", _meq_cv)\<close> and \<open>("ineq", _mieq_cv)\<close>: \<open>kkt\<close> starts empty
  for each group, \<open>w_ind\<close> runs on. The dictionary with the keys \<open>eq\<close> and \<open>ineq\<close> is the
  pair of its two values.
\<close>

definition kkt_split ::
  "'a list \<Rightarrow> nat list \<Rightarrow> nat list \<Rightarrow> 'a list list \<times> 'a list list" where
  "kkt_split mult meq_cv mieq_cv =
     (let w_ind = 0;
          r_eq = foldl (kkt_take mult) ([], w_ind) meq_cv;
          r_ineq = foldl (kkt_take mult) ([], snd r_eq) mieq_cv
      in (fst r_eq, fst r_ineq))"

definition kkt_multipliers ::
  "'a list \<Rightarrow> int \<Rightarrow> int \<Rightarrow> int \<Rightarrow> int \<Rightarrow> nat list \<Rightarrow> nat list
     \<Rightarrow> 'a list list \<times> 'a list list" where
  "kkt_multipliers wv la n1v n m meq_cv mieq_cv =
     (let ir = kkt_offset la n1v n;
          kkt_mult = py_slice wv ir (ir + m)
      in kkt_split kkt_mult meq_cv mieq_cv)"

subsection \<open>The driver (lines 43-61, 112-247, 269-282)\<close>

text \<open>
  The calls the body of \<^verbatim>\<open>_minimize_slsqp\<close> makes to evaluators and to the kernel, in
  the order it makes them. \<open>FunCall\<close> and \<open>GradCall\<close> carry the point that the adapter
  receives, after the wrapper has clipped it; \<open>KernelCall\<close> carries the cells on entry
  and on return. Printing is left out: \<open>disp\<close> and \<open>iprint\<close> change no value.
\<close>

datatype event =
    ConFunCall "npfloat list"
  | PrepareCall "npfloat list"
  | FunCall "npfloat list"
  | GradCall "npfloat list"
  | ConstraintCall "npfloat list"
  | NormalsCall "npfloat list"
  | KernelCall kstate kstate

text \<open>
  The caller's arguments. The objective \<open>fun\<close>, its \<open>args\<close>, \<open>jac\<close>, \<open>eps\<close> and
  \<open>finite_diff_rel_step\<close> only reach the objective adapter and
  \<^verbatim>\<open>approx_derivative\<close>, which are in the environment. \<open>x0\<close> is the flattened array
  (a scalar is the array of length 1).
\<close>

record arguments =
  x0 :: "npfloat list"
  bounds :: "old_bounds option"
  constraints :: constraints_arg
  maxiter :: int
  ftol :: npfloat

text \<open>What lines 62-136 compute once and the rest of the run reads.\<close>

record problem =
  p_cons :: cons
  p_nb :: new_bounds
  p_meq_cv :: "nat list"
  p_mieq_cv :: "nat list"
  p_meq :: int
  p_mieq :: int
  p_m :: int
  p_la :: int
  p_n :: int

text \<open>The variables of the loop: the kernel's cells, \<open>fx\<close>, the adapter and the log.\<close>

record 'sf dstate =
  ks :: kstate
  fx :: npfloat
  sf :: 'sf
  majiter_prev :: int
  trace :: "event list"

record result =
  res_x :: "npfloat list"
  res_fun :: npfloat
  res_jac :: "npfloat list"
  nit :: int
  nfev :: int
  njev :: int
  status :: int
  message :: string
  success :: bool
  kkt :: "npfloat list list \<times> npfloat list list"

text \<open>An exception ends the run; the model keeps the calls made until then.\<close>

type_synonym 'r run = "(py_error \<times> event list) + 'r"

text \<open>Lines 126-127: each constraint is evaluated once at \<open>x\<close> for its length.\<close>

fun residual_dims ::
  "npfloat list \<Rightarrow> constraint list \<Rightarrow> event list \<Rightarrow> (nat list \<times> event list) run" where
  "residual_dims xv [] tr = Inr ([], tr)"
| "residual_dims xv (con # rest) tr =
     (case c_fun con xv of
        Inl e \<Rightarrow> Inl (e, tr @ [ConFunCall xv])
      | Inr r \<Rightarrow>
          bind_err (residual_dims xv rest (tr @ [ConFunCall xv]))
            (\<lambda>(ds, tr'). Inr (length r # ds, tr')))"

text \<open>\<^verbatim>\<open>np.array(iter, int)\<close>: a 64-bit cell; a Python integer out of its range raises.\<close>

definition to_int64 :: "int \<Rightarrow> py_error + int" where
  "to_int64 v = (if - (2 ^ 63) \<le> v \<and> v < 2 ^ 63 then Inr v else Inl (OverflowError IntTooLarge))"

text \<open>
  Lines 43-208, up to the first evaluation of line 217. The cells \<open>kc\<close>, \<open>kg\<close> and
  \<open>ka\<close> hold nothing yet: lines 217-220 assign them before the kernel is called.
\<close>

definition initialise :: "'sf env \<Rightarrow> arguments \<Rightarrow> (problem \<times> 'sf dstate) run" where
  "initialise env ar =
     (let iter = maxiter ar - 1;
          acc = ftol ar;
          nb = make_new_bounds (bounds ar)
      in case np_clip (x0 ar) nb of
           Inl e \<Rightarrow> Inl (e, [])
         | Inr xv \<Rightarrow>
       (case triage env nb \<lparr>cons_eq = [], cons_ineq = []\<rparr> 0 (as_sequence (constraints ar)) of
           Inl e \<Rightarrow> Inl (e, [])
         | Inr cs \<Rightarrow>
       bind_err (residual_dims xv (cons_eq cs) []) (\<lambda>(meq_cv, tr1).
       bind_err (residual_dims xv (cons_ineq cs) tr1) (\<lambda>(mieq_cv, tr2).
         let meq = int (sum_list meq_cv);
             mieq = int (sum_list mieq_cv);
             m = meq + mieq;
             la = max 1 m;
             n = int (length xv)
         in case np_zeros (len_w n m meq) of
              Inl e \<Rightarrow> Inl (e, tr2)
            | Inr wv \<Rightarrow>
          (case np_zeros (len_jw n m meq) of
              Inl e \<Rightarrow> Inl (e, tr2)
            | Inr jwv \<Rightarrow>
          (case decompose_bounds (bounds ar) (length xv) of
              Inl e \<Rightarrow> Inl (e, tr2)
            | Inr (xlv, xuv) \<Rightarrow>
          (case prepare_scalar_function env xv nb of
              Inl e \<Rightarrow> Inl (e, tr2 @ [PrepareCall xv])
            | Inr sf0 \<Rightarrow>
          (case to_int64 iter of
              Inl e \<Rightarrow> Inl (e, tr2 @ [PrepareCall xv])
            | Inr mj \<Rightarrow>
              Inr (\<lparr>p_cons = cs, p_nb = nb, p_meq_cv = meq_cv, p_mieq_cv = mieq_cv,
                     p_meq = meq, p_mieq = mieq, p_m = m, p_la = la, p_n = n\<rparr>,
                   \<lparr>ks = \<lparr>kx = xv, kxl = xlv, kxu = xuv, kc = [], kg = [],
                            ka = Mat 0 0 [], kacc = acc, majiter = mj, mode = 0,
                            kw = wv, kjw = jwv,
                            rcells = replicate 10 (Fin 0), icells = replicate 5 0,
                            n1 = 0, n2 = 0, n3 = 0\<rparr>,
                      fx = Fin 0, sf = sf0, majiter_prev = 0,
                      trace = tr2 @ [PrepareCall xv]\<rparr>)))))))))"

text \<open>\<^verbatim>\<open>fx = wrapped_fun(x)\<close> and \<^verbatim>\<open>g = np.append(wrapped_grad(x), 0.0)\<close>.\<close>

definition wrapped_fun :: "'sf env \<Rightarrow> problem \<Rightarrow> 'sf dstate \<Rightarrow> 'sf dstate run" where
  "wrapped_fun env p s =
     (case check_clip_x (kx (ks s)) (p_nb p) of
        Inl e \<Rightarrow> Inl (e, trace s)
      | Inr xc \<Rightarrow>
          (case sf_fun env (sf s) xc of
             Inl e \<Rightarrow> Inl (e, trace s @ [FunCall xc])
           | Inr (v, sf') \<Rightarrow> Inr (s\<lparr>fx := v, sf := sf', trace := trace s @ [FunCall xc]\<rparr>)))"

definition wrapped_grad :: "'sf env \<Rightarrow> problem \<Rightarrow> 'sf dstate \<Rightarrow> 'sf dstate run" where
  "wrapped_grad env p s =
     (case check_clip_x (kx (ks s)) (p_nb p) of
        Inl e \<Rightarrow> Inl (e, trace s)
      | Inr xc \<Rightarrow>
          (case sf_grad env (sf s) xc of
             Inl e \<Rightarrow> Inl (e, trace s @ [GradCall xc])
           | Inr (gv, sf') \<Rightarrow>
               Inr (s\<lparr>ks := (ks s)\<lparr>kg := gv @ [Fin 0]\<rparr>, sf := sf',
                      trace := trace s @ [GradCall xc]\<rparr>)))"

text \<open>\<^verbatim>\<open>c = _eval_constraint(x, cons)\<close> and \<^verbatim>\<open>a = _eval_con_normals(x, cons, la, n, m, meq, mieq)\<close>.\<close>

definition call_eval_constraint :: "problem \<Rightarrow> 'sf dstate \<Rightarrow> 'sf dstate run" where
  "call_eval_constraint p s =
     (case eval_constraint (kx (ks s)) (p_cons p) of
        Inl e \<Rightarrow> Inl (e, trace s @ [ConstraintCall (kx (ks s))])
      | Inr cv \<Rightarrow>
          Inr (s\<lparr>ks := (ks s)\<lparr>kc := cv\<rparr>, trace := trace s @ [ConstraintCall (kx (ks s))]\<rparr>))"

definition call_eval_con_normals :: "problem \<Rightarrow> 'sf dstate \<Rightarrow> 'sf dstate run" where
  "call_eval_con_normals p s =
     (case eval_con_normals (kx (ks s)) (p_cons p) (p_la p) (p_n p) (p_m p) (p_meq p) (p_mieq p) of
        Inl e \<Rightarrow> Inl (e, trace s @ [NormalsCall (kx (ks s))])
      | Inr av \<Rightarrow>
          Inr (s\<lparr>ks := (ks s)\<lparr>ka := av\<rparr>, trace := trace s @ [NormalsCall (kx (ks s))]\<rparr>))"

text \<open>Lines 217-220: the four evaluations before the loop.\<close>

definition prime :: "'sf env \<Rightarrow> problem \<Rightarrow> 'sf dstate \<Rightarrow> 'sf dstate run" where
  "prime env p s =
     bind_err (wrapped_fun env p s) (\<lambda>s1.
     bind_err (wrapped_grad env p s1) (\<lambda>s2.
     bind_err (call_eval_constraint p s2) (\<lambda>s3.
     call_eval_con_normals p s3)))"

text \<open>Lines 223-235: one call of the kernel and the evaluations its mode asks for.\<close>

definition call_kernel :: "'sf env \<Rightarrow> problem \<Rightarrow> 'sf dstate \<Rightarrow> 'sf dstate" where
  "call_kernel env p s =
     (let k' = kernel env (p_m p) (p_meq p) (fx s) (ks s)
      in s\<lparr>ks := k', trace := trace s @ [KernelCall (ks s) k']\<rparr>)"

definition loop_body :: "'sf env \<Rightarrow> problem \<Rightarrow> 'sf dstate \<Rightarrow> 'sf dstate run" where
  "loop_body env p s =
     (let s1 = call_kernel env p s
      in bind_err
           (if mode (ks s1) = 1
            then bind_err (wrapped_fun env p s1) (call_eval_constraint p)
            else Inr s1)
           (\<lambda>s2. if mode (ks s2) = - 1
                  then bind_err (wrapped_grad env p s2) (call_eval_con_normals p)
                  else Inr s2))"

text \<open>
  Lines 222-247, \<^verbatim>\<open>while 1\<close>: the loop ends by \<^verbatim>\<open>break\<close> or by an exception, or it
  does not end; then the value is \<open>None\<close>.
\<close>

partial_function (option) drive_loop ::
  "'sf env \<Rightarrow> problem \<Rightarrow> 'sf dstate \<Rightarrow> 'sf dstate run option" where
  "drive_loop env p s =
     (case loop_body env p s of
        Inl e \<Rightarrow> Some (Inl e)
      | Inr s' \<Rightarrow>
          if \<bar>mode (ks s')\<bar> \<noteq> 1 then Some (Inr s')
          else drive_loop env p (s'\<lparr>majiter_prev := majiter (ks s')\<rparr>))"

text \<open>Lines 112-122.\<close>

definition exit_modes :: "int \<Rightarrow> string option" where
  "exit_modes = map_of
     [(- 1, ''Gradient evaluation required (g & a)''),
      (0, ''Optimization terminated successfully''),
      (1, ''Function evaluation required (f & c)''),
      (2, ''More equality constraints than independent variables''),
      (3, ''More than 3*n iterations in LSQ subproblem''),
      (4, ''Inequality constraints incompatible''),
      (5, ''Singular matrix E in LSQ subproblem''),
      (6, ''Singular matrix C in LSQ subproblem''),
      (7, ''Rank-deficient equality constraint subproblem HFTI''),
      (8, ''Positive directional derivative for linesearch''),
      (9, ''Iteration limit reached'')]"

text \<open>
  Lines 249-282: the multipliers, then the result record. \<^verbatim>\<open>exit_modes[int(mode)]\<close>
  raises KeyError for a mode the table does not have.
\<close>

definition finish :: "'sf env \<Rightarrow> problem \<Rightarrow> 'sf dstate \<Rightarrow> (result \<times> event list) run" where
  "finish env p s =
     (let k = ks s;
          kkt_multiplier =
            kkt_multipliers (kw k) (p_la p) (n1 k) (p_n p) (p_m p) (p_meq_cv p) (p_mieq_cv p)
      in case exit_modes (mode k) of
           None \<Rightarrow> Inl (KeyError (NoSuchMode (mode k)), trace s)
         | Some msg \<Rightarrow>
             Inr (\<lparr>res_x = kx k, res_fun = fx s, res_jac = butlast (kg k),
                    nit = majiter k, nfev = sf_nfev env (sf s), njev = sf_ngev env (sf s),
                    status = mode k, message = msg, success = (mode k = 0),
                    kkt = kkt_multiplier\<rparr>,
                  trace s))"

text \<open>The whole of \<^verbatim>\<open>_minimize_slsqp\<close>.\<close>

definition minimize_slsqp ::
  "'sf env \<Rightarrow> arguments \<Rightarrow> (result \<times> event list) run option" where
  "minimize_slsqp env ar =
     (case initialise env ar of
        Inl e \<Rightarrow> Some (Inl e)
      | Inr (p, s0) \<Rightarrow>
          (case prime env p s0 of
             Inl e \<Rightarrow> Some (Inl e)
           | Inr s1 \<Rightarrow>
               (case drive_loop env p s1 of
                  None \<Rightarrow> None
                | Some (Inl e) \<Rightarrow> Some (Inl e)
                | Some (Inr s2) \<Rightarrow> Some (finish env p s2))))"

subsection \<open>Reference definitions for the properties\<close>

text \<open>
  Spans cut off the front of a list one after the other, with the given lengths: what
  the spec's multiplier extractor produces for one group of constraints.
\<close>

fun spans_of :: "'a list \<Rightarrow> nat list \<Rightarrow> 'a list list" where
  "spans_of xs [] = []"
| "spans_of xs (d # ds) = take d xs # spans_of (drop d xs) ds"

text \<open>Reading the log: which calls are kernel calls, and at which point an evaluation is made.\<close>

fun is_kernel_call :: "event \<Rightarrow> bool" where
  "is_kernel_call (KernelCall k k') = True"
| "is_kernel_call ev = False"

fun event_point :: "event \<Rightarrow> npfloat list option" where
  "event_point (ConFunCall xv) = Some xv"
| "event_point (PrepareCall xv) = Some xv"
| "event_point (FunCall xv) = Some xv"
| "event_point (GradCall xv) = Some xv"
| "event_point (ConstraintCall xv) = Some xv"
| "event_point (NormalsCall xv) = Some xv"
| "event_point (KernelCall k k') = None"

definition run_trace :: "('r \<times> event list) run \<Rightarrow> event list" where
  "run_trace r = (case r of Inl (e, tr) \<Rightarrow> tr | Inr (v, tr) \<Rightarrow> tr)"

text \<open>
  The transition rule of the spec's iteration driver, as a check on the calls of the loop:
  each round is a kernel call; after mode \<open>+1\<close> exactly the objective and the constraint
  residuals are evaluated at the iterate the kernel left, after mode \<open>-1\<close> exactly the
  gradient and the normals, and another round follows; after any other mode nothing
  follows.
\<close>

fun protocol :: "new_bounds \<Rightarrow> event list \<Rightarrow> bool" where
  "protocol nb [] = False"
| "protocol nb (KernelCall k k' # es) =
     (if mode k' = 1
      then (case es of
              FunCall y # ConstraintCall z # es' \<Rightarrow>
                check_clip_x (kx k') nb = Inr y \<and> z = kx k' \<and> protocol nb es'
            | _ \<Rightarrow> False)
      else if mode k' = - 1
      then (case es of
              GradCall y # NormalsCall z # es' \<Rightarrow>
                check_clip_x (kx k') nb = Inr y \<and> z = kx k' \<and> protocol nb es'
            | _ \<Rightarrow> False)
      else es = [])"
| "protocol nb (ev # es) = False"

text \<open>
  The calls of a loop that an exception has ended: rounds of the protocol, and a last
  round that the exception cut short, in the clipping of the iterate (no evaluation is
  logged), in the first of the two evaluations its mode asks for, or in the second.
\<close>

fun protocol_raised :: "new_bounds \<Rightarrow> event list \<Rightarrow> bool" where
  "protocol_raised nb [] = False"
| "protocol_raised nb (KernelCall k k' # es) =
     (if mode k' = 1
      then (case es of
              [] \<Rightarrow> isl (check_clip_x (kx k') nb)
            | FunCall y # [] \<Rightarrow> check_clip_x (kx k') nb = Inr y
            | FunCall y # ConstraintCall z # es' \<Rightarrow>
                check_clip_x (kx k') nb = Inr y \<and> z = kx k' \<and>
                (es' = [] \<or> protocol_raised nb es')
            | _ \<Rightarrow> False)
      else if mode k' = - 1
      then (case es of
              [] \<Rightarrow> isl (check_clip_x (kx k') nb)
            | GradCall y # [] \<Rightarrow> check_clip_x (kx k') nb = Inr y
            | GradCall y # NormalsCall z # es' \<Rightarrow>
                check_clip_x (kx k') nb = Inr y \<and> z = kx k' \<and>
                (es' = [] \<or> protocol_raised nb es')
            | _ \<Rightarrow> False)
      else False)"
| "protocol_raised nb (ev # es) = False"

text \<open>
  The residual functions of the constraint specifications of one kind, in the order in
  which the caller has given them: the spec's registration order.
\<close>

definition registered :: "string \<Rightarrow> con_obj list \<Rightarrow> vecfun list" where
  "registered kind cs =
     List.map_filter
       (\<lambda>con. case con of
                 NotSubscriptable \<Rightarrow> None
               | Dict d \<Rightarrow>
                   (case d_type d of
                      Some (TStr s) \<Rightarrow> if py_lower s = kind then d_fun d else None
                    | _ \<Rightarrow> None))
       cs"

text \<open>IEEE \<open>a \<le> b\<close>, and membership in a bound box.\<close>

definition fl_le :: "npfloat \<Rightarrow> npfloat \<Rightarrow> bool" where
  "fl_le u v = (u \<noteq> NaN \<and> v \<noteq> NaN \<and> \<not> fl_less v u)"

text \<open>
  The constraint specifications the spec calls malformed: the kind is missing, the kind
  is not one of the two recognised values, or there is no residual function. The
  exceptions that lines 67-84 raise for a constraint are what the spec calls a
  configuration error.
\<close>

definition malformed :: "con_obj \<Rightarrow> bool" where
  "malformed con =
     (case con of
        NotSubscriptable \<Rightarrow> False
      | Dict d \<Rightarrow>
          (case d_type d of
             None \<Rightarrow> True
           | Some TOther \<Rightarrow> True
           | Some (TStr s) \<Rightarrow> py_lower s \<noteq> ''eq'' \<and> py_lower s \<noteq> ''ineq'')
          \<or> d_fun d = None)"

definition configuration_error :: "py_error \<Rightarrow> bool" where
  "configuration_error e =
     (case e of
        KeyError (NoTypeDefined i) \<Rightarrow> True
      | TypeError MustBeDictionary \<Rightarrow> True
      | TypeError TypeMustBeString \<Rightarrow> True
      | ValueError (UnknownType t) \<Rightarrow> True
      | ValueError (NoFunctionDefined i) \<Rightarrow> True
      | _ \<Rightarrow> False)"

subsection \<open>A concrete run\<close>

text \<open>
  A kernel that asks for the function values, then for the gradients, and then reports
  convergence; an objective adapter that returns zeros; one inequality constraint
  \<open>x \<ge> 0\<close> with its Jacobian; the start \<open>x0 = -5\<close> under the bounds \<open>[(0, 10)]\<close>.
\<close>

definition example_kernel :: "int \<Rightarrow> int \<Rightarrow> npfloat \<Rightarrow> kstate \<Rightarrow> kstate" where
  "example_kernel m meq f k =
     (if majiter k = 2 then k\<lparr>majiter := 1, mode := 1, n1 := int (length (kx k)) + 1\<rparr>
      else if majiter k = 1 then k\<lparr>majiter := 0, mode := - 1\<rparr>
      else k\<lparr>mode := 0\<rparr>)"

definition example_env_with :: "(int \<Rightarrow> int \<Rightarrow> npfloat \<Rightarrow> kstate \<Rightarrow> kstate) \<Rightarrow> unit env" where
  "example_env_with kf =
     \<lparr>kernel = kf,
      approx_derivative = (\<lambda>f xv nb. Inr (Mat 1 (length xv) [map (\<lambda>v. Fin 0) xv])),
      prepare_scalar_function = (\<lambda>xv nb. Inr ()),
      sf_fun = (\<lambda>u xv. Inr (Fin 0, ())),
      sf_grad = (\<lambda>u xv. Inr (map (\<lambda>v. Fin 0) xv, ())),
      sf_nfev = (\<lambda>u. 1),
      sf_ngev = (\<lambda>u. 1)\<rparr>"

definition example_env :: "unit env" where
  "example_env = example_env_with example_kernel"

definition example_con :: con_dict where
  "example_con =
     \<lparr>d_type = Some (TStr ''Ineq''), d_fun = Some (\<lambda>xv. Inr xv),
      d_jac = Some (\<lambda>xv. Inr (Mat 1 1 [[Fin 1]]))\<rparr>"

definition example_args :: arguments where
  "example_args =
     \<lparr>x0 = [Fin (- 5)], bounds = Some [(Some (Fin 0), Some (Fin 10))],
      constraints = ConSeq [Dict example_con], maxiter = 3, ftol = Fin (1 / 1000000)\<rparr>"

text \<open>
  The values this run goes through: the problem, the cells before and after each kernel
  call, the states of the loop, and the result.
\<close>

definition ex_cons :: cons where
  "ex_cons = \<lparr>cons_eq = [], cons_ineq = [\<lparr>c_fun = (\<lambda>xv. Inr xv),
                 c_jac = (\<lambda>xv. Inr (Mat 1 1 [[Fin 1]]))\<rparr>]\<rparr>"

definition ex_problem :: problem where
  "ex_problem = \<lparr>p_cons = ex_cons, p_nb = ([Fin 0], [Fin 10]), p_meq_cv = [], p_mieq_cv = [1],
                   p_meq = 0, p_mieq = 1, p_m = 1, p_la = 1, p_n = 1\<rparr>"

definition ex_k0 :: kstate where
  "ex_k0 = \<lparr>kx = [Fin 0], kxl = [Fin 0], kxu = [Fin 10], kc = [], kg = [],
             ka = Mat 0 0 [], kacc = Fin (1 / 1000000), majiter = 2, mode = 0,
             kw = replicate 81 (Fin 0), kjw = replicate 5 (Fin 0),
             rcells = replicate 10 (Fin 0), icells = replicate 5 0,
             n1 = 0, n2 = 0, n3 = 0\<rparr>"

definition ex_s0 :: "unit dstate" where
  "ex_s0 = \<lparr>ks = ex_k0, fx = Fin 0, sf = (), majiter_prev = 0,
             trace = [ConFunCall [Fin 0], PrepareCall [Fin 0]]\<rparr>"

definition ex_k1 :: kstate where
  "ex_k1 = ex_k0\<lparr>kc := [Fin 0], kg := [Fin 0, Fin 0], ka := Mat 1 2 [[Fin 1, Fin 0]]\<rparr>"

definition ex_ka :: kstate where
  "ex_ka = ex_k1\<lparr>majiter := 1, mode := 1, n1 := 2\<rparr>"

definition ex_kb :: kstate where
  "ex_kb = ex_ka\<lparr>majiter := 0, mode := - 1\<rparr>"

definition ex_kc :: kstate where
  "ex_kc = ex_kb\<lparr>mode := 0\<rparr>"

definition ex_tr1 :: "event list" where
  "ex_tr1 = [ConFunCall [Fin 0], PrepareCall [Fin 0], FunCall [Fin 0], GradCall [Fin 0],
             ConstraintCall [Fin 0], NormalsCall [Fin 0]]"

definition ex_rounds :: "event list" where
  "ex_rounds = [KernelCall ex_k1 ex_ka, FunCall [Fin 0], ConstraintCall [Fin 0],
                KernelCall ex_ka ex_kb, GradCall [Fin 0], NormalsCall [Fin 0],
                KernelCall ex_kb ex_kc]"

definition ex_s1 :: "unit dstate" where
  "ex_s1 = \<lparr>ks = ex_k1, fx = Fin 0, sf = (), majiter_prev = 0, trace = ex_tr1\<rparr>"

definition ex_s2 :: "unit dstate" where
  "ex_s2 = \<lparr>ks = ex_kc, fx = Fin 0, sf = (), majiter_prev = 0, trace = ex_tr1 @ ex_rounds\<rparr>"

definition ex_result :: result where
  "ex_result = \<lparr>res_x = [Fin 0], res_fun = Fin 0, res_jac = [Fin 0], nit = 0,
                  nfev = 1, njev = 1, status = 0,
                  message = ''Optimization terminated successfully'',
                  success = True, kkt = ([], [[Fin 0]])\<rparr>"

definition ex_sa :: "unit dstate" where
  "ex_sa = \<lparr>ks = ex_ka, fx = Fin 0, sf = (), majiter_prev = 0,
             trace = ex_tr1 @ [KernelCall ex_k1 ex_ka, FunCall [Fin 0], ConstraintCall [Fin 0]]\<rparr>"

definition ex_sb :: "unit dstate" where
  "ex_sb = \<lparr>ks = ex_kb, fx = Fin 0, sf = (), majiter_prev = 1,
             trace = ex_tr1 @ [KernelCall ex_k1 ex_ka, FunCall [Fin 0], ConstraintCall [Fin 0],
                               KernelCall ex_ka ex_kb, GradCall [Fin 0], NormalsCall [Fin 0]]\<rparr>"

text \<open>A kernel that reports a given mode at its first call, whatever it is given, and the
  last state of the loop when this mode is 9.\<close>

definition halting_kernel :: "int \<Rightarrow> int \<Rightarrow> int \<Rightarrow> npfloat \<Rightarrow> kstate \<Rightarrow> kstate" where
  "halting_kernel md m meq f k = k\<lparr>mode := md\<rparr>"

definition halt_k :: kstate where
  "halt_k = ex_k1\<lparr>mode := 9\<rparr>"

definition halt_s2 :: "unit dstate" where
  "halt_s2 = \<lparr>ks = halt_k, fx = Fin 0, sf = (), majiter_prev = 0,
               trace = ex_tr1 @ [KernelCall ex_k1 halt_k]\<rparr>"

text \<open>The same start without constraints.\<close>

definition unconstrained_args :: arguments where
  "unconstrained_args =
     \<lparr>x0 = [Fin (- 5)], bounds = Some [(Some (Fin 0), Some (Fin 10))],
      constraints = ConSeq [], maxiter = 3, ftol = Fin (1 / 1000000)\<rparr>"

definition un_problem :: problem where
  "un_problem = \<lparr>p_cons = \<lparr>cons_eq = [], cons_ineq = []\<rparr>, p_nb = ([Fin 0], [Fin 10]),
                   p_meq_cv = [], p_mieq_cv = [], p_meq = 0, p_mieq = 0, p_m = 0, p_la = 1,
                   p_n = 1\<rparr>"

definition un_s0 :: "unit dstate" where
  "un_s0 = \<lparr>ks = ex_k0\<lparr>kw := replicate 69 (Fin 0), kjw := replicate 4 (Fin 0)\<rparr>,
             fx = Fin 0, sf = (), majiter_prev = 0, trace = [PrepareCall [Fin 0]]\<rparr>"

text \<open>The same start without bounds, and with a constraint that lacks the key \<open>type\<close>.\<close>

definition unbounded_args :: arguments where
  "unbounded_args = example_args\<lparr>bounds := None\<rparr>"

definition untyped_args :: arguments where
  "untyped_args = example_args\<lparr>constraints := ConSeq [Dict (example_con\<lparr>d_type := None\<rparr>)]\<rparr>"

text \<open>One variable under two bound pairs, and the values of this run.\<close>

definition mismatch_args :: arguments where
  "mismatch_args =
     \<lparr>x0 = [Fin 5],
      bounds = Some [(Some (Fin 0), Some (Fin 1)), (Some (Fin 0), Some (Fin 1))],
      constraints = ConSeq [], maxiter = 1, ftol = Fin (1 / 1000000)\<rparr>"

definition mm_problem :: problem where
  "mm_problem = \<lparr>p_cons = \<lparr>cons_eq = [], cons_ineq = []\<rparr>,
                   p_nb = ([Fin 0, Fin 0], [Fin 1, Fin 1]),
                   p_meq_cv = [], p_mieq_cv = [], p_meq = 0, p_mieq = 0, p_m = 0, p_la = 1,
                   p_n = 2\<rparr>"

definition mm_k0 :: kstate where
  "mm_k0 = \<lparr>kx = [Fin 1, Fin 1], kxl = [Fin 0, Fin 0], kxu = [Fin 1, Fin 1], kc = [], kg = [],
             ka = Mat 0 0 [], kacc = Fin (1 / 1000000), majiter = 0, mode = 0,
             kw = replicate 129 (Fin 0), kjw = replicate 6 (Fin 0),
             rcells = replicate 10 (Fin 0), icells = replicate 5 0,
             n1 = 0, n2 = 0, n3 = 0\<rparr>"

definition mm_k1 :: kstate where
  "mm_k1 = mm_k0\<lparr>kc := [], kg := [Fin 0, Fin 0, Fin 0], ka := Mat 1 3 [[Fin 0, Fin 0, Fin 0]]\<rparr>"

definition mm_s0 :: "unit dstate" where
  "mm_s0 = \<lparr>ks = mm_k0, fx = Fin 0, sf = (), majiter_prev = 0,
             trace = [PrepareCall [Fin 1, Fin 1]]\<rparr>"

definition mm_tr1 :: "event list" where
  "mm_tr1 = [PrepareCall [Fin 1, Fin 1], FunCall [Fin 1, Fin 1], GradCall [Fin 1, Fin 1],
             ConstraintCall [Fin 1, Fin 1], NormalsCall [Fin 1, Fin 1]]"

definition mm_s1 :: "unit dstate" where
  "mm_s1 = \<lparr>ks = mm_k1, fx = Fin 0, sf = (), majiter_prev = 0, trace = mm_tr1\<rparr>"

definition mm_s2 :: "unit dstate" where
  "mm_s2 = \<lparr>ks = mm_k1, fx = Fin 0, sf = (), majiter_prev = 0,
             trace = mm_tr1 @ [KernelCall mm_k1 mm_k1]\<rparr>"

definition mm_result :: result where
  "mm_result = \<lparr>res_x = [Fin 1, Fin 1], res_fun = Fin 0, res_jac = [Fin 0, Fin 0], nit = 0,
                  nfev = 1, njev = 1, status = 0,
                  message = ''Optimization terminated successfully'',
                  success = True, kkt = ([], [])\<rparr>"

subsection \<open>Runs with a marked workspace\<close>

text \<open>
  A kernel that leaves \<open>n + 1\<close> in its cell \<open>n1\<close>, writes into every cell of the real
  workspace the index of that cell, and reports mode 2 when there are more equality
  residuals than variables and mode 0 otherwise.
\<close>

definition marking_kernel :: "int \<Rightarrow> int \<Rightarrow> npfloat \<Rightarrow> kstate \<Rightarrow> kstate" where
  "marking_kernel m meq f k =
     k\<lparr>mode := (if int (length (kx k)) < meq then 2 else 0),
       n1 := int (length (kx k)) + 1,
       kw := map (\<lambda>i. Fin (real i)) [0..<length (kw k)]\<rparr>"

definition marking_env :: "unit env" where
  "marking_env = example_env_with marking_kernel"

text \<open>
  One variable without bounds under one equality constraint with ten residuals, and the
  values of this run.
\<close>

definition over_con :: con_dict where
  "over_con =
     \<lparr>d_type = Some (TStr ''eq''), d_fun = Some (\<lambda>xv. Inr (replicate 10 (Fin 0))),
      d_jac = Some (\<lambda>xv. Inr (Mat 10 1 (replicate 10 [Fin 1])))\<rparr>"

definition over_args :: arguments where
  "over_args =
     \<lparr>x0 = [Fin 0], bounds = None, constraints = ConSeq [Dict over_con], maxiter = 3,
      ftol = Fin (1 / 1000000)\<rparr>"

definition over_cons :: cons where
  "over_cons = \<lparr>cons_eq = [\<lparr>c_fun = (\<lambda>xv. Inr (replicate 10 (Fin 0))),
                   c_jac = (\<lambda>xv. Inr (Mat 10 1 (replicate 10 [Fin 1])))\<rparr>], cons_ineq = []\<rparr>"

definition over_problem :: problem where
  "over_problem = \<lparr>p_cons = over_cons, p_nb = ([NegInf], [PosInf]), p_meq_cv = [10],
                     p_mieq_cv = [], p_meq = 10, p_mieq = 0, p_m = 10, p_la = 10, p_n = 1\<rparr>"

definition over_k0 :: kstate where
  "over_k0 = \<lparr>kx = [Fin 0], kxl = [NaN], kxu = [NaN], kc = [], kg = [],
               ka = Mat 0 0 [], kacc = Fin (1 / 1000000), majiter = 2, mode = 0,
               kw = replicate 19 (Fin 0), kjw = replicate 4 (Fin 0),
               rcells = replicate 10 (Fin 0), icells = replicate 5 0,
               n1 = 0, n2 = 0, n3 = 0\<rparr>"

definition over_s0 :: "unit dstate" where
  "over_s0 = \<lparr>ks = over_k0, fx = Fin 0, sf = (), majiter_prev = 0,
               trace = [ConFunCall [Fin 0], PrepareCall [Fin 0]]\<rparr>"

definition over_k1 :: kstate where
  "over_k1 = over_k0\<lparr>kc := replicate 10 (Fin 0), kg := [Fin 0, Fin 0],
                      ka := Mat 10 2 (replicate 10 [Fin 1, Fin 0])\<rparr>"

definition over_k2 :: kstate where
  "over_k2 = over_k1\<lparr>mode := 2, n1 := 2, kw := map (\<lambda>i. Fin (real i)) [0..<19]\<rparr>"

definition over_tr :: "event list" where
  "over_tr = [ConFunCall [Fin 0], PrepareCall [Fin 0], FunCall [Fin 0], GradCall [Fin 0],
              ConstraintCall [Fin 0], NormalsCall [Fin 0], KernelCall over_k1 over_k2]"

definition over_s1 :: "unit dstate" where
  "over_s1 = \<lparr>ks = over_k1, fx = Fin 0, sf = (), majiter_prev = 0, trace = butlast over_tr\<rparr>"

definition over_s2 :: "unit dstate" where
  "over_s2 = \<lparr>ks = over_k2, fx = Fin 0, sf = (), majiter_prev = 0, trace = over_tr\<rparr>"

definition over_result :: result where
  "over_result = \<lparr>res_x = [Fin 0], res_fun = Fin 0, res_jac = [Fin 0], nit = 2,
                    nfev = 1, njev = 1, status = 2,
                    message = ''More equality constraints than independent variables'',
                    success = False,
                    kkt = ([[Fin 13, Fin 14, Fin 15, Fin 16, Fin 17, Fin 18]], [])\<rparr>"

text \<open>
  One variable without bounds under an inequality constraint with two residuals and an
  equality constraint with one, given in this order, and the values of this run.
\<close>

definition mix_ineq :: con_dict where
  "mix_ineq =
     \<lparr>d_type = Some (TStr ''ineq''), d_fun = Some (\<lambda>xv. Inr [Fin 1, Fin 2]),
      d_jac = Some (\<lambda>xv. Inr (Mat 2 1 [[Fin 1], [Fin 1]]))\<rparr>"

definition mix_eq :: con_dict where
  "mix_eq =
     \<lparr>d_type = Some (TStr ''eq''), d_fun = Some (\<lambda>xv. Inr [Fin 3]),
      d_jac = Some (\<lambda>xv. Inr (Mat 1 1 [[Fin 1]]))\<rparr>"

definition mix_args :: arguments where
  "mix_args =
     \<lparr>x0 = [Fin 0], bounds = None, constraints = ConSeq [Dict mix_ineq, Dict mix_eq],
      maxiter = 3, ftol = Fin (1 / 1000000)\<rparr>"

definition mix_cons :: cons where
  "mix_cons = \<lparr>cons_eq = [\<lparr>c_fun = (\<lambda>xv. Inr [Fin 3]),
                  c_jac = (\<lambda>xv. Inr (Mat 1 1 [[Fin 1]]))\<rparr>],
                cons_ineq = [\<lparr>c_fun = (\<lambda>xv. Inr [Fin 1, Fin 2]),
                  c_jac = (\<lambda>xv. Inr (Mat 2 1 [[Fin 1], [Fin 1]]))\<rparr>]\<rparr>"

definition mix_problem :: problem where
  "mix_problem = \<lparr>p_cons = mix_cons, p_nb = ([NegInf], [PosInf]), p_meq_cv = [1],
                    p_mieq_cv = [2], p_meq = 1, p_mieq = 2, p_m = 3, p_la = 3, p_n = 1\<rparr>"

definition mix_k0 :: kstate where
  "mix_k0 = \<lparr>kx = [Fin 0], kxl = [NaN], kxu = [NaN], kc = [], kg = [],
              ka = Mat 0 0 [], kacc = Fin (1 / 1000000), majiter = 2, mode = 0,
              kw = replicate 84 (Fin 0), kjw = replicate 6 (Fin 0),
              rcells = replicate 10 (Fin 0), icells = replicate 5 0,
              n1 = 0, n2 = 0, n3 = 0\<rparr>"

definition mix_s0 :: "unit dstate" where
  "mix_s0 = \<lparr>ks = mix_k0, fx = Fin 0, sf = (), majiter_prev = 0,
              trace = [ConFunCall [Fin 0], ConFunCall [Fin 0], PrepareCall [Fin 0]]\<rparr>"

definition mix_k1 :: kstate where
  "mix_k1 = mix_k0\<lparr>kc := [Fin 3, Fin 1, Fin 2], kg := [Fin 0, Fin 0],
                    ka := Mat 3 2 [[Fin 1, Fin 0], [Fin 1, Fin 0], [Fin 1, Fin 0]]\<rparr>"

definition mix_k2 :: kstate where
  "mix_k2 = mix_k1\<lparr>mode := 0, n1 := 2, kw := map (\<lambda>i. Fin (real i)) [0..<84]\<rparr>"

definition mix_tr :: "event list" where
  "mix_tr = [ConFunCall [Fin 0], ConFunCall [Fin 0], PrepareCall [Fin 0], FunCall [Fin 0],
             GradCall [Fin 0], ConstraintCall [Fin 0], NormalsCall [Fin 0],
             KernelCall mix_k1 mix_k2]"

definition mix_s1 :: "unit dstate" where
  "mix_s1 = \<lparr>ks = mix_k1, fx = Fin 0, sf = (), majiter_prev = 0, trace = butlast mix_tr\<rparr>"

definition mix_s2 :: "unit dstate" where
  "mix_s2 = \<lparr>ks = mix_k2, fx = Fin 0, sf = (), majiter_prev = 0, trace = mix_tr\<rparr>"

definition mix_result :: result where
  "mix_result = \<lparr>res_x = [Fin 0], res_fun = Fin 0, res_jac = [Fin 0], nit = 2,
                   nfev = 1, njev = 1, status = 0,
                   message = ''Optimization terminated successfully'',
                   success = True, kkt = ([[Fin 6]], [[Fin 7, Fin 8]])\<rparr>"

subsection \<open>Runs with telling values\<close>

text \<open>
  A run whose values tell the evaluations apart. The objective adapter remembers the point
  it was prepared at and counts its calls; its function returns the first component of
  its argument, its gradient returns the argument, and the function raises at the point
  \<open>[7]\<close>. The constraint \<open>x \<ge> 0\<close> returns the point as its residual and as the row of its
  Jacobian. The start is \<open>x0 = -5\<close> under the bounds \<open>[(0, 10)]\<close>.
\<close>

type_synonym probe = "npfloat list \<times> nat \<times> nat"

definition probe_env_with :: "(int \<Rightarrow> int \<Rightarrow> npfloat \<Rightarrow> kstate \<Rightarrow> kstate) \<Rightarrow> probe env" where
  "probe_env_with kf =
     \<lparr>kernel = kf,
      approx_derivative = (\<lambda>f xv nb. Inr (Mat 1 (length xv) [map (\<lambda>v. Fin 0) xv])),
      prepare_scalar_function = (\<lambda>xv nb. Inr (xv, 0, 0)),
      sf_fun = (\<lambda>(pt, nf, ng) xv.
                  if xv = [Fin 7] then Inl (Raised (ByCaller ''objective''))
                  else Inr (hd xv, (pt, Suc nf, ng))),
      sf_grad = (\<lambda>(pt, nf, ng) xv. Inr (xv, (pt, nf, Suc ng))),
      sf_nfev = (\<lambda>(pt, nf, ng). int nf),
      sf_ngev = (\<lambda>(pt, nf, ng). int ng)\<rparr>"

text \<open>
  A kernel that moves the iterate to \<open>[3]\<close> and asks for the function values, then asks
  for the gradients, then reports convergence; and a kernel that moves the iterate to
  \<open>[7]\<close> and asks for the function values.
\<close>

definition stepping_kernel :: "int \<Rightarrow> int \<Rightarrow> npfloat \<Rightarrow> kstate \<Rightarrow> kstate" where
  "stepping_kernel m meq f k =
     (if majiter k = 2 then k\<lparr>kx := [Fin 3], majiter := 1, mode := 1, n1 := 2\<rparr>
      else if majiter k = 1 then k\<lparr>majiter := 0, mode := - 1\<rparr>
      else k\<lparr>mode := 0\<rparr>)"

definition straying_kernel :: "int \<Rightarrow> int \<Rightarrow> npfloat \<Rightarrow> kstate \<Rightarrow> kstate" where
  "straying_kernel m meq f k = k\<lparr>kx := [Fin 7], mode := 1\<rparr>"

definition probe_env :: "probe env" where
  "probe_env = probe_env_with stepping_kernel"

definition stray_env :: "probe env" where
  "stray_env = probe_env_with straying_kernel"

definition probe_con :: con_dict where
  "probe_con =
     \<lparr>d_type = Some (TStr ''ineq''), d_fun = Some (\<lambda>xv. Inr xv),
      d_jac = Some (\<lambda>xv. Inr (Mat 1 (length xv) [xv]))\<rparr>"

definition probe_args :: arguments where
  "probe_args =
     \<lparr>x0 = [Fin (- 5)], bounds = Some [(Some (Fin 0), Some (Fin 10))],
      constraints = ConSeq [Dict probe_con], maxiter = 3, ftol = Fin (1 / 1000000)\<rparr>"

text \<open>
  The values these runs go through: the problem, the cells before and after each kernel
  call, the states of the loop, the logs and the result.
\<close>

definition pb_cons :: cons where
  "pb_cons = \<lparr>cons_eq = [], cons_ineq = [\<lparr>c_fun = (\<lambda>xv. Inr xv),
                 c_jac = (\<lambda>xv. Inr (Mat 1 (length xv) [xv]))\<rparr>]\<rparr>"

definition pb_problem :: problem where
  "pb_problem = \<lparr>p_cons = pb_cons, p_nb = ([Fin 0], [Fin 10]), p_meq_cv = [], p_mieq_cv = [1],
                   p_meq = 0, p_mieq = 1, p_m = 1, p_la = 1, p_n = 1\<rparr>"

definition pb_s0 :: "probe dstate" where
  "pb_s0 = \<lparr>ks = ex_k0, fx = Fin 0, sf = ([Fin 0], 0, 0), majiter_prev = 0,
             trace = [ConFunCall [Fin 0], PrepareCall [Fin 0]]\<rparr>"

definition pb_k1 :: kstate where
  "pb_k1 = ex_k0\<lparr>kc := [Fin 0], kg := [Fin 0, Fin 0], ka := Mat 1 2 [[Fin 0, Fin 0]]\<rparr>"

definition pb_ka :: kstate where
  "pb_ka = pb_k1\<lparr>kx := [Fin 3], majiter := 1, mode := 1, n1 := 2\<rparr>"

definition pb_kb :: kstate where
  "pb_kb = pb_ka\<lparr>kc := [Fin 3], majiter := 0, mode := - 1\<rparr>"

definition pb_kc :: kstate where
  "pb_kc = pb_kb\<lparr>kg := [Fin 3, Fin 0], ka := Mat 1 2 [[Fin 3, Fin 0]], mode := 0\<rparr>"

definition pb_k7 :: kstate where
  "pb_k7 = pb_k1\<lparr>kx := [Fin 7], mode := 1\<rparr>"

definition pb_tr1 :: "event list" where
  "pb_tr1 = [ConFunCall [Fin 0], PrepareCall [Fin 0], FunCall [Fin 0], GradCall [Fin 0],
             ConstraintCall [Fin 0], NormalsCall [Fin 0]]"

definition pb_rounds :: "event list" where
  "pb_rounds = [KernelCall pb_k1 pb_ka, FunCall [Fin 3], ConstraintCall [Fin 3],
                KernelCall (pb_ka\<lparr>kc := [Fin 3]\<rparr>) pb_kb, GradCall [Fin 3], NormalsCall [Fin 3],
                KernelCall (pb_kb\<lparr>kg := [Fin 3, Fin 0], ka := Mat 1 2 [[Fin 3, Fin 0]]\<rparr>) pb_kc]"

definition pb_s1 :: "probe dstate" where
  "pb_s1 = \<lparr>ks = pb_k1, fx = Fin 0, sf = ([Fin 0], 1, 1), majiter_prev = 0, trace = pb_tr1\<rparr>"

definition pb_sa :: "probe dstate" where
  "pb_sa = \<lparr>ks = pb_ka\<lparr>kc := [Fin 3]\<rparr>, fx = Fin 3, sf = ([Fin 0], 2, 1), majiter_prev = 0,
             trace = pb_tr1 @ take 3 pb_rounds\<rparr>"

definition pb_sb :: "probe dstate" where
  "pb_sb = \<lparr>ks = pb_kb\<lparr>kg := [Fin 3, Fin 0], ka := Mat 1 2 [[Fin 3, Fin 0]]\<rparr>, fx = Fin 3,
             sf = ([Fin 0], 2, 2), majiter_prev = 1, trace = pb_tr1 @ take 6 pb_rounds\<rparr>"

definition pb_s2 :: "probe dstate" where
  "pb_s2 = \<lparr>ks = pb_kc, fx = Fin 3, sf = ([Fin 0], 2, 2), majiter_prev = 0,
             trace = pb_tr1 @ pb_rounds\<rparr>"

definition pb_result :: result where
  "pb_result = \<lparr>res_x = [Fin 3], res_fun = Fin 3, res_jac = [Fin 3], nit = 0,
                  nfev = 2, njev = 2, status = 0,
                  message = ''Optimization terminated successfully'',
                  success = True, kkt = ([], [[Fin 0]])\<rparr>"

definition pb_tr7 :: "event list" where
  "pb_tr7 = pb_tr1 @ [KernelCall pb_k1 pb_k7, FunCall [Fin 7]]"

text \<open>
  A lower bound above the upper bound, and a start that is not a number: the arguments
  of two runs, and the state the set-up leaves in the second.
\<close>

definition inverted_args :: arguments where
  "inverted_args =
     \<lparr>x0 = [Fin 0], bounds = Some [(Some (Fin 1), Some (Fin (1 / 2)))],
      constraints = ConSeq [Dict probe_con], maxiter = 3, ftol = Fin (1 / 1000000)\<rparr>"

definition nan_args :: arguments where
  "nan_args =
     \<lparr>x0 = [NaN], bounds = Some [(Some (Fin 0), Some (Fin 10))],
      constraints = ConSeq [Dict probe_con], maxiter = 3, ftol = Fin (1 / 1000000)\<rparr>"

definition nan_s0 :: "probe dstate" where
  "nan_s0 = \<lparr>ks = ex_k0\<lparr>kx := [NaN]\<rparr>, fx = Fin 0, sf = ([NaN], 0, 0), majiter_prev = 0,
              trace = [ConFunCall [NaN], PrepareCall [NaN]]\<rparr>"

section \<open>Properties\<close>

subsection \<open>Workspace sizes\<close>

lemma tri_step: "((n + 2) * (n + 1)) div 2 = ((n + 1) * n) div 2 + (n + 1)" for n :: int
proof -
  have "(n + 2) * (n + 1) = (n + 1) * n + (n + 1) * 2" by (simp add: algebra_simps)
  then show ?thesis by simp
qed

lemma len_w_step_n: "len_w (n + 1) m meq = len_w n m meq + (17 * n + 3 * m - 7 * meq + 43)"
  using tri_step[of n]
  by (simp add: len_w_def Let_def algebra_simps)

lemma len_w_step_m: "len_w n (m + 1) meq = len_w n m meq + (3 * n - 2 * meq + 9)"
  by (simp add: len_w_def Let_def algebra_simps)

lemma len_w_mono_n:
  assumes "7 * meq \<le> 17 * n + 3 * m + 43" "n \<le> n'"
  shows "len_w n m meq \<le> len_w n' m meq"
  using assms(2,1)
proof (induction n' rule: int_ge_induct)
  case base
  show ?case by simp
next
  case (step i)
  have "len_w (i + 1) m meq = len_w i m meq + (17 * i + 3 * m - 7 * meq + 43)"
    by (rule len_w_step_n)
  moreover have "0 \<le> 17 * i + 3 * m - 7 * meq + 43" using step.hyps step.prems by linarith
  ultimately show ?case using step.IH step.prems by linarith
qed

lemma len_w_mono_m:
  assumes "2 * meq \<le> 3 * n + 9" "m \<le> m'"
  shows "len_w n m meq \<le> len_w n m' meq"
  using assms(2,1)
proof (induction m' rule: int_ge_induct)
  case base
  show ?case by simp
next
  case (step i)
  have "len_w n (i + 1) meq = len_w n i meq + (3 * n - 2 * meq + 9)"
    by (rule len_w_step_m)
  then show ?case using step.IH step.prems by linarith
qed

text \<open>
  Claim C4, as the code has it. \<open>len_jw\<close> never decreases when \<open>n\<close> or \<open>m\<close> grows.
  \<open>len_w\<close> is non-decreasing in \<open>n\<close> from \<open>n\<close> upwards exactly when
  \<open>7 * meq \<le> 17 * n + 3 * m + 43\<close>, and non-decreasing in \<open>m\<close> from \<open>m\<close> upwards exactly
  when \<open>2 * meq \<le> 3 * n + 9\<close>; both conditions hold when there are no more equality
  residuals than variables (\<open>meq \<le> n\<close>).
\<close>

theorem workspace_sizes_monotone:
  fixes n m meq :: int
  assumes "0 \<le> n" "0 \<le> meq" "meq \<le> m"
  shows "(\<forall>i j. n \<le> i \<and> i \<le> j \<longrightarrow> len_jw i m meq \<le> len_jw j m meq) \<and>
         (\<forall>i j. m \<le> i \<and> i \<le> j \<longrightarrow> len_jw n i meq \<le> len_jw n j meq) \<and>
         ((\<forall>i j. n \<le> i \<and> i \<le> j \<longrightarrow> len_w i m meq \<le> len_w j m meq)
            \<longleftrightarrow> 7 * meq \<le> 17 * n + 3 * m + 43) \<and>
         ((\<forall>i j. m \<le> i \<and> i \<le> j \<longrightarrow> len_w n i meq \<le> len_w n j meq)
            \<longleftrightarrow> 2 * meq \<le> 3 * n + 9) \<and>
         (meq \<le> n \<longrightarrow> 7 * meq \<le> 17 * n + 3 * m + 43 \<and> 2 * meq \<le> 3 * n + 9)"
proof (intro conjI)
  show "\<forall>i j. n \<le> i \<and> i \<le> j \<longrightarrow> len_jw i m meq \<le> len_jw j m meq"
    by (simp add: len_jw_def Let_def)
  show "\<forall>i j. m \<le> i \<and> i \<le> j \<longrightarrow> len_jw n i meq \<le> len_jw n j meq"
    by (simp add: len_jw_def Let_def)
  show "(\<forall>i j. n \<le> i \<and> i \<le> j \<longrightarrow> len_w i m meq \<le> len_w j m meq)
          \<longleftrightarrow> 7 * meq \<le> 17 * n + 3 * m + 43"
  proof
    assume "\<forall>i j. n \<le> i \<and> i \<le> j \<longrightarrow> len_w i m meq \<le> len_w j m meq"
    then have "len_w n m meq \<le> len_w (n + 1) m meq" by simp
    then show "7 * meq \<le> 17 * n + 3 * m + 43" using len_w_step_n[of n m meq] by linarith
  next
    assume c: "7 * meq \<le> 17 * n + 3 * m + 43"
    show "\<forall>i j. n \<le> i \<and> i \<le> j \<longrightarrow> len_w i m meq \<le> len_w j m meq"
    proof (intro allI impI)
      fix i j assume ij: "n \<le> i \<and> i \<le> j"
      then have "7 * meq \<le> 17 * i + 3 * m + 43" using c by linarith
      then show "len_w i m meq \<le> len_w j m meq" using ij by (simp add: len_w_mono_n)
    qed
  qed
  show "(\<forall>i j. m \<le> i \<and> i \<le> j \<longrightarrow> len_w n i meq \<le> len_w n j meq)
          \<longleftrightarrow> 2 * meq \<le> 3 * n + 9"
  proof
    assume "\<forall>i j. m \<le> i \<and> i \<le> j \<longrightarrow> len_w n i meq \<le> len_w n j meq"
    then have "len_w n m meq \<le> len_w n (m + 1) meq" by simp
    then show "2 * meq \<le> 3 * n + 9" using len_w_step_m[of n m meq] by linarith
  next
    assume c: "2 * meq \<le> 3 * n + 9"
    show "\<forall>i j. m \<le> i \<and> i \<le> j \<longrightarrow> len_w n i meq \<le> len_w n j meq"
      using c by (simp add: len_w_mono_m)
  qed
  show "meq \<le> n \<longrightarrow> 7 * meq \<le> 17 * n + 3 * m + 43 \<and> 2 * meq \<le> 3 * n + 9"
    using assms by linarith
qed

text \<open>The theorem of C4 at \<open>n = 2\<close>, \<open>m = 3\<close>, \<open>meq = 1\<close>.\<close>

theorem workspace_sizes_monotone_witness:
  "len_jw 2 3 1 \<le> len_jw 5 3 1 \<and> len_jw 2 3 1 \<le> len_jw 2 7 1 \<and>
   len_w 2 3 1 \<le> len_w 5 3 1 \<and> len_w 2 3 1 \<le> len_w 2 7 1"
proof -
  have h: "(0::int) \<le> 2" "(0::int) \<le> 1" "(1::int) \<le> 3" by simp_all
  note t = workspace_sizes_monotone[OF h]
  have c1: "7 * (1::int) \<le> 17 * 2 + 3 * 3 + 43" and c2: "2 * (1::int) \<le> 3 * 2 + 9" by simp_all
  from t have "len_jw 2 3 1 \<le> len_jw 5 3 1" by simp
  moreover from t have "len_jw 2 3 1 \<le> len_jw 2 7 1" by simp
  moreover from t c1 have "len_w 2 3 1 \<le> len_w 5 3 1" by simp
  moreover from t c2 have "len_w 2 3 1 \<le> len_w 2 7 1" by simp
  ultimately show ?thesis by simp
qed

text \<open>
  Claim C4 as the spec states it fails: with more equality residuals than variables,
  \<open>len_w\<close> shrinks when \<open>m\<close> grows from 8 to 9 (\<open>n = 2\<close>, \<open>meq = 8\<close>: 57 and then
  56), and when \<open>n\<close> grows from 0 to 1 (\<open>m = meq = 100\<close>).
\<close>

theorem workspace_sizes_not_monotone:
  "(0::int) \<le> 2 \<and> (0::int) \<le> 8 \<and> (8::int) \<le> 8 \<and> (8::int) \<le> 9 \<and> len_w 2 9 8 < len_w 2 8 8 \<and>
   (0::int) \<le> 0 \<and> (0::int) \<le> 100 \<and> (100::int) \<le> 100 \<and> (0::int) \<le> 1 \<and> len_w 1 100 100 < len_w 0 100 100"
  by (simp add: len_w_def Let_def)

subsection \<open>KKT multipliers\<close>

lemma py_slice_nat: "py_slice xs (int i) (int i + int d) = take d (drop i xs)"
proof (cases "i \<le> length xs")
  case True
  then have "take (min (i + d) (length xs) - i) (drop i xs) = take d (drop i xs)"
    by (cases "i + d \<le> length xs") (simp_all add: min_def)
  then show ?thesis using True
    by (simp add: py_slice_def slice_bound_def Let_def min_def nat_add_distrib)
next
  case False
  then show ?thesis
    by (simp add: py_slice_def slice_bound_def Let_def min_def)
qed

lemma foldl_kkt_take:
  "foldl (kkt_take mult) (acc, int i) ds = (acc @ spans_of (drop i mult) ds, int (i + sum_list ds))"
proof (induction ds arbitrary: acc i)
  case Nil
  show ?case by simp
next
  case (Cons d ds)
  have "kkt_take mult (acc, int i) d = (acc @ [take d (drop i mult)], int (i + d))"
    by (simp add: kkt_take_def py_slice_nat)
  then show ?case using Cons.IH[of "acc @ [take d (drop i mult)]" "i + d"]
    by (simp add: add.commute add.left_commute)
qed

lemma kkt_split_spans:
  "kkt_split mult meq_cv mieq_cv =
     (spans_of mult meq_cv, spans_of (drop (sum_list meq_cv) mult) mieq_cv)"
  using foldl_kkt_take[of mult "[]" 0 meq_cv] foldl_kkt_take[of mult "[]" "sum_list meq_cv" mieq_cv]
  by (simp add: kkt_split_def Let_def)

lemma concat_spans_of: "concat (spans_of xs ds) = take (sum_list ds) xs"
  by (induction ds arbitrary: xs) (simp_all add: take_add)

lemma length_spans_of [simp]: "length (spans_of xs ds) = length ds"
  by (induction ds arbitrary: xs) simp_all

lemma map_length_spans_of: "sum_list ds \<le> length xs \<Longrightarrow> map length (spans_of xs ds) = ds"
  by (induction ds arbitrary: xs) simp_all

lemma nth_spans_of:
  "i < length ds \<Longrightarrow> spans_of xs ds ! i = take (ds ! i) (drop (sum_list (take i ds)) xs)"
proof (induction ds arbitrary: xs i)
  case Nil
  then show ?case by simp
next
  case (Cons d ds)
  show ?case
  proof (cases i)
    case 0
    then show ?thesis by simp
  next
    case (Suc j)
    then have "j < length ds" using Cons.prems by simp
    from Cons.IH[OF this, of "drop d xs"] Suc show ?thesis by (simp add: add.commute)
  qed
qed

text \<open>
  The slice has length \<open>m\<close> when the kernel has left \<open>n + 1\<close> in its cell \<open>n1\<close>, the
  workspace has the length line 141 computes, and there is at most one more equality
  residual than variables.
\<close>

lemma kkt_slice_in_range:
  assumes "0 \<le> n" "0 \<le> meq" "meq \<le> m" "meq \<le> n + 1"
    and "length wv = nat (len_w n m meq)"
  shows "length (py_slice wv (kkt_offset (max 1 m) (n + 1) n) (kkt_offset (max 1 m) (n + 1) n + m))
           = nat m"
proof -
  define T where "T = ((n + 1) * n) div 2"
  define P1 where "P1 = (3 * (n + 1) + m) * (n + 1 + 1)"
  define P2 where "P2 = (n + 1 - meq + 1) * (m - meq + (n + 1) + (n + 1) + 2)"
  define P3 where "P3 = (n + 1 + (m - meq + (n + 1) + (n + 1))) * (n + 1 - meq)"
  have T0: "0 \<le> T" using assms(1) by (simp add: T_def)
  have ir: "kkt_offset (max 1 m) (n + 1) n = max 1 m + T + n + 1"
    by (simp add: kkt_offset_def Let_def T_def)
  have p1: "0 \<le> P1" unfolding P1_def using assms(1-4) by (intro mult_nonneg_nonneg) simp_all
  have p2: "0 \<le> P2" unfolding P2_def using assms(1-4) by (intro mult_nonneg_nonneg) simp_all
  have p3: "0 \<le> P3" unfolding P3_def using assms(1-4) by (intro mult_nonneg_nonneg) simp_all
  have lw: "len_w n m meq = P1 + P2 + 2 * (m - meq + (n + 1) + (n + 1)) + P3
        + 2 * meq + (n + 1) + T + 2 * m + 3 * n + 3 * (n + 1) + 1"
    unfolding P1_def P2_def P3_def T_def by (simp add: len_w_def Let_def)
  have m0: "0 \<le> m" using assms by linarith
  have mx: "max 1 m \<le> m + 1" using m0 by simp
  have bound: "max 1 m + T + n + 1 + m \<le> len_w n m meq"
    unfolding lw using p1 p2 p3 mx assms(1-4) by (simp add: algebra_simps)
  have pos: "0 \<le> max 1 m + T + n + 1" using T0 assms by linarith
  define ir' where "ir' = max 1 m + T + n + 1"
  have lw0: "0 \<le> len_w n m meq" using pos bound m0 by arith
  have a: "0 \<le> ir'" "ir' + m \<le> int (length wv)"
    using pos bound assms(5) lw0 by (simp_all add: ir'_def)
  have "py_slice wv ir' (ir' + m) = take (nat m) (drop (nat ir') wv)"
    using py_slice_nat[of wv "nat ir'" "nat m"] a m0 by simp
  then show ?thesis unfolding ir ir'_def[symmetric] using a m0 by simp linarith?
qed


subsection \<open>Clipping\<close>

lemma npy_clip_idem: "npy_clip (npy_clip v lo hi) lo hi = npy_clip v lo hi"
  by (cases v; cases lo; cases hi)
     (simp_all add: npy_clip_def npy_max_def npy_min_def fl_isnan_def)

lemma npy_clip_in_box:
  assumes "fl_le lo hi" "v \<noteq> NaN"
  shows "fl_le lo (npy_clip v lo hi) \<and> fl_le (npy_clip v lo hi) hi"
  using assms
  by (cases v; cases lo; cases hi)
     (simp_all add: npy_clip_def npy_max_def npy_min_def fl_isnan_def fl_le_def)

lemma length_broadcast_to: "length xs = k \<or> length xs = 1 \<Longrightarrow> length (broadcast_to k xs) = k"
  by (auto simp: broadcast_to_def)

lemma broadcast_len_cases:
  "broadcast_len p q = Some k \<Longrightarrow> (p = k \<or> p = 1) \<and> (q = k \<or> q = 1)"
  by (auto simp: broadcast_len_def split: if_splits)

lemma np_clip_length:
  assumes "np_clip xs nb = Inr ys"
  shows "\<exists>kb. broadcast_len (length (fst nb)) (length (snd nb)) = Some kb \<and>
              broadcast_len (length xs) kb = Some (length ys)"
  using assms
  by (auto simp: np_clip_def length_broadcast_to split: option.splits
           dest!: broadcast_len_cases)

lemma np_clip_idem:
  assumes "np_clip xs nb = Inr ys"
  shows "np_clip ys nb = Inr ys"
proof -
  obtain kb k where kb: "broadcast_len (length (fst nb)) (length (snd nb)) = Some kb"
    and k: "broadcast_len (length xs) kb = Some k"
    and ys: "ys = map (\<lambda>(v, lo, hi). npy_clip v lo hi)
                    (zip (broadcast_to k xs)
                       (zip (broadcast_to k (fst nb)) (broadcast_to k (snd nb))))"
    using assms by (auto simp: np_clip_def split: option.splits)
  have lx: "length (broadcast_to k xs) = k"
    using broadcast_len_cases[OF k] by (simp add: length_broadcast_to)
  have "(length (fst nb) = kb \<or> length (fst nb) = 1) \<and> (length (snd nb) = kb \<or> length (snd nb) = 1)"
    using broadcast_len_cases[OF kb] .
  moreover have "kb = k \<or> kb = 1" using broadcast_len_cases[OF k] by simp
  ultimately have ll: "length (broadcast_to k (fst nb)) = k" and lu: "length (broadcast_to k (snd nb)) = k"
    by (auto simp: broadcast_to_def)
  have ly: "length ys = k" using lx ll lu by (simp add: ys)
  have k': "broadcast_len (length ys) kb = Some k"
    using k ly by (auto simp: broadcast_len_def split: if_splits)
  have by': "broadcast_to k ys = ys" using ly by (simp add: broadcast_to_def)
  have "map (\<lambda>(v, lo, hi). npy_clip v lo hi)
          (zip ys (zip (broadcast_to k (fst nb)) (broadcast_to k (snd nb)))) = ys"
    using lx ll lu ly
    by (intro nth_equalityI) (simp_all add: ys npy_clip_idem)
  then show ?thesis
    by (simp add: np_clip_def kb k' by')
qed

lemma np_clip_same_length:
  assumes "length lb = length xs" "length ub = length xs"
  shows "np_clip xs (lb, ub) = Inr (map (\<lambda>(v, lo, hi). npy_clip v lo hi) (zip xs (zip lb ub)))"
  using assms by (simp add: np_clip_def broadcast_len_def broadcast_to_def)

subsection \<open>The phases of the driver\<close>

lemma residual_dims_Inr:
  "residual_dims xv cs tr = Inr (ds, tr') \<Longrightarrow>
     tr' = tr @ replicate (length cs) (ConFunCall xv) \<and> length ds = length cs"
proof (induction cs arbitrary: tr ds tr')
  case Nil
  then show ?case by simp
next
  case (Cons con cs)
  from Cons.prems obtain r ds0 where r: "c_fun con xv = Inr r"
    and rec: "residual_dims xv cs (tr @ [ConFunCall xv]) = Inr (ds0, tr')"
    and ds: "ds = length r # ds0"
    by (auto simp: bind_err_def split: sum.splits prod.splits)
  from Cons.IH[OF rec] show ?case using ds by simp
qed

lemma residual_dims_Inl:
  "residual_dims xv cs tr = Inl (e, tr') \<Longrightarrow>
     \<exists>k. tr' = tr @ replicate k (ConFunCall xv)"
proof (induction cs arbitrary: tr)
  case Nil
  then show ?case by simp
next
  case (Cons con cs)
  show ?case
  proof (cases "c_fun con xv")
    case (Inl e')
    with Cons.prems have "tr' = tr @ replicate 1 (ConFunCall xv)" by simp
    then show ?thesis by blast
  next
    case (Inr r)
    with Cons.prems have "residual_dims xv cs (tr @ [ConFunCall xv]) = Inl (e, tr')"
      by (auto simp: bind_err_def split: sum.splits prod.splits)
    from Cons.IH[OF this] obtain k where "tr' = (tr @ [ConFunCall xv]) @ replicate k (ConFunCall xv)"
      by blast
    then have "tr' = tr @ replicate (Suc k) (ConFunCall xv)" by simp
    then show ?thesis by blast
  qed
qed

lemma initialise_Inr:
  assumes "initialise env ar = Inr (p, s0)"
  shows "\<exists>cs meq_cv mieq_cv wv jwv xlv xuv sf0.
           np_clip (x0 ar) (make_new_bounds (bounds ar)) = Inr (kx (ks s0)) \<and>
           triage env (make_new_bounds (bounds ar)) \<lparr>cons_eq = [], cons_ineq = []\<rparr> 0
              (as_sequence (constraints ar)) = Inr cs \<and>
           length meq_cv = length (cons_eq cs) \<and> length mieq_cv = length (cons_ineq cs) \<and>
           np_zeros (len_w (int (length (kx (ks s0))))
                       (int (sum_list meq_cv) + int (sum_list mieq_cv)) (int (sum_list meq_cv)))
              = Inr wv \<and>
           decompose_bounds (bounds ar) (length (kx (ks s0))) = Inr (xlv, xuv) \<and>
           to_int64 (maxiter ar - 1) = Inr (maxiter ar - 1) \<and>
           p = \<lparr>p_cons = cs, p_nb = make_new_bounds (bounds ar), p_meq_cv = meq_cv,
                 p_mieq_cv = mieq_cv, p_meq = int (sum_list meq_cv),
                 p_mieq = int (sum_list mieq_cv),
                 p_m = int (sum_list meq_cv) + int (sum_list mieq_cv),
                 p_la = max 1 (int (sum_list meq_cv) + int (sum_list mieq_cv)),
                 p_n = int (length (kx (ks s0)))\<rparr> \<and>
           s0 = \<lparr>ks = \<lparr>kx = kx (ks s0), kxl = xlv, kxu = xuv, kc = [], kg = [],
                         ka = Mat 0 0 [], kacc = ftol ar, majiter = maxiter ar - 1, mode = 0,
                         kw = wv, kjw = jwv,
                         rcells = replicate 10 (Fin 0), icells = replicate 5 0,
                         n1 = 0, n2 = 0, n3 = 0\<rparr>,
                  fx = Fin 0, sf = sf0, majiter_prev = 0,
                  trace = replicate (length (cons_eq cs) + length (cons_ineq cs))
                            (ConFunCall (kx (ks s0))) @ [PrepareCall (kx (ks s0))]\<rparr>"
proof -
  define nb where "nb = make_new_bounds (bounds ar)"
  from assms obtain xv where xv: "np_clip (x0 ar) nb = Inr xv"
    by (auto simp: initialise_def Let_def nb_def split: sum.splits)
  from assms xv obtain cs where cs: "triage env nb \<lparr>cons_eq = [], cons_ineq = []\<rparr> 0
              (as_sequence (constraints ar)) = Inr cs"
    by (auto simp: initialise_def Let_def nb_def split: sum.splits)
  from assms xv cs obtain meq_cv tr1 where r1: "residual_dims xv (cons_eq cs) [] = Inr (meq_cv, tr1)"
    by (cases "residual_dims xv (cons_eq cs) []")
       (auto simp: initialise_def Let_def nb_def bind_err_def)
  from assms xv cs r1 obtain mieq_cv tr2 where
    r2: "residual_dims xv (cons_ineq cs) tr1 = Inr (mieq_cv, tr2)"
    by (cases "residual_dims xv (cons_ineq cs) tr1")
       (auto simp: initialise_def Let_def nb_def bind_err_def)
  note t1 = residual_dims_Inr[OF r1] and t2 = residual_dims_Inr[OF r2]
  have tr2: "tr2 = replicate (length (cons_eq cs) + length (cons_ineq cs)) (ConFunCall xv)"
    using t1 t2 by (simp add: replicate_add)
  from assms xv cs r1 r2 show ?thesis
    unfolding initialise_def Let_def nb_def[symmetric]
    by (auto simp: bind_err_def tr2 t1 t2 to_int64_def split: sum.splits prod.splits if_splits)
qed

lemma initialise_Inl:
  assumes "initialise env ar = Inl (e, tr)"
  shows "tr = [] \<or>
         (\<exists>xv k. np_clip (x0 ar) (make_new_bounds (bounds ar)) = Inr xv \<and>
            (tr = replicate k (ConFunCall xv) \<or>
             tr = replicate k (ConFunCall xv) @ [PrepareCall xv]))"
proof -
  define nb where "nb = make_new_bounds (bounds ar)"
  show ?thesis
  proof (cases "np_clip (x0 ar) nb")
    case (Inl e')
    with assms show ?thesis by (simp add: initialise_def Let_def nb_def)
  next
    case xv: (Inr xv)
    show ?thesis
    proof (cases "triage env nb \<lparr>cons_eq = [], cons_ineq = []\<rparr> 0 (as_sequence (constraints ar))")
      case (Inl e')
      with assms xv show ?thesis by (simp add: initialise_def Let_def nb_def)
    next
      case cs: (Inr cs)
      show ?thesis
      proof (cases "residual_dims xv (cons_eq cs) []")
        case (Inl et)
        with assms xv cs have "residual_dims xv (cons_eq cs) [] = Inl (e, tr)"
          by (simp add: initialise_def Let_def nb_def bind_err_def)
        from residual_dims_Inl[OF this] xv show ?thesis by (auto simp: nb_def)
      next
        case (Inr dt)
        obtain meq_cv tr1 where r1: "residual_dims xv (cons_eq cs) [] = Inr (meq_cv, tr1)"
          using Inr by (cases dt) simp
        note t1 = residual_dims_Inr[OF r1]
        show ?thesis
        proof (cases "residual_dims xv (cons_ineq cs) tr1")
          case (Inl et)
          with assms xv cs r1 have "residual_dims xv (cons_ineq cs) tr1 = Inl (e, tr)"
            by (simp add: initialise_def Let_def nb_def bind_err_def)
          from residual_dims_Inl[OF this] obtain k where
            "tr = replicate (length (cons_eq cs) + k) (ConFunCall xv)"
            using t1 by (auto simp: replicate_add)
          with xv show ?thesis by (auto simp: nb_def)
        next
          case (Inr dt2)
          obtain mieq_cv tr2 where
            r2: "residual_dims xv (cons_ineq cs) tr1 = Inr (mieq_cv, tr2)"
            using Inr by (cases dt2) simp
          note t2 = residual_dims_Inr[OF r2]
          have tr2: "tr2 = replicate (length (cons_eq cs) + length (cons_ineq cs)) (ConFunCall xv)"
            using t1 t2 by (simp add: replicate_add)
          from assms xv cs r1 r2 have "tr = tr2 \<or> tr = tr2 @ [PrepareCall xv]"
            unfolding initialise_def Let_def nb_def[symmetric]
            by (auto simp: bind_err_def split: sum.splits prod.splits)
          with xv tr2 show ?thesis by (auto simp: nb_def)
        qed
      qed
    qed
  qed
qed

lemma wrapped_fun_Inr:
  "wrapped_fun env p s = Inr s' \<Longrightarrow>
     \<exists>y v u. check_clip_x (kx (ks s)) (p_nb p) = Inr y \<and>
       s' = s\<lparr>fx := v, sf := u, trace := trace s @ [FunCall y]\<rparr>"
  by (auto simp: wrapped_fun_def split: sum.splits prod.splits)

lemma wrapped_fun_Inl:
  "wrapped_fun env p s = Inl (e, tr) \<Longrightarrow> \<exists>es. tr = trace s @ es \<and> \<not> list_ex is_kernel_call es"
  by (auto simp: wrapped_fun_def split: sum.splits prod.splits)

lemma wrapped_grad_Inr:
  "wrapped_grad env p s = Inr s' \<Longrightarrow>
     \<exists>y gv u. check_clip_x (kx (ks s)) (p_nb p) = Inr y \<and>
       s' = s\<lparr>ks := (ks s)\<lparr>kg := gv @ [Fin 0]\<rparr>, sf := u, trace := trace s @ [GradCall y]\<rparr>"
  by (auto simp: wrapped_grad_def split: sum.splits prod.splits)

lemma wrapped_grad_Inl:
  "wrapped_grad env p s = Inl (e, tr) \<Longrightarrow> \<exists>es. tr = trace s @ es \<and> \<not> list_ex is_kernel_call es"
  by (auto simp: wrapped_grad_def split: sum.splits prod.splits)

text \<open>
  The wrappers of lines 181-182 return what \<open>clip_x_for_func\<close> returns on the adapter's
  functions.
\<close>

lemma wrapped_fun_value:
  "wrapped_fun env p s = Inr s' \<Longrightarrow>
     clip_x_for_func (sf_fun env (sf s)) (p_nb p) (kx (ks s)) = Inr (fx s', sf s')"
  by (auto simp: wrapped_fun_def clip_x_for_func_def bind_err_def split: sum.splits prod.splits)

lemma wrapped_grad_value:
  "wrapped_grad env p s = Inr s' \<Longrightarrow>
     \<exists>gv. clip_x_for_func (sf_grad env (sf s)) (p_nb p) (kx (ks s)) = Inr (gv, sf s') \<and>
          kg (ks s') = gv @ [Fin 0]"
  by (auto simp: wrapped_grad_def clip_x_for_func_def bind_err_def split: sum.splits prod.splits)

lemma call_eval_constraint_Inr:
  "call_eval_constraint p s = Inr s' \<Longrightarrow>
     \<exists>cv. s' = s\<lparr>ks := (ks s)\<lparr>kc := cv\<rparr>, trace := trace s @ [ConstraintCall (kx (ks s))]\<rparr>"
  by (auto simp: call_eval_constraint_def split: sum.splits)

lemma call_eval_constraint_Inl:
  "call_eval_constraint p s = Inl (e, tr) \<Longrightarrow>
     \<exists>es. tr = trace s @ es \<and> \<not> list_ex is_kernel_call es"
  by (auto simp: call_eval_constraint_def split: sum.splits)

lemma call_eval_con_normals_Inr:
  "call_eval_con_normals p s = Inr s' \<Longrightarrow>
     \<exists>av. s' = s\<lparr>ks := (ks s)\<lparr>ka := av\<rparr>, trace := trace s @ [NormalsCall (kx (ks s))]\<rparr>"
  by (auto simp: call_eval_con_normals_def split: sum.splits)

lemma call_eval_con_normals_Inl:
  "call_eval_con_normals p s = Inl (e, tr) \<Longrightarrow>
     \<exists>es. tr = trace s @ es \<and> \<not> list_ex is_kernel_call es"
  by (auto simp: call_eval_con_normals_def split: sum.splits)

text \<open>The four evaluations of lines 217-220, in their order, at the iterate.\<close>

lemma prime_Inr:
  assumes "prime env p s = Inr s'"
  shows "\<exists>y. check_clip_x (kx (ks s)) (p_nb p) = Inr y \<and>
           trace s' = trace s @ [FunCall y, GradCall y, ConstraintCall (kx (ks s)),
                                  NormalsCall (kx (ks s))] \<and>
           kx (ks s') = kx (ks s) \<and> majiter (ks s') = majiter (ks s) \<and>
           mode (ks s') = mode (ks s) \<and> kw (ks s') = kw (ks s) \<and> n1 (ks s') = n1 (ks s)"
proof -
  from assms obtain s1 where a1: "wrapped_fun env p s = Inr s1"
    by (cases "wrapped_fun env p s") (auto simp: prime_def bind_err_def)
  with assms obtain s2 where a2: "wrapped_grad env p s1 = Inr s2"
    by (cases "wrapped_grad env p s1") (auto simp: prime_def bind_err_def)
  with assms a1 obtain s3 where a3: "call_eval_constraint p s2 = Inr s3"
    by (cases "call_eval_constraint p s2") (auto simp: prime_def bind_err_def)
  with assms a1 a2 have a4: "call_eval_con_normals p s3 = Inr s'"
    by (simp add: prime_def bind_err_def)
  from wrapped_fun_Inr[OF a1] obtain y v u where y: "check_clip_x (kx (ks s)) (p_nb p) = Inr y"
    and s1: "s1 = s\<lparr>fx := v, sf := u, trace := trace s @ [FunCall y]\<rparr>" by blast
  from wrapped_grad_Inr[OF a2] obtain y' gv u' where y': "check_clip_x (kx (ks s1)) (p_nb p) = Inr y'"
    and s2: "s2 = s1\<lparr>ks := (ks s1)\<lparr>kg := gv @ [Fin 0]\<rparr>, sf := u',
                     trace := trace s1 @ [GradCall y']\<rparr>" by blast
  from call_eval_constraint_Inr[OF a3] obtain cv where
    s3: "s3 = s2\<lparr>ks := (ks s2)\<lparr>kc := cv\<rparr>, trace := trace s2 @ [ConstraintCall (kx (ks s2))]\<rparr>"
    by blast
  from call_eval_con_normals_Inr[OF a4] obtain av where
    s4: "s' = s3\<lparr>ks := (ks s3)\<lparr>ka := av\<rparr>, trace := trace s3 @ [NormalsCall (kx (ks s3))]\<rparr>"
    by blast
  have "y' = y" using y y' by (simp add: s1)
  then show ?thesis using y by (simp add: s1 s2 s3 s4)
qed

lemma prime_Inl:
  assumes "prime env p s = Inl (e, tr)"
  shows "\<exists>es. tr = trace s @ es \<and> \<not> list_ex is_kernel_call es"
proof (cases "wrapped_fun env p s")
  case (Inl et)
  with assms have "wrapped_fun env p s = Inl (e, tr)" by (simp add: prime_def bind_err_def)
  from wrapped_fun_Inl[OF this] show ?thesis .
next
  case a1: (Inr s1)
  from wrapped_fun_Inr[OF a1] obtain y where t1: "trace s1 = trace s @ [FunCall y]" by auto
  show ?thesis
  proof (cases "wrapped_grad env p s1")
    case (Inl et)
    with assms a1 have "wrapped_grad env p s1 = Inl (e, tr)" by (simp add: prime_def bind_err_def)
    from wrapped_grad_Inl[OF this] t1 show ?thesis by auto
  next
    case a2: (Inr s2)
    from wrapped_grad_Inr[OF a2] obtain y' where t2: "trace s2 = trace s1 @ [GradCall y']" by auto
    show ?thesis
    proof (cases "call_eval_constraint p s2")
      case (Inl et)
      with assms a1 a2 have "call_eval_constraint p s2 = Inl (e, tr)"
        by (simp add: prime_def bind_err_def)
      from call_eval_constraint_Inl[OF this] t1 t2 show ?thesis by auto
    next
      case a3: (Inr s3)
      from call_eval_constraint_Inr[OF a3] obtain z where
        t3: "trace s3 = trace s2 @ [ConstraintCall z]" by auto
      from assms a1 a2 a3 have "call_eval_con_normals p s3 = Inl (e, tr)"
        by (simp add: prime_def bind_err_def)
      from call_eval_con_normals_Inl[OF this] t1 t2 t3 show ?thesis by auto
    qed
  qed
qed

lemma bind_err_Inr: "bind_err r f = Inr v \<Longrightarrow> \<exists>u. r = Inr u \<and> f u = Inr v"
  by (cases r) (simp_all add: bind_err_def)

lemma bind_err_Inl: "bind_err r f = Inl e \<Longrightarrow> r = Inl e \<or> (\<exists>u. r = Inr u \<and> f u = Inl e)"
  by (cases r) (simp_all add: bind_err_def)

text \<open>One turn of the loop: the kernel call, then what its mode asks for.\<close>

lemma loop_body_Inr:
  assumes "loop_body env p s = Inr s'"
  defines "k' \<equiv> kernel env (p_m p) (p_meq p) (fx s) (ks s)"
  shows "mode (ks s') = mode k' \<and> kx (ks s') = kx k' \<and> majiter (ks s') = majiter k' \<and>
         kw (ks s') = kw k' \<and> n1 (ks s') = n1 k' \<and>
         (\<exists>es. trace s' = trace s @ KernelCall (ks s) k' # es \<and>
            (mode k' = 1 \<longrightarrow>
               (\<exists>y. check_clip_x (kx k') (p_nb p) = Inr y \<and>
                    es = [FunCall y, ConstraintCall (kx k')])) \<and>
            (mode k' = - 1 \<longrightarrow>
               (\<exists>y. check_clip_x (kx k') (p_nb p) = Inr y \<and>
                    es = [GradCall y, NormalsCall (kx k')])) \<and>
            (\<bar>mode k'\<bar> \<noteq> 1 \<longrightarrow> es = []))"
proof -
  define s1 where "s1 = call_kernel env p s"
  have s1: "s1 = s\<lparr>ks := k', trace := trace s @ [KernelCall (ks s) k']\<rparr>"
    by (simp add: s1_def call_kernel_def Let_def k'_def)
  have m1: "mode (ks s1) = mode k'" by (simp add: s1)
  from assms(1) obtain s2 where
    st1: "(if mode k' = 1 then bind_err (wrapped_fun env p s1) (call_eval_constraint p)
           else Inr s1) = Inr s2"
    and st2: "(if mode (ks s2) = - 1
               then bind_err (wrapped_grad env p s2) (call_eval_con_normals p)
               else Inr s2) = Inr s'"
    unfolding loop_body_def Let_def s1_def[symmetric] m1
    by (blast dest: bind_err_Inr)
  consider (f) "mode k' = 1" | (g) "mode k' = - 1" | (t) "\<bar>mode k'\<bar> \<noteq> 1" by linarith
  then show ?thesis
  proof cases
    case f
    from st1 f obtain sa where a1: "wrapped_fun env p s1 = Inr sa"
      and a2: "call_eval_constraint p sa = Inr s2"
      by (auto dest: bind_err_Inr)
    from wrapped_fun_Inr[OF a1] obtain y v u where
      y: "check_clip_x (kx (ks s1)) (p_nb p) = Inr y"
      and sa: "sa = s1\<lparr>fx := v, sf := u, trace := trace s1 @ [FunCall y]\<rparr>" by blast
    from call_eval_constraint_Inr[OF a2] obtain cv where
      s2: "s2 = sa\<lparr>ks := (ks sa)\<lparr>kc := cv\<rparr>, trace := trace sa @ [ConstraintCall (kx (ks sa))]\<rparr>"
      by blast
    have "mode (ks s2) = 1" using f by (simp add: s1 sa s2)
    with st2 have "s' = s2" by simp
    then show ?thesis using f y by (simp add: s1 sa s2)
  next
    case g
    with st1 have e: "s2 = s1" by simp
    with st2 g m1 obtain sa where a1: "wrapped_grad env p s1 = Inr sa"
      and a2: "call_eval_con_normals p sa = Inr s'"
      by (auto dest: bind_err_Inr)
    from wrapped_grad_Inr[OF a1] obtain y gv u where
      y: "check_clip_x (kx (ks s1)) (p_nb p) = Inr y"
      and sa: "sa = s1\<lparr>ks := (ks s1)\<lparr>kg := gv @ [Fin 0]\<rparr>, sf := u,
                       trace := trace s1 @ [GradCall y]\<rparr>" by blast
    from call_eval_con_normals_Inr[OF a2] obtain av where
      s3: "s' = sa\<lparr>ks := (ks sa)\<lparr>ka := av\<rparr>, trace := trace sa @ [NormalsCall (kx (ks sa))]\<rparr>"
      by blast
    show ?thesis using g y by (simp add: s1 sa s3)
  next
    case t
    then have ne: "mode k' \<noteq> 1" "mode k' \<noteq> - 1" by auto
    with st1 have e: "s2 = s1" by simp
    with st2 ne m1 have "s' = s1" by simp
    then show ?thesis using t ne by (simp add: s1)
  qed
qed

lemma loop_body_Inl:
  assumes "loop_body env p s = Inl (e, tr)"
  shows "\<exists>es. tr = trace s @ KernelCall (ks s) (kernel env (p_m p) (p_meq p) (fx s) (ks s)) # es"
proof -
  define k' where "k' = kernel env (p_m p) (p_meq p) (fx s) (ks s)"
  define s1 where "s1 = call_kernel env p s"
  have s1: "s1 = s\<lparr>ks := k', trace := trace s @ [KernelCall (ks s) k']\<rparr>"
    by (simp add: s1_def call_kernel_def Let_def k'_def)
  have m1: "mode (ks s1) = mode k'" by (simp add: s1)
  have base: "\<exists>es. trace s1 = trace s @ KernelCall (ks s) k' # es" by (simp add: s1)
  have ext: "\<exists>es. tr' = trace s @ KernelCall (ks s) k' # es"
    if "\<exists>es. tr' = tr0 @ es" "\<exists>es. tr0 = trace s @ KernelCall (ks s) k' # es" for tr' tr0
    using that by auto
  have stage1: "\<exists>es. trace s2 = trace s @ KernelCall (ks s) k' # es"
    if "(if mode k' = 1 then bind_err (wrapped_fun env p s1) (call_eval_constraint p)
         else Inr s1) = Inr s2" for s2
  proof (cases "mode k' = 1")
    case True
    with that obtain sa where a1: "wrapped_fun env p s1 = Inr sa"
      and a2: "call_eval_constraint p sa = Inr s2" by (auto dest: bind_err_Inr)
    from wrapped_fun_Inr[OF a1] have "\<exists>es. trace sa = trace s1 @ es" by auto
    moreover from call_eval_constraint_Inr[OF a2] have "\<exists>es. trace s2 = trace sa @ es" by auto
    ultimately show ?thesis using base ext by metis
  next
    case False
    with that base show ?thesis by simp
  qed
  have stage1e: "\<exists>es. tr' = trace s @ KernelCall (ks s) k' # es"
    if "(if mode k' = 1 then bind_err (wrapped_fun env p s1) (call_eval_constraint p)
         else Inr s1) = Inl (e', tr')" for e' tr'
  proof -
    from that have m: "mode k' = 1" and b: "bind_err (wrapped_fun env p s1) (call_eval_constraint p) = Inl (e', tr')"
      by (auto split: if_splits)
    from bind_err_Inl[OF b] show ?thesis
    proof
      assume "wrapped_fun env p s1 = Inl (e', tr')"
      from wrapped_fun_Inl[OF this] base ext show ?thesis by metis
    next
      assume "\<exists>u. wrapped_fun env p s1 = Inr u \<and> call_eval_constraint p u = Inl (e', tr')"
      then obtain u where a1: "wrapped_fun env p s1 = Inr u"
        and a2: "call_eval_constraint p u = Inl (e', tr')" by blast
      from wrapped_fun_Inr[OF a1] have "\<exists>es. trace u = trace s1 @ es" by auto
      with base ext have "\<exists>es. trace u = trace s @ KernelCall (ks s) k' # es" by metis
      with call_eval_constraint_Inl[OF a2] ext show ?thesis by metis
    qed
  qed
  from assms have
    "bind_err (if mode k' = 1 then bind_err (wrapped_fun env p s1) (call_eval_constraint p)
               else Inr s1)
       (\<lambda>s2. if mode (ks s2) = - 1
              then bind_err (wrapped_grad env p s2) (call_eval_con_normals p)
              else Inr s2) = Inl (e, tr)"
    unfolding loop_body_def Let_def s1_def[symmetric] m1 .
  from bind_err_Inl[OF this] show ?thesis unfolding k'_def[symmetric]
  proof
    assume "(if mode k' = 1 then bind_err (wrapped_fun env p s1) (call_eval_constraint p)
             else Inr s1) = Inl (e, tr)"
    from stage1e[OF this] show "\<exists>es. tr = trace s @ KernelCall (ks s) k' # es" .
  next
    assume "\<exists>u. (if mode k' = 1 then bind_err (wrapped_fun env p s1) (call_eval_constraint p)
                  else Inr s1) = Inr u \<and>
                (if mode (ks u) = - 1
                 then bind_err (wrapped_grad env p u) (call_eval_con_normals p)
                 else Inr u) = Inl (e, tr)"
    then obtain u where u1: "(if mode k' = 1
                              then bind_err (wrapped_fun env p s1) (call_eval_constraint p)
                              else Inr s1) = Inr u"
      and u2: "bind_err (wrapped_grad env p u) (call_eval_con_normals p) = Inl (e, tr)"
      by (auto split: if_splits)
    note bu = stage1[OF u1]
    from bind_err_Inl[OF u2] show "\<exists>es. tr = trace s @ KernelCall (ks s) k' # es"
    proof
      assume "wrapped_grad env p u = Inl (e, tr)"
      from wrapped_grad_Inl[OF this] bu ext show ?thesis by metis
    next
      assume "\<exists>v. wrapped_grad env p u = Inr v \<and> call_eval_con_normals p v = Inl (e, tr)"
      then obtain v where a1: "wrapped_grad env p u = Inr v"
        and a2: "call_eval_con_normals p v = Inl (e, tr)" by blast
      from wrapped_grad_Inr[OF a1] have "\<exists>es. trace v = trace u @ es" by auto
      with bu ext have "\<exists>es. trace v = trace s @ KernelCall (ks s) k' # es" by metis
      with call_eval_con_normals_Inl[OF a2] ext show ?thesis by metis
    qed
  qed
qed

text \<open>
  What the loop returns: its log goes on from the log on entry with a kernel call on the
  cells on entry; when the loop ends by \<^verbatim>\<open>break\<close>, the calls it made follow the protocol
  and the last mode is neither \<open>1\<close> nor \<open>-1\<close>.
\<close>

lemma drive_loop_result:
  assumes "drive_loop env p s = Some r"
  shows "(\<forall>e tr. r = Inl (e, tr) \<longrightarrow>
            (\<exists>es. tr = trace s @ KernelCall (ks s) (kernel env (p_m p) (p_meq p) (fx s) (ks s)) # es)) \<and>
         (\<forall>s2. r = Inr s2 \<longrightarrow>
            \<bar>mode (ks s2)\<bar> \<noteq> 1 \<and>
            (\<exists>es. trace s2 =
                    trace s @ KernelCall (ks s) (kernel env (p_m p) (p_meq p) (fx s) (ks s)) # es \<and>
                  protocol (p_nb p)
                    (KernelCall (ks s) (kernel env (p_m p) (p_meq p) (fx s) (ks s)) # es)))"
proof -
  let ?Q = "\<lambda>(env :: 'a env) p (s :: 'a dstate) (r :: 'a dstate run).
    (\<forall>e tr. r = Inl (e, tr) \<longrightarrow>
        (\<exists>es. tr = trace s @ KernelCall (ks s) (kernel env (p_m p) (p_meq p) (fx s) (ks s)) # es)) \<and>
    (\<forall>s2. r = Inr s2 \<longrightarrow>
        \<bar>mode (ks s2)\<bar> \<noteq> 1 \<and>
        (\<exists>es. trace s2 =
                trace s @ KernelCall (ks s) (kernel env (p_m p) (p_meq p) (fx s) (ks s)) # es \<and>
              protocol (p_nb p)
                (KernelCall (ks s) (kernel env (p_m p) (p_meq p) (fx s) (ks s)) # es)))"
  show ?thesis
  proof (rule drive_loop.raw_induct[where P = ?Q, OF _ assms])
    fix loop :: "'a env \<Rightarrow> problem \<Rightarrow> 'a dstate \<Rightarrow> 'a dstate run option"
      and env p s r
    assume IH: "\<And>env p s r. loop env p s = Some r \<Longrightarrow> ?Q env p s r"
      and H: "(case loop_body env p s of
                 Inl e \<Rightarrow> Some (Inl e)
               | Inr s' \<Rightarrow>
                   if \<bar>mode (ks s')\<bar> \<noteq> 1 then Some (Inr s')
                   else loop env p (s'\<lparr>majiter_prev := majiter (ks s')\<rparr>)) = Some r"
    define k' where "k' = kernel env (p_m p) (p_meq p) (fx s) (ks s)"
    show "?Q env p s r" unfolding k'_def[symmetric]
    proof (cases "loop_body env p s")
      case (Inl et)
      obtain e tr where et: "et = (e, tr)" by (cases et)
      from Inl et H have r: "r = Inl (e, tr)" by simp
      from loop_body_Inl[of env p s e tr] Inl et
      have "\<exists>es. tr = trace s @ KernelCall (ks s) k' # es" by (simp add: k'_def)
      with r show "(\<forall>e tr. r = Inl (e, tr) \<longrightarrow> (\<exists>es. tr = trace s @ KernelCall (ks s) k' # es)) \<and>
        (\<forall>s2. r = Inr s2 \<longrightarrow> \<bar>mode (ks s2)\<bar> \<noteq> 1 \<and>
            (\<exists>es. trace s2 = trace s @ KernelCall (ks s) k' # es \<and>
                  protocol (p_nb p) (KernelCall (ks s) k' # es)))" by simp
    next
      case (Inr s')
      note lb = loop_body_Inr[OF Inr, folded k'_def]
      from lb obtain es where tr': "trace s' = trace s @ KernelCall (ks s) k' # es"
        and f: "mode k' = 1 \<longrightarrow> (\<exists>y. check_clip_x (kx k') (p_nb p) = Inr y \<and>
                      es = [FunCall y, ConstraintCall (kx k')])"
        and g: "mode k' = - 1 \<longrightarrow> (\<exists>y. check_clip_x (kx k') (p_nb p) = Inr y \<and>
                      es = [GradCall y, NormalsCall (kx k')])"
        and t: "\<bar>mode k'\<bar> \<noteq> 1 \<longrightarrow> es = []"
        by blast
      from lb have md: "mode (ks s') = mode k'" by simp
      show "(\<forall>e tr. r = Inl (e, tr) \<longrightarrow> (\<exists>es. tr = trace s @ KernelCall (ks s) k' # es)) \<and>
        (\<forall>s2. r = Inr s2 \<longrightarrow> \<bar>mode (ks s2)\<bar> \<noteq> 1 \<and>
            (\<exists>es. trace s2 = trace s @ KernelCall (ks s) k' # es \<and>
                  protocol (p_nb p) (KernelCall (ks s) k' # es)))"
      proof (cases "\<bar>mode (ks s')\<bar> \<noteq> 1")
        case True
        with Inr H have r: "r = Inr s'" by simp
        from True md t have "es = []" by simp
        moreover from True md have "mode k' \<noteq> 1" "mode k' \<noteq> - 1" by auto
        ultimately show ?thesis using r True tr' by simp
      next
        case False
        define s'' where "s'' = s'\<lparr>majiter_prev := majiter (ks s')\<rparr>"
        from False Inr H have "loop env p s'' = Some r" by (simp add: s''_def)
        note ih = IH[OF this]
        define k2 where "k2 = kernel env (p_m p) (p_meq p) (fx s'') (ks s'')"
        have tr'': "trace s'' = trace s @ KernelCall (ks s) k' # es" by (simp add: s''_def tr')
        from False md have m: "mode k' = 1 \<or> mode k' = - 1" by linarith
        have pr: "protocol (p_nb p) (KernelCall (ks s) k' # es @ rest)"
          if "protocol (p_nb p) rest" for rest
          using m f g that by auto
        show ?thesis
        proof (intro conjI allI impI)
          fix e tr assume "r = Inl (e, tr)"
          with ih obtain es2 where "tr = trace s'' @ KernelCall (ks s'') k2 # es2"
            unfolding k2_def by blast
          then have "tr = trace s @ KernelCall (ks s) k' # (es @ KernelCall (ks s'') k2 # es2)"
            by (simp add: tr'')
          then show "\<exists>es. tr = trace s @ KernelCall (ks s) k' # es" by blast
        next
          fix s2 assume "r = Inr s2"
          with ih show "\<bar>mode (ks s2)\<bar> \<noteq> 1" by blast
        next
          fix s2 assume "r = Inr s2"
          with ih obtain es2 where a: "trace s2 = trace s'' @ KernelCall (ks s'') k2 # es2"
            and b: "protocol (p_nb p) (KernelCall (ks s'') k2 # es2)"
            unfolding k2_def by blast
          from a have "trace s2 = trace s @ KernelCall (ks s) k' # (es @ KernelCall (ks s'') k2 # es2)"
            by (simp add: tr'')
          moreover from pr[OF b]
          have "protocol (p_nb p) (KernelCall (ks s) k' # (es @ KernelCall (ks s'') k2 # es2))" .
          ultimately show "\<exists>es. trace s2 = trace s @ KernelCall (ks s) k' # es \<and>
                  protocol (p_nb p) (KernelCall (ks s) k' # es)" by blast
        qed
      qed
    qed
  qed
qed

subsection \<open>The concrete run, step by step\<close>

lemma ex_clip: "np_clip [Fin (- 5)] ([Fin 0], [Fin 10]) = Inr [Fin 0]"
  by (simp add: np_clip_def broadcast_len_def broadcast_to_def npy_clip_def npy_max_def
        npy_min_def fl_isnan_def)

lemma ex_clip0: "np_clip [Fin 0] ([Fin 0], [Fin 10]) = Inr [Fin 0]"
  by (simp add: np_clip_def broadcast_len_def broadcast_to_def npy_clip_def npy_max_def
        npy_min_def fl_isnan_def)

lemma ex_lower: "py_lower ''Ineq'' = ''ineq''"
  by (simp add: py_lower_def py_lower_char_def)

lemma ex_triage:
  "triage env ([Fin 0], [Fin 10]) \<lparr>cons_eq = [], cons_ineq = []\<rparr> 0 [Dict example_con]
     = Inr ex_cons"
  by (simp add: triage_one_def bind_err_def example_con_def ex_lower Let_def ex_cons_def)

lemma ex_len: "len_w 1 1 0 = 81" "len_jw 1 1 0 = 5"
  by (simp_all add: len_w_def len_jw_def Let_def)

lemma ex_bounds: "decompose_bounds (Some [(Some (Fin 0), Some (Fin 10))]) (Suc 0)
    = Inr ([Fin 0], [Fin 10])"
  by (simp add: decompose_bounds_def Let_def bound_scalar_def mark_infinite_def fl_isfinite_def)

lemma ex_env [simp]:
  "kernel (example_env_with kf) = kf"
  "prepare_scalar_function (example_env_with kf) xv nb = Inr ()"
  "sf_fun (example_env_with kf) u xv = Inr (Fin 0, ())"
  "sf_grad (example_env_with kf) u xv = Inr (map (\<lambda>v. Fin 0) xv, ())"
  "sf_nfev (example_env_with kf) u = 1"
  "sf_ngev (example_env_with kf) u = 1"
  by (simp_all add: example_env_with_def)

lemma ex_args [simp]:
  "x0 example_args = [Fin (- 5)]"
  "bounds example_args = Some [(Some (Fin 0), Some (Fin 10))]"
  "constraints example_args = ConSeq [Dict example_con]"
  "maxiter example_args = 3"
  "ftol example_args = Fin (1 / 1000000)"
  by (simp_all add: example_args_def)

lemma ex_nb: "make_new_bounds (Some [(Some (Fin 0), Some (Fin 10))]) = ([Fin 0], [Fin 10])"
  by (simp add: make_new_bounds_def old_bound_to_new_def)

lemma ex_dims:
  "residual_dims [Fin 0] (cons_eq ex_cons) [] = Inr ([], [])"
  "residual_dims [Fin 0] (cons_ineq ex_cons) [] = Inr ([1], [ConFunCall [Fin 0]])"
  by (simp_all add: ex_cons_def bind_err_def)

lemma ex_init: "initialise (example_env_with kf) example_args = Inr (ex_problem, ex_s0)"
  by (simp add: initialise_def ex_nb ex_clip as_sequence_def ex_triage ex_dims bind_err_def
        Let_def ex_len np_zeros_def ex_bounds to_int64_def ex_problem_def ex_s0_def ex_k0_def
        del: triage.simps residual_dims.simps)

lemma ex_problem_simps [simp]:
  "p_cons ex_problem = ex_cons" "p_nb ex_problem = ([Fin 0], [Fin 10])"
  "p_meq_cv ex_problem = []" "p_mieq_cv ex_problem = [1]"
  "p_meq ex_problem = 0" "p_mieq ex_problem = 1" "p_m ex_problem = 1"
  "p_la ex_problem = 1" "p_n ex_problem = 1"
  by (simp_all add: ex_problem_def)

lemma ex_eval_constraint: "eval_constraint [Fin 0] ex_cons = Inr [Fin 0]"
  by (simp add: eval_constraint_def ex_cons_def bind_err_def np_zeros_def)

lemma ex_eval_con_normals:
  "eval_con_normals [Fin 0] ex_cons 1 1 1 0 1 = Inr (Mat 1 2 [[Fin 1, Fin 0]])"
  by (simp add: eval_con_normals_def ex_cons_def bind_err_def np_zeros2_def np_vstack_def
        np_hstack2_def)

lemma ex_wrapped_fun:
  "kx (ks s) = [Fin 0] \<Longrightarrow> wrapped_fun (example_env_with kf) ex_problem s
     = Inr (s\<lparr>fx := Fin 0, sf := (), trace := trace s @ [FunCall [Fin 0]]\<rparr>)"
  by (simp add: wrapped_fun_def check_clip_x_def ex_clip0)

lemma ex_wrapped_grad:
  "kx (ks s) = [Fin 0] \<Longrightarrow> wrapped_grad (example_env_with kf) ex_problem s
     = Inr (s\<lparr>ks := (ks s)\<lparr>kg := [Fin 0, Fin 0]\<rparr>, sf := (),
              trace := trace s @ [GradCall [Fin 0]]\<rparr>)"
  by (simp add: wrapped_grad_def check_clip_x_def ex_clip0)

lemma ex_call_eval_constraint:
  "kx (ks s) = [Fin 0] \<Longrightarrow> call_eval_constraint ex_problem s
     = Inr (s\<lparr>ks := (ks s)\<lparr>kc := [Fin 0]\<rparr>, trace := trace s @ [ConstraintCall [Fin 0]]\<rparr>)"
  by (simp add: call_eval_constraint_def ex_eval_constraint)

lemma ex_call_eval_con_normals:
  "kx (ks s) = [Fin 0] \<Longrightarrow> call_eval_con_normals ex_problem s
     = Inr (s\<lparr>ks := (ks s)\<lparr>ka := Mat 1 2 [[Fin 1, Fin 0]]\<rparr>,
              trace := trace s @ [NormalsCall [Fin 0]]\<rparr>)"
  by (simp add: call_eval_con_normals_def ex_eval_con_normals)

lemmas ex_steps = ex_wrapped_fun ex_wrapped_grad ex_call_eval_constraint ex_call_eval_con_normals

lemma ex_prime: "prime (example_env_with kf) ex_problem ex_s0 = Inr ex_s1"
  by (simp add: prime_def bind_err_def ex_steps ex_s0_def ex_k0_def ex_s1_def ex_k1_def ex_tr1_def)

lemma ex_kernel:
  "example_kernel m meq f ex_k1 = ex_ka"
  "example_kernel m meq f ex_ka = ex_kb"
  "example_kernel m meq f ex_kb = ex_kc"
  by (simp_all add: example_kernel_def ex_ka_def ex_kb_def ex_kc_def ex_k1_def ex_k0_def)

lemma ex_k_simps [simp]:
  "kx ex_k1 = [Fin 0]" "kx ex_ka = [Fin 0]" "kx ex_kb = [Fin 0]" "kx ex_kc = [Fin 0]"
  "mode ex_ka = 1" "mode ex_kb = - 1" "mode ex_kc = 0"
  "majiter ex_ka = 1" "majiter ex_kb = 0" "majiter ex_kc = 0"
  "ex_ka\<lparr>kc := [Fin 0]\<rparr> = ex_ka"
  "ex_kb\<lparr>kg := [Fin 0, Fin 0]\<rparr> = ex_kb"
  "ex_kb\<lparr>ka := Mat (Suc 0) 2 [[Fin 1, Fin 0]]\<rparr> = ex_kb"
  by (simp_all add: ex_ka_def ex_kb_def ex_kc_def ex_k1_def ex_k0_def)

lemma ex_body1: "loop_body example_env ex_problem ex_s1 = Inr ex_sa"
  by (simp add: loop_body_def call_kernel_def bind_err_def ex_steps Let_def ex_s1_def ex_sa_def
        ex_kernel example_env_def)

lemma ex_body2:
  "loop_body example_env ex_problem (ex_sa\<lparr>majiter_prev := 1\<rparr>) = Inr ex_sb"
  by (simp add: loop_body_def call_kernel_def bind_err_def ex_steps Let_def ex_sb_def ex_sa_def
        ex_kernel example_env_def)

lemma ex_body3:
  "loop_body example_env ex_problem (ex_sb\<lparr>majiter_prev := 0\<rparr>) = Inr ex_s2"
  by (simp add: loop_body_def call_kernel_def bind_err_def ex_steps Let_def ex_sb_def ex_s2_def
        ex_kernel ex_rounds_def example_env_def)

lemma ex_s_simps [simp]:
  "ks ex_sa = ex_ka" "ks ex_sb = ex_kb" "ks ex_s2 = ex_kc"
  by (simp_all add: ex_sa_def ex_sb_def ex_s2_def)

lemma ex_loop: "drive_loop example_env ex_problem ex_s1 = Some (Inr ex_s2)"
  apply (subst drive_loop.simps)
  apply (simp add: ex_body1)
  apply (subst drive_loop.simps)
  apply (simp add: ex_body2)
  apply (subst drive_loop.simps)
  apply (simp add: ex_body3)
  done

lemma ex_kkt: "kkt_multipliers (replicate 81 (Fin 0)) 1 2 1 1 [] [Suc 0] = ([], [[Fin 0]])"
proof -
  have ir: "kkt_offset 1 2 1 = 4" by (simp add: kkt_offset_def Let_def)
  have sl: "py_slice (replicate 81 (Fin 0)) 4 5 = [Fin 0]"
    by (simp add: py_slice_def slice_bound_def Let_def)
  have "kkt_split [Fin 0] [] [Suc 0] = ([], [[Fin 0]])"
    by (simp add: kkt_split_def kkt_take_def Let_def py_slice_def slice_bound_def)
  then show ?thesis by (simp add: kkt_multipliers_def Let_def ir sl)
qed

lemma ex_kc_fields:
  "kw ex_kc = replicate 81 (Fin 0)" "n1 ex_kc = 2" "kg ex_kc = [Fin 0, Fin 0]"
  by (simp_all add: ex_kc_def ex_kb_def ex_ka_def ex_k1_def ex_k0_def)

lemma ex_exit: "exit_modes 0 = Some ''Optimization terminated successfully''"
  by (simp add: exit_modes_def)

lemma ex_finish: "finish example_env ex_problem ex_s2 = Inr (ex_result, ex_tr1 @ ex_rounds)"
  by (simp add: finish_def Let_def ex_kc_fields ex_kkt ex_exit ex_result_def example_env_def)
     (simp add: ex_s2_def)

lemma ex_run:
  "minimize_slsqp example_env example_args = Some (Inr (ex_result, ex_tr1 @ ex_rounds))"
  by (simp add: minimize_slsqp_def ex_init[of example_kernel, folded example_env_def]
        ex_prime[of example_kernel, folded example_env_def] ex_loop ex_finish)

subsection \<open>The constraint evaluator without constraints\<close>

lemma un_len: "len_w 1 0 0 = 69" "len_jw 1 0 0 = 4"
  by (simp_all add: len_w_def len_jw_def Let_def)

lemma un_init: "initialise (example_env_with kf) unconstrained_args = Inr (un_problem, un_s0)"
  by (simp add: initialise_def unconstrained_args_def ex_nb ex_clip as_sequence_def bind_err_def
        Let_def un_len np_zeros_def ex_bounds to_int64_def un_problem_def un_s0_def ex_k0_def)

lemma eval_constraint_none: "eval_constraint xv \<lparr>cons_eq = [], cons_ineq = []\<rparr> = Inr []"
  by (simp add: eval_constraint_def bind_err_def np_zeros_def)

lemma eval_con_normals_none:
  "eval_con_normals xv \<lparr>cons_eq = [], cons_ineq = []\<rparr> 1 (int n) 0 0 0
     = Inr (Mat 1 (n + 1) [replicate (n + 1) (Fin 0)])"
  by (simp add: eval_con_normals_def bind_err_def np_zeros2_def np_hstack2_def
        replicate_append_same)

lemma triage_nil_initialise:
  assumes "initialise env ar = Inr (p, s0)" "as_sequence (constraints ar) = []"
  shows "p_cons p = \<lparr>cons_eq = [], cons_ineq = []\<rparr> \<and> p_m p = 0 \<and> p_meq p = 0 \<and>
         p_mieq p = 0 \<and> p_la p = 1 \<and> p_n p = int (length (kx (ks s0)))"
proof -
  from initialise_Inr[OF assms(1)] obtain cs meq_cv mieq_cv where
    t: "triage env (make_new_bounds (bounds ar)) \<lparr>cons_eq = [], cons_ineq = []\<rparr> 0
          (as_sequence (constraints ar)) = Inr cs"
    and l: "length meq_cv = length (cons_eq cs)" "length mieq_cv = length (cons_ineq cs)"
    and p: "p = \<lparr>p_cons = cs, p_nb = make_new_bounds (bounds ar), p_meq_cv = meq_cv,
                 p_mieq_cv = mieq_cv, p_meq = int (sum_list meq_cv),
                 p_mieq = int (sum_list mieq_cv),
                 p_m = int (sum_list meq_cv) + int (sum_list mieq_cv),
                 p_la = max 1 (int (sum_list meq_cv) + int (sum_list mieq_cv)),
                 p_n = int (length (kx (ks s0)))\<rparr>"
    by blast
  from t assms(2) have cs: "cs = \<lparr>cons_eq = [], cons_ineq = []\<rparr>" by simp
  with l have "meq_cv = []" "mieq_cv = []" by simp_all
  then show ?thesis using cs by (simp add: p)
qed

text \<open>
  Claim C3. Without constraints the stacked residual is the empty vector, and the
  stacked normals are one row of \<open>n + 1\<close> zeros, at every point and for every number
  \<open>n\<close> of variables (with \<open>la = max(1, 0)\<close> and \<open>m = meq = mieq = 0\<close>, as line 129-134
  compute them). In a run without constraints these are the parameters the driver
  passes, with \<open>n\<close> the length of the iterate.
\<close>

theorem zero_constraints_evaluator:
  "eval_constraint xv \<lparr>cons_eq = [], cons_ineq = []\<rparr> = Inr [] \<and>
   eval_con_normals xv \<lparr>cons_eq = [], cons_ineq = []\<rparr> (max 1 0) (int n) 0 0 0
     = Inr (Mat 1 (n + 1) [replicate (n + 1) (Fin 0)]) \<and>
   (\<forall>env ar p s0. initialise env ar = Inr (p, (s0 :: 'sf dstate)) \<and>
        as_sequence (constraints ar) = [] \<longrightarrow>
      eval_constraint xv (p_cons p) = Inr [] \<and>
      eval_con_normals xv (p_cons p) (p_la p) (p_n p) (p_m p) (p_meq p) (p_mieq p)
        = Inr (Mat 1 (length (kx (ks s0)) + 1)
                 [replicate (length (kx (ks s0)) + 1) (Fin 0)]))"
proof (intro conjI allI impI)
  show "eval_constraint xv \<lparr>cons_eq = [], cons_ineq = []\<rparr> = Inr []"
    by (rule eval_constraint_none)
  show "eval_con_normals xv \<lparr>cons_eq = [], cons_ineq = []\<rparr> (max 1 0) (int n) 0 0 0
     = Inr (Mat 1 (n + 1) [replicate (n + 1) (Fin 0)])"
    using eval_con_normals_none[of xv n] by simp
next
  fix env :: "'sf env" and ar p s0
  assume a: "initialise env ar = Inr (p, s0) \<and> as_sequence (constraints ar) = []"
  then have t: "p_cons p = \<lparr>cons_eq = [], cons_ineq = []\<rparr> \<and> p_m p = 0 \<and> p_meq p = 0 \<and>
         p_mieq p = 0 \<and> p_la p = 1 \<and> p_n p = int (length (kx (ks s0)))"
    using triage_nil_initialise by blast
  show "eval_constraint xv (p_cons p) = Inr []" using t by (simp add: eval_constraint_none)
  show "eval_con_normals xv (p_cons p) (p_la p) (p_n p) (p_m p) (p_meq p) (p_mieq p)
        = Inr (Mat 1 (length (kx (ks s0)) + 1) [replicate (length (kx (ks s0)) + 1) (Fin 0)])"
    using t eval_con_normals_none[of xv "length (kx (ks s0))"] by simp
qed

text \<open>The theorem of C3 at the point \<open>[7]\<close> and in the run without constraints.\<close>

theorem zero_constraints_evaluator_witness:
  "initialise (example_env_with example_kernel) unconstrained_args = Inr (un_problem, un_s0) \<and>
   as_sequence (constraints unconstrained_args) = [] \<and>
   eval_constraint [Fin 7] (p_cons un_problem) = Inr [] \<and>
   eval_con_normals [Fin 7] (p_cons un_problem) (p_la un_problem) (p_n un_problem)
     (p_m un_problem) (p_meq un_problem) (p_mieq un_problem) = Inr (Mat 1 2 [[Fin 0, Fin 0]])"
proof -
  have i: "initialise (example_env_with example_kernel) unconstrained_args = Inr (un_problem, un_s0)"
    by (rule un_init)
  have c: "as_sequence (constraints unconstrained_args) = []"
    by (simp add: unconstrained_args_def as_sequence_def)
  have l: "length (kx (ks un_s0)) = 1" by (simp add: un_s0_def ex_k0_def)
  from zero_constraints_evaluator[of "[Fin 7]" 1] i c l show ?thesis
    by (auto simp: numeral_2_eq_2)
qed

subsection \<open>A single dictionary of constraints\<close>

text \<open>
  Claim C10. A single constraint dictionary given as \<open>constraints\<close> gives the same run,
  with the same result, the same exception or the same divergence, and the same calls,
  as the sequence that holds just this dictionary.
\<close>

theorem single_dict_as_sequence:
  "minimize_slsqp env (ar\<lparr>constraints := OneDict d\<rparr>)
     = minimize_slsqp env (ar\<lparr>constraints := ConSeq [Dict d]\<rparr>)"
proof -
  have "initialise env (ar\<lparr>constraints := OneDict d\<rparr>)
          = initialise env (ar\<lparr>constraints := ConSeq [Dict d]\<rparr>)"
    by (simp add: initialise_def as_sequence_def Let_def del: triage.simps cong: sum.case_cong)
  then show ?thesis by (simp add: minimize_slsqp_def)
qed

subsection \<open>The run as a whole\<close>

lemma minimize_slsqp_cases:
  assumes "minimize_slsqp env ar = Some r"
  shows "(\<exists>e tr. initialise env ar = Inl (e, tr) \<and> r = Inl (e, tr)) \<or>
         (\<exists>p s0 e tr. initialise env ar = Inr (p, s0) \<and> prime env p s0 = Inl (e, tr) \<and>
             r = Inl (e, tr)) \<or>
         (\<exists>p s0 s1 e tr. initialise env ar = Inr (p, s0) \<and> prime env p s0 = Inr s1 \<and>
             drive_loop env p s1 = Some (Inl (e, tr)) \<and> r = Inl (e, tr)) \<or>
         (\<exists>p s0 s1 s2. initialise env ar = Inr (p, s0) \<and> prime env p s0 = Inr s1 \<and>
             drive_loop env p s1 = Some (Inr s2) \<and> r = finish env p s2)"
  using assms
  by (auto simp: minimize_slsqp_def split: sum.splits option.splits prod.splits)

lemma exit_modes_table:
  "exit_modes 2 = Some ''More equality constraints than independent variables''"
  "exit_modes 3 = Some ''More than 3*n iterations in LSQ subproblem''"
  "exit_modes 4 = Some ''Inequality constraints incompatible''"
  "exit_modes 5 = Some ''Singular matrix E in LSQ subproblem''"
  "exit_modes 6 = Some ''Singular matrix C in LSQ subproblem''"
  "exit_modes 7 = Some ''Rank-deficient equality constraint subproblem HFTI''"
  "exit_modes 8 = Some ''Positive directional derivative for linesearch''"
  "exit_modes 9 = Some ''Iteration limit reached''"
  by (simp_all add: exit_modes_def)

lemma exit_modes_defined: "2 \<le> md \<Longrightarrow> md \<le> 9 \<Longrightarrow> \<exists>msg. exit_modes md = Some msg"
proof -
  assume "2 \<le> md" "md \<le> 9"
  then have "md = 2 \<or> md = 3 \<or> md = 4 \<or> md = 5 \<or> md = 6 \<or> md = 7 \<or> md = 8 \<or> md = 9"
    by arith
  then show ?thesis using exit_modes_table by auto
qed

lemma finish_Inr:
  assumes "finish env p s = Inr (r, tr)"
  shows "tr = trace s \<and> status r = mode (ks s) \<and> success r = (mode (ks s) = 0) \<and>
         exit_modes (mode (ks s)) = Some (message r) \<and> res_x r = kx (ks s) \<and>
         res_fun r = fx s \<and> nit r = majiter (ks s)"
  using assms by (auto simp: finish_def Let_def split: option.splits)

lemma finish_Inl: "finish env p s = Inl (e, tr) \<Longrightarrow> tr = trace s"
  by (auto simp: finish_def Let_def split: option.splits)

lemma finish_defined:
  assumes "exit_modes (mode (ks s)) = Some msg"
  shows "\<exists>r. finish env p s = Inr (r, trace s)"
  using assms by (simp add: finish_def Let_def)

subsection \<open>The result of a failed optimisation\<close>

text \<open>
  Claim C8. When the loop ends with a kernel mode from 2 to 9, the run returns a result
  (no exception) whose \<open>success\<close> is false, whose \<open>status\<close> is that mode, whose
  \<open>message\<close> is the entry of \<open>exit_modes\<close> for that mode (the eight fixed texts are
  listed), and whose \<open>x\<close> and \<open>fun\<close> are the iterate and the objective value of the
  last state of the loop. Every result that a run returns has \<open>success\<close> true exactly
  when \<open>status\<close> is 0.
\<close>

theorem terminal_mode_result:
  "(\<forall>ar p s0 s1 s2.
       initialise env ar = Inr (p, s0) \<and> prime env p s0 = Inr s1 \<and>
       drive_loop env p s1 = Some (Inr s2) \<and> 2 \<le> mode (ks s2) \<and> mode (ks s2) \<le> 9 \<longrightarrow>
       (\<exists>r. minimize_slsqp env ar = Some (Inr (r, trace s2)) \<and> success r = False \<and>
            status r = mode (ks s2) \<and> exit_modes (mode (ks s2)) = Some (message r) \<and>
            res_x r = kx (ks s2) \<and> res_fun r = fx s2)) \<and>
   (\<forall>ar r tr. minimize_slsqp env ar = Some (Inr (r, tr)) \<longrightarrow>
       (success r \<longleftrightarrow> status r = 0) \<and> exit_modes (status r) = Some (message r)) \<and>
   exit_modes 2 = Some ''More equality constraints than independent variables'' \<and>
   exit_modes 3 = Some ''More than 3*n iterations in LSQ subproblem'' \<and>
   exit_modes 4 = Some ''Inequality constraints incompatible'' \<and>
   exit_modes 5 = Some ''Singular matrix E in LSQ subproblem'' \<and>
   exit_modes 6 = Some ''Singular matrix C in LSQ subproblem'' \<and>
   exit_modes 7 = Some ''Rank-deficient equality constraint subproblem HFTI'' \<and>
   exit_modes 8 = Some ''Positive directional derivative for linesearch'' \<and>
   exit_modes 9 = Some ''Iteration limit reached''"
proof -
  have a: "\<exists>r. minimize_slsqp env ar = Some (Inr (r, trace s2)) \<and> success r = False \<and>
            status r = mode (ks s2) \<and> exit_modes (mode (ks s2)) = Some (message r) \<and>
            res_x r = kx (ks s2) \<and> res_fun r = fx s2"
    if h: "initialise env ar = Inr (p, s0) \<and> prime env p s0 = Inr s1 \<and>
       drive_loop env p s1 = Some (Inr s2) \<and> 2 \<le> mode (ks s2) \<and> mode (ks s2) \<le> 9"
    for ar p s0 s1 s2
  proof -
    from h exit_modes_defined obtain msg where "exit_modes (mode (ks s2)) = Some msg" by blast
    from finish_defined[OF this] obtain r where f: "finish env p s2 = Inr (r, trace s2)" by blast
    have m: "minimize_slsqp env ar = Some (Inr (r, trace s2))"
      using h f by (simp add: minimize_slsqp_def)
    from finish_Inr[OF f] h m show ?thesis by auto
  qed
  have b: "(success r \<longleftrightarrow> status r = 0) \<and> exit_modes (status r) = Some (message r)"
    if h: "minimize_slsqp env ar = Some (Inr (r, tr))" for ar r tr
  proof -
    from minimize_slsqp_cases[OF h] obtain p s2 where "finish env p s2 = Inr (r, tr)" by auto
    from finish_Inr[OF this] show ?thesis by simp
  qed
  have A: "\<forall>ar p s0 s1 s2.
       initialise env ar = Inr (p, s0) \<and> prime env p s0 = Inr s1 \<and>
       drive_loop env p s1 = Some (Inr s2) \<and> 2 \<le> mode (ks s2) \<and> mode (ks s2) \<le> 9 \<longrightarrow>
       (\<exists>r. minimize_slsqp env ar = Some (Inr (r, trace s2)) \<and> success r = False \<and>
            status r = mode (ks s2) \<and> exit_modes (mode (ks s2)) = Some (message r) \<and>
            res_x r = kx (ks s2) \<and> res_fun r = fx s2)"
    by (intro allI impI) (rule a)
  have B: "\<forall>ar r tr. minimize_slsqp env ar = Some (Inr (r, tr)) \<longrightarrow>
       (success r \<longleftrightarrow> status r = 0) \<and> exit_modes (status r) = Some (message r)"
    by (intro allI impI) (rule b)
  show ?thesis by (intro conjI A B exit_modes_table)
qed

lemma halt_body:
  "loop_body (example_env_with (halting_kernel 9)) ex_problem ex_s1 = Inr halt_s2"
  by (simp add: loop_body_def call_kernel_def bind_err_def Let_def ex_s1_def halt_s2_def
        halting_kernel_def halt_k_def)

lemma halt_loop:
  "drive_loop (example_env_with (halting_kernel 9)) ex_problem ex_s1 = Some (Inr halt_s2)"
  by (subst drive_loop.simps) (simp add: halt_body, simp add: halt_s2_def halt_k_def)

text \<open>The theorem of C8 in the run whose kernel reports mode 9 at its first call.\<close>

theorem terminal_mode_result_witness:
  "initialise (example_env_with (halting_kernel 9)) example_args = Inr (ex_problem, ex_s0) \<and>
   prime (example_env_with (halting_kernel 9)) ex_problem ex_s0 = Inr ex_s1 \<and>
   drive_loop (example_env_with (halting_kernel 9)) ex_problem ex_s1 = Some (Inr halt_s2) \<and>
   mode (ks halt_s2) = 9 \<and>
   (\<exists>r. minimize_slsqp (example_env_with (halting_kernel 9)) example_args
           = Some (Inr (r, trace halt_s2)) \<and>
        success r = False \<and> status r = 9 \<and> message r = ''Iteration limit reached'' \<and>
        res_x r = [Fin 0] \<and> res_fun r = Fin 0 \<and> (success r \<longleftrightarrow> status r = 0))"
proof -
  have i: "initialise (example_env_with (halting_kernel 9)) example_args = Inr (ex_problem, ex_s0)"
    by (rule ex_init)
  have p: "prime (example_env_with (halting_kernel 9)) ex_problem ex_s0 = Inr ex_s1"
    by (rule ex_prime)
  note l = halt_loop
  have m: "mode (ks halt_s2) = 9" "kx (ks halt_s2) = [Fin 0]" "fx halt_s2 = Fin 0"
    by (simp_all add: halt_s2_def halt_k_def)
  have range: "2 \<le> mode (ks halt_s2)" "mode (ks halt_s2) \<le> 9" by (simp_all add: m)
  note t = terminal_mode_result[of "example_env_with (halting_kernel 9)", THEN conjunct1,
      rule_format, of example_args ex_problem ex_s0 ex_s1 halt_s2]
  from t i p l range m
  obtain r where r: "minimize_slsqp (example_env_with (halting_kernel 9)) example_args
           = Some (Inr (r, trace halt_s2))" "success r = False" "status r = 9"
    "exit_modes 9 = Some (message r)" "res_x r = [Fin 0]" "res_fun r = Fin 0"
    by auto
  have "message r = ''Iteration limit reached''"
    using r(4) by (simp add: exit_modes_def)
  with r i p l m show ?thesis by auto
qed

subsection \<open>Where the first kernel call stands in the log\<close>

lemma find_first_kernel_call:
  "\<not> list_ex is_kernel_call pre \<Longrightarrow>
     find is_kernel_call (pre @ KernelCall k k' # es) = Some (KernelCall k k')"
  by (induction pre) auto

lemma find_no_kernel_call: "\<not> list_ex is_kernel_call tr \<Longrightarrow> find is_kernel_call tr = None"
  by (induction tr) auto

lemma no_kernel_call_replicate: "\<not> list_ex is_kernel_call (replicate k (ConFunCall xv))"
  by (induction k) auto

lemma initialise_Inr_no_kernel:
  assumes "initialise env ar = Inr (p, s0)"
  shows "\<not> list_ex is_kernel_call (trace s0) \<and> majiter (ks s0) = maxiter ar - 1 \<and>
         p_nb p = make_new_bounds (bounds ar)"
proof -
  from initialise_Inr[OF assms] obtain cs meq_cv mieq_cv wv jwv xlv xuv sf0 where
    p: "p = \<lparr>p_cons = cs, p_nb = make_new_bounds (bounds ar), p_meq_cv = meq_cv,
                 p_mieq_cv = mieq_cv, p_meq = int (sum_list meq_cv),
                 p_mieq = int (sum_list mieq_cv),
                 p_m = int (sum_list meq_cv) + int (sum_list mieq_cv),
                 p_la = max 1 (int (sum_list meq_cv) + int (sum_list mieq_cv)),
                 p_n = int (length (kx (ks s0)))\<rparr>"
    and s: "s0 = \<lparr>ks = \<lparr>kx = kx (ks s0), kxl = xlv, kxu = xuv, kc = [], kg = [],
                         ka = Mat 0 0 [], kacc = ftol ar, majiter = maxiter ar - 1, mode = 0,
                         kw = wv, kjw = jwv,
                         rcells = replicate 10 (Fin 0), icells = replicate 5 0,
                         n1 = 0, n2 = 0, n3 = 0\<rparr>,
                  fx = Fin 0, sf = sf0, majiter_prev = 0,
                  trace = replicate (length (cons_eq cs) + length (cons_ineq cs))
                            (ConFunCall (kx (ks s0))) @ [PrepareCall (kx (ks s0))]\<rparr>"
    by blast
  from arg_cong[OF s, of trace]
  have t: "trace s0 = replicate (length (cons_eq cs) + length (cons_ineq cs))
                            (ConFunCall (kx (ks s0))) @ [PrepareCall (kx (ks s0))]" by simp
  from arg_cong[OF s, of "\<lambda>v. majiter (ks v)"]
  have m: "majiter (ks s0) = maxiter ar - 1" by simp
  from arg_cong[OF p, of p_nb] have n: "p_nb p = make_new_bounds (bounds ar)" by simp
  show ?thesis using m n by (simp add: t no_kernel_call_replicate)
qed

lemma initialise_Inl_no_kernel:
  assumes "initialise env ar = Inl (e, tr)"
  shows "\<not> list_ex is_kernel_call tr"
  using initialise_Inl[OF assms] by (auto simp: no_kernel_call_replicate)

lemma prime_Inr_no_kernel:
  assumes "prime env p s0 = Inr s1" "\<not> list_ex is_kernel_call (trace s0)"
  shows "\<not> list_ex is_kernel_call (trace s1) \<and> majiter (ks s1) = majiter (ks s0)"
  using prime_Inr[OF assms(1)] assms(2) by auto

lemma prime_Inl_no_kernel:
  assumes "prime env p s0 = Inl (e, tr)" "\<not> list_ex is_kernel_call (trace s0)"
  shows "\<not> list_ex is_kernel_call tr"
  using prime_Inl[OF assms(1)] assms(2) by auto

text \<open>
  The log of a run that has ended: either it holds no kernel call (the run failed before
  the loop), or it is the log before the loop, then the first kernel call, on the cells
  that the priming left, then the rest.
\<close>

lemma run_trace_shape:
  assumes "minimize_slsqp env ar = Some r"
  shows "\<not> list_ex is_kernel_call (run_trace r) \<or>
         (\<exists>p s0 s1 k' es. initialise env ar = Inr (p, s0) \<and> prime env p s0 = Inr s1 \<and>
            run_trace r = trace s1 @ KernelCall (ks s1) k' # es)"
proof -
  from minimize_slsqp_cases[OF assms] consider
      (i) e tr where "initialise env ar = Inl (e, tr)" "r = Inl (e, tr)"
    | (p) p s0 e tr where "initialise env ar = Inr (p, s0)" "prime env p s0 = Inl (e, tr)"
        "r = Inl (e, tr)"
    | (l) p s0 s1 e tr where "initialise env ar = Inr (p, s0)" "prime env p s0 = Inr s1"
        "drive_loop env p s1 = Some (Inl (e, tr))" "r = Inl (e, tr)"
    | (f) p s0 s1 s2 where "initialise env ar = Inr (p, s0)" "prime env p s0 = Inr s1"
        "drive_loop env p s1 = Some (Inr s2)" "r = finish env p s2"
    by blast
  then show ?thesis
  proof cases
    case i
    then show ?thesis using initialise_Inl_no_kernel by (simp add: run_trace_def) blast
  next
    case p
    from initialise_Inr_no_kernel[OF p(1)] prime_Inl_no_kernel[OF p(2)] p(3)
    show ?thesis by (simp add: run_trace_def)
  next
    case l
    from drive_loop_result[OF l(3)] obtain es where
      "tr = trace s1 @ KernelCall (ks s1) (kernel env (p_m p) (p_meq p) (fx s1) (ks s1)) # es"
      by blast
    with l show ?thesis by (auto simp: run_trace_def)
  next
    case f
    from drive_loop_result[OF f(3)] obtain es where
      t: "trace s2 = trace s1 @ KernelCall (ks s1) (kernel env (p_m p) (p_meq p) (fx s1) (ks s1)) # es"
      by blast
    have "run_trace (finish env p s2) = trace s2"
      by (cases "finish env p s2")
         (auto simp: run_trace_def dest: finish_Inl finish_Inr)
    with f t show ?thesis by auto
  qed
qed

subsection \<open>The iteration budget\<close>

text \<open>
  Claim C9. The cell \<open>majiter\<close> that the kernel receives at its first call holds
  \<open>maxiter - 1\<close>: the state that the priming leaves has this value, it holds no kernel
  call yet, and the loop starts with a kernel call on its cells; in the log of every run
  that has ended, the first kernel call has \<open>maxiter - 1\<close> in \<open>majiter\<close> on entry.
\<close>

theorem first_kernel_call_budget:
  "(\<forall>p s0 s1. initialise env ar = Inr (p, s0) \<and> prime env p s0 = Inr s1 \<longrightarrow>
       majiter (ks s1) = maxiter ar - 1 \<and> \<not> list_ex is_kernel_call (trace s1) \<and>
       trace (call_kernel env p s1)
         = trace s1 @ [KernelCall (ks s1) (kernel env (p_m p) (p_meq p) (fx s1) (ks s1))]) \<and>
   (\<forall>r k k'. minimize_slsqp env ar = Some r \<and>
       find is_kernel_call (run_trace r) = Some (KernelCall k k') \<longrightarrow>
       majiter k = maxiter ar - 1)"
proof (intro conjI allI impI)
  fix p s0 s1
  assume h: "initialise env ar = Inr (p, s0) \<and> prime env p s0 = Inr s1"
  from h initialise_Inr_no_kernel have a: "\<not> list_ex is_kernel_call (trace s0)"
    "majiter (ks s0) = maxiter ar - 1" by blast+
  from h prime_Inr_no_kernel a(1) have b: "\<not> list_ex is_kernel_call (trace s1)"
    "majiter (ks s1) = majiter (ks s0)" by blast+
  show "majiter (ks s1) = maxiter ar - 1" using a b by simp
  show "\<not> list_ex is_kernel_call (trace s1)" by (rule b)
  show "trace (call_kernel env p s1)
         = trace s1 @ [KernelCall (ks s1) (kernel env (p_m p) (p_meq p) (fx s1) (ks s1))]"
    by (simp add: call_kernel_def Let_def)
next
  fix r k k'
  assume h: "minimize_slsqp env ar = Some r \<and>
       find is_kernel_call (run_trace r) = Some (KernelCall k k')"
  then have m: "minimize_slsqp env ar = Some r"
    and f: "find is_kernel_call (run_trace r) = Some (KernelCall k k')" by simp_all
  from run_trace_shape[OF m] show "majiter k = maxiter ar - 1"
  proof
    assume "\<not> list_ex is_kernel_call (run_trace r)"
    from find_no_kernel_call[OF this] f show ?thesis by simp
  next
    assume "\<exists>p s0 s1 k' es. initialise env ar = Inr (p, s0) \<and> prime env p s0 = Inr s1 \<and>
            run_trace r = trace s1 @ KernelCall (ks s1) k' # es"
    then obtain p s0 s1 k2 es where i: "initialise env ar = Inr (p, s0)"
      and pr: "prime env p s0 = Inr s1"
      and t: "run_trace r = trace s1 @ KernelCall (ks s1) k2 # es" by blast
    from initialise_Inr_no_kernel[OF i] have a: "\<not> list_ex is_kernel_call (trace s0)"
      "majiter (ks s0) = maxiter ar - 1" by simp_all
    from prime_Inr_no_kernel[OF pr a(1)] have b: "\<not> list_ex is_kernel_call (trace s1)"
      "majiter (ks s1) = majiter (ks s0)" by simp_all
    from find_first_kernel_call[OF b(1)] f t have "k = ks s1" by simp
    then show ?thesis using a b by simp
  qed
qed

text \<open>The theorem of C9 in the concrete run, where \<open>maxiter\<close> is 3.\<close>

theorem first_kernel_call_budget_witness:
  "minimize_slsqp example_env example_args = Some (Inr (ex_result, ex_tr1 @ ex_rounds)) \<and>
   find is_kernel_call (run_trace (Inr (ex_result, ex_tr1 @ ex_rounds)))
     = Some (KernelCall ex_k1 ex_ka) \<and>
   majiter ex_k1 = 2 \<and> maxiter example_args = 3"
proof -
  have f: "find is_kernel_call (run_trace (Inr (ex_result, ex_tr1 @ ex_rounds)))
     = Some (KernelCall ex_k1 ex_ka)"
    by (simp add: run_trace_def ex_tr1_def ex_rounds_def)
  note t = first_kernel_call_budget[of example_env example_args, THEN conjunct2, rule_format,
      of "Inr (ex_result, ex_tr1 @ ex_rounds)" ex_k1 ex_ka]
  from t ex_run f have "majiter ex_k1 = maxiter example_args - 1" by blast
  then show ?thesis using ex_run f by simp
qed

subsection \<open>The protocol of the iteration driver\<close>

lemma drive_loop_step:
  assumes "loop_body env p s = Inr s'"
  shows "if \<bar>mode (ks s')\<bar> \<noteq> 1 then drive_loop env p s = Some (Inr s')
         else drive_loop env p s = drive_loop env p (s'\<lparr>majiter_prev := majiter (ks s')\<rparr>)"
proof -
  have "drive_loop env p s =
          (if \<bar>mode (ks s')\<bar> \<noteq> 1 then Some (Inr s')
           else drive_loop env p (s'\<lparr>majiter_prev := majiter (ks s')\<rparr>))"
    by (subst drive_loop.simps) (simp add: assms)
  then show ?thesis by (cases "\<bar>mode (ks s')\<bar> \<noteq> 1") simp_all
qed

lemma drive_loop_protocol:
  assumes "drive_loop env p s = Some (Inr s2)"
  shows "\<bar>mode (ks s2)\<bar> \<noteq> 1 \<and> (\<exists>es. trace s2 = trace s @ es \<and> protocol (p_nb p) es)"
  using drive_loop_result[OF assms] by blast

lemma ex_protocol: "protocol ([Fin 0], [Fin 10]) ex_rounds"
  by (simp add: ex_rounds_def check_clip_x_def ex_clip0)

subsection \<open>Malformed constraint specifications\<close>

lemma triage_one_errors:
  "triage_one env nb cs ic NotSubscriptable = Inl (TypeError MustBeDictionary)"
  "d_type d = None \<Longrightarrow> triage_one env nb cs ic (Dict d) = Inl (KeyError (NoTypeDefined ic))"
  "d_type d = Some TOther \<Longrightarrow> triage_one env nb cs ic (Dict d) = Inl (TypeError TypeMustBeString)"
  "d_type d = Some (TStr s) \<Longrightarrow> py_lower s \<noteq> ''eq'' \<Longrightarrow> py_lower s \<noteq> ''ineq'' \<Longrightarrow>
     triage_one env nb cs ic (Dict d) = Inl (ValueError (UnknownType (TStr s)))"
  "d_type d = Some (TStr s) \<Longrightarrow> py_lower s = ''eq'' \<or> py_lower s = ''ineq'' \<Longrightarrow>
     d_fun d = None \<Longrightarrow>
     triage_one env nb cs ic (Dict d) = Inl (ValueError (NoFunctionDefined ic))"
  by (auto simp: triage_one_def Let_def)

lemma triage_one_configuration_error:
  "triage_one env nb cs ic con = Inl e \<Longrightarrow> configuration_error e"
  by (auto simp: triage_one_def Let_def configuration_error_def
           split: con_obj.splits option.splits type_val.splits if_splits)

lemma triage_one_malformed:
  "malformed con \<Longrightarrow> \<exists>e. triage_one env nb cs ic con = Inl e"
  by (auto simp: triage_one_def Let_def malformed_def
           split: con_obj.splits option.splits type_val.splits if_splits)

lemma triage_malformed:
  "\<exists>con \<in> set cons. malformed con \<Longrightarrow>
     \<exists>e. triage env nb cs ic cons = Inl e \<and> configuration_error e"
proof (induction cons arbitrary: cs ic)
  case Nil
  then show ?case by simp
next
  case (Cons con cons)
  show ?case
  proof (cases "triage_one env nb cs ic con")
    case (Inl e)
    then show ?thesis using triage_one_configuration_error[OF Inl] by (simp add: bind_err_def)
  next
    case (Inr cs')
    then have "\<not> malformed con" using triage_one_malformed[of con env nb cs ic] by auto
    with Cons.prems have "\<exists>c \<in> set cons. malformed c" by simp
    from Cons.IH[OF this, of cs' "Suc ic"] Inr show ?thesis by (simp add: bind_err_def)
  qed
qed

text \<open>
  Claim C6. When some constraint specification of the sequence has no kind, a kind that
  is not \<open>eq\<close> or \<open>ineq\<close> (in any letter case), or no residual function, the run fails
  with an exception and an empty log: nothing has been evaluated. The exception is one
  that lines 67-84 raise (KeyError for a missing kind, TypeError for a kind that is no
  string, ValueError for an unknown kind or a missing function: the spec's
  ConfigurationError) whenever the clipping of line 60, which comes first, has not
  raised.
\<close>

theorem malformed_constraint_rejected:
  assumes "\<exists>con \<in> set (as_sequence (constraints ar)). malformed con"
  shows "\<exists>e. minimize_slsqp env ar = Some (Inl (e, [])) \<and>
             (\<forall>xv. np_clip (x0 ar) (make_new_bounds (bounds ar)) = Inr xv
                \<longrightarrow> configuration_error e)"
proof (cases "np_clip (x0 ar) (make_new_bounds (bounds ar))")
  case (Inl e)
  then have "initialise env ar = Inl (e, [])" by (simp add: initialise_def Let_def)
  then show ?thesis using Inl by (simp add: minimize_slsqp_def)
next
  case (Inr xv)
  from triage_malformed[OF assms] obtain e where
    t: "triage env (make_new_bounds (bounds ar)) \<lparr>cons_eq = [], cons_ineq = []\<rparr> 0
          (as_sequence (constraints ar)) = Inl e" and c: "configuration_error e" by blast
  from Inr t have "initialise env ar = Inl (e, [])" by (simp add: initialise_def Let_def)
  then show ?thesis using c by (simp add: minimize_slsqp_def)
qed

text \<open>The theorem of C6 for a constraint without the key \<open>type\<close>.\<close>

theorem malformed_constraint_rejected_witness:
  "malformed (Dict (example_con\<lparr>d_type := None\<rparr>)) \<and>
   np_clip (x0 untyped_args) (make_new_bounds (bounds untyped_args)) = Inr [Fin 0] \<and>
   minimize_slsqp example_env untyped_args = Some (Inl (KeyError (NoTypeDefined 0), []))"
proof -
  have m: "malformed (Dict (example_con\<lparr>d_type := None\<rparr>))" by (simp add: malformed_def)
  have s: "as_sequence (constraints untyped_args) = [Dict (example_con\<lparr>d_type := None\<rparr>)]"
    by (simp add: untyped_args_def as_sequence_def)
  have c: "np_clip (x0 untyped_args) (make_new_bounds (bounds untyped_args)) = Inr [Fin 0]"
    by (simp add: untyped_args_def ex_nb ex_clip)
  have h: "\<exists>con \<in> set (as_sequence (constraints untyped_args)). malformed con"
    using m s by simp
  from malformed_constraint_rejected[OF h, of example_env] obtain e where
    e: "minimize_slsqp example_env untyped_args = Some (Inl (e, []))" by blast
  have "initialise example_env untyped_args = Inl (KeyError (NoTypeDefined 0), [])"
    using c s by (simp add: initialise_def Let_def bind_err_def triage_one_errors)
  then have "minimize_slsqp example_env untyped_args = Some (Inl (KeyError (NoTypeDefined 0), []))"
    by (simp add: minimize_slsqp_def)
  with e m c show ?thesis by simp
qed

subsection \<open>Bounds whose number differs from the number of variables\<close>

lemma mm_nb:
  "make_new_bounds (Some [(Some (Fin 0), Some (Fin 1)), (Some (Fin 0), Some (Fin 1))])
     = ([Fin 0, Fin 0], [Fin 1, Fin 1])"
  by (simp add: make_new_bounds_def old_bound_to_new_def)

lemma mm_clip: "np_clip [Fin 5] ([Fin 0, Fin 0], [Fin 1, Fin 1]) = Inr [Fin 1, Fin 1]"
  by (simp add: np_clip_def broadcast_len_def broadcast_to_def npy_clip_def npy_max_def
        npy_min_def fl_isnan_def numeral_2_eq_2)

lemma mm_clip1: "np_clip [Fin 1, Fin 1] ([Fin 0, Fin 0], [Fin 1, Fin 1]) = Inr [Fin 1, Fin 1]"
  by (simp add: np_clip_def broadcast_len_def broadcast_to_def npy_clip_def npy_max_def
        npy_min_def fl_isnan_def)

lemma mm_len: "len_w 2 0 0 = 129" "len_jw 2 0 0 = 6"
  by (simp_all add: len_w_def len_jw_def Let_def)

lemma mm_bounds:
  "decompose_bounds (Some [(Some (Fin 0), Some (Fin 1)), (Some (Fin 0), Some (Fin 1))])
     (Suc (Suc 0))
    = Inr ([Fin 0, Fin 0], [Fin 1, Fin 1])"
  by (simp add: decompose_bounds_def Let_def bound_scalar_def mark_infinite_def fl_isfinite_def)

lemma mm_init: "initialise (example_env_with kf) mismatch_args = Inr (mm_problem, mm_s0)"
  by (simp add: initialise_def mismatch_args_def mm_nb mm_clip as_sequence_def bind_err_def
        Let_def mm_len np_zeros_def mm_bounds to_int64_def mm_problem_def mm_s0_def mm_k0_def)

lemma mm_problem_simps [simp]:
  "p_cons mm_problem = \<lparr>cons_eq = [], cons_ineq = []\<rparr>"
  "p_nb mm_problem = ([Fin 0, Fin 0], [Fin 1, Fin 1])"
  "p_meq_cv mm_problem = []" "p_mieq_cv mm_problem = []"
  "p_meq mm_problem = 0" "p_mieq mm_problem = 0" "p_m mm_problem = 0"
  "p_la mm_problem = 1" "p_n mm_problem = 2"
  by (simp_all add: mm_problem_def)

lemma mm_normals:
  "eval_con_normals xv \<lparr>cons_eq = [], cons_ineq = []\<rparr> 1 2 0 0 0
     = Inr (Mat 1 3 [[Fin 0, Fin 0, Fin 0]])"
  using eval_con_normals_none[of xv 2] by (simp add: numeral_3_eq_3 numeral_2_eq_2)

lemma mm_prime: "prime (example_env_with kf) mm_problem mm_s0 = Inr mm_s1"
  by (simp add: prime_def bind_err_def wrapped_fun_def wrapped_grad_def call_eval_constraint_def
        call_eval_con_normals_def check_clip_x_def mm_clip1 eval_constraint_none mm_normals
        mm_s0_def mm_k0_def mm_s1_def mm_k1_def mm_tr1_def)

lemma mm_kernel: "example_kernel m meq f mm_k1 = mm_k1"
  by (simp add: example_kernel_def mm_k1_def mm_k0_def)

lemma mm_body: "loop_body example_env mm_problem mm_s1 = Inr mm_s2"
  by (simp add: loop_body_def call_kernel_def bind_err_def Let_def example_env_def mm_kernel
        mm_s1_def mm_s2_def)
     (simp add: mm_k1_def mm_k0_def)

lemma mm_loop: "drive_loop example_env mm_problem mm_s1 = Some (Inr mm_s2)"
  by (subst drive_loop.simps) (simp add: mm_body, simp add: mm_s2_def mm_k1_def mm_k0_def)

lemma mm_kkt: "kkt_multipliers (replicate 129 (Fin 0)) 1 0 2 0 [] [] = ([], [])"
  by (simp add: kkt_multipliers_def kkt_split_def Let_def)

lemma mm_finish: "finish example_env mm_problem mm_s2 = Inr (mm_result, mm_tr1 @ [KernelCall mm_k1 mm_k1])"
  by (simp add: finish_def Let_def ex_exit mm_result_def example_env_def mm_s2_def mm_k1_def
        mm_k0_def mm_kkt)

lemma mm_run:
  "minimize_slsqp example_env mismatch_args
     = Some (Inr (mm_result, mm_tr1 @ [KernelCall mm_k1 mm_k1]))"
  by (simp add: minimize_slsqp_def mm_init[of example_kernel, folded example_env_def]
        mm_prime[of example_kernel, folded example_env_def] mm_loop mm_finish)

text \<open>
  What does hold of the bounds: with as many bound pairs as variables, a pair whose lower
  bound exceeds its upper bound makes line 165 raise ValueError, and whatever is raised,
  the run fails before any kernel call.
\<close>

lemma decompose_bounds_lb_gt_ub:
  assumes "bs \<noteq> []" "length bs = n"
    and "\<exists>(l, u) \<in> set bs. fl_less (bound_scalar u) (bound_scalar l)"
  shows "decompose_bounds (Some bs) n
           = Inl (ValueError (LbGtUb (map (\<lambda>(l, u). fl_less (bound_scalar u) (bound_scalar l)) bs)))"
proof -
  have m: "map (\<lambda>(l, u). fl_less u l) (map (\<lambda>(l, u). (bound_scalar l, bound_scalar u)) bs)
      = map (\<lambda>(l, u). fl_less (bound_scalar u) (bound_scalar l)) bs"
    by (induction bs) auto
  have "list_ex (\<lambda>b. b) (map (\<lambda>(l, u). fl_less (bound_scalar u) (bound_scalar l)) bs)"
    using assms(3) by (force simp: list_ex_iff)
  then have "list_ex (\<lambda>b. b) (map (\<lambda>(l, u). fl_less u l)
          (map (\<lambda>(l, u). (bound_scalar l, bound_scalar u)) bs))"
    by (simp only: m)
  moreover have "map (\<lambda>(l, u). fl_less u l) (map (\<lambda>(l, u). (bound_scalar l, bound_scalar u)) bs)
      = map (\<lambda>(l, u). fl_less (bound_scalar u) (bound_scalar l)) bs"
    by (induction bs) auto
  moreover have n: "n = length bs" using assms(2) by simp
  ultimately show ?thesis unfolding n using assms(1) by (simp add: decompose_bounds_def Let_def)
qed

lemma lb_gt_ub_fails_before_kernel:
  assumes "bounds ar = Some bs" "bs \<noteq> []" "length bs = length (x0 ar)"
    and "\<exists>(l, u) \<in> set bs. fl_less (bound_scalar u) (bound_scalar l)"
  shows "\<exists>e tr. minimize_slsqp env ar = Some (Inl (e, tr)) \<and> \<not> list_ex is_kernel_call tr"
proof (cases "initialise env ar")
  case (Inl et)
  obtain e tr where "et = (e, tr)" by (cases et)
  with Inl initialise_Inl_no_kernel[of env ar e tr] show ?thesis
    by (simp add: minimize_slsqp_def)
next
  case (Inr ps)
  obtain p s0 where i: "initialise env ar = Inr (p, s0)" using Inr by (cases ps) simp
  from initialise_Inr[OF i] obtain xlv xuv where
    c: "np_clip (x0 ar) (make_new_bounds (bounds ar)) = Inr (kx (ks s0))"
    and d: "decompose_bounds (bounds ar) (length (kx (ks s0))) = Inr (xlv, xuv)" by blast
  have nb: "make_new_bounds (bounds ar) = old_bound_to_new bs"
    using assms(1,2) by (simp add: make_new_bounds_def)
  have "length (kx (ks s0)) = length (x0 ar)"
    using c assms(3) np_clip_same_length[of "fst (old_bound_to_new bs)" "x0 ar"
        "snd (old_bound_to_new bs)"]
    by (auto simp: nb old_bound_to_new_def)
  with d assms decompose_bounds_lb_gt_ub[of bs "length (x0 ar)"] show ?thesis by simp
qed

text \<open>
  Claim C7 at \<open>x0 = [5.0]\<close> with the two bounds \<open>[(0, 1), (0, 1)]\<close>: one variable, two
  bound pairs. \<^verbatim>\<open>np.clip\<close> of line 60 broadcasts the iterate to length 2 before line 136
  reads \<open>n = len(x)\<close>, so the check of line 158 compares 2 with 2: no exception is raised,
  the kernel is called with two variables, and the run returns a result whose \<open>x\<close> has
  two components.
\<close>

theorem bounds_length_mismatch_accepted:
  "length (x0 mismatch_args) = 1 \<and>
   bounds mismatch_args = Some [(Some (Fin 0), Some (Fin 1)), (Some (Fin 0), Some (Fin 1))] \<and>
   minimize_slsqp example_env mismatch_args
     = Some (Inr (mm_result, mm_tr1 @ [KernelCall mm_k1 mm_k1])) \<and>
   res_x mm_result = [Fin 1, Fin 1] \<and> success mm_result \<and>
   list_ex is_kernel_call (mm_tr1 @ [KernelCall mm_k1 mm_k1])"
  by (simp add: mm_run) (simp add: mismatch_args_def mm_result_def)

subsection \<open>The clipped initial iterate\<close>

lemma npy_clip_unbounded: "npy_clip v NegInf PosInf = v"
  by (cases v) (simp_all add: npy_clip_def npy_max_def npy_min_def fl_isnan_def)

lemma np_clip_unbounded: "np_clip xs ([NegInf], [PosInf]) = Inr xs"
proof -
  have "map (\<lambda>(v, lo, hi). npy_clip v lo hi)
          (zip xs (zip (replicate (length xs) NegInf) (replicate (length xs) PosInf))) = xs"
    by (intro nth_equalityI) (simp_all add: npy_clip_unbounded)
  moreover have "broadcast_to (length xs) [NegInf] = replicate (length xs) NegInf"
    "broadcast_to (length xs) [PosInf] = replicate (length xs) PosInf"
    by (cases xs; simp add: broadcast_to_def)+
  moreover have "broadcast_len (length xs) 1 = Some (length xs)"
    by (simp add: broadcast_len_def)
  ultimately show ?thesis
    by (simp add: np_clip_def broadcast_len_def broadcast_to_def)
qed

lemma wrapped_fun_Inl_point:
  "wrapped_fun env p s = Inl (e, tr) \<Longrightarrow>
     tr = trace s \<or> (\<exists>y. check_clip_x (kx (ks s)) (p_nb p) = Inr y \<and> tr = trace s @ [FunCall y])"
  by (auto simp: wrapped_fun_def split: sum.splits prod.splits)

lemma wrapped_grad_Inl_point:
  "wrapped_grad env p s = Inl (e, tr) \<Longrightarrow>
     tr = trace s \<or> (\<exists>y. check_clip_x (kx (ks s)) (p_nb p) = Inr y \<and> tr = trace s @ [GradCall y])"
  by (auto simp: wrapped_grad_def split: sum.splits prod.splits)

lemma call_eval_constraint_Inl_point:
  "call_eval_constraint p s = Inl (e, tr) \<Longrightarrow> tr = trace s @ [ConstraintCall (kx (ks s))]"
  by (auto simp: call_eval_constraint_def split: sum.splits)

lemma call_eval_con_normals_Inl_point:
  "call_eval_con_normals p s = Inl (e, tr) \<Longrightarrow> tr = trace s @ [NormalsCall (kx (ks s))]"
  by (auto simp: call_eval_con_normals_def split: sum.splits)

lemma prime_Inl_point:
  assumes "prime env p s = Inl (e, tr)"
    and c: "check_clip_x (kx (ks s)) (p_nb p) = Inr (kx (ks s))"
  shows "\<exists>es. tr = trace s @ es \<and> list_all (\<lambda>ev. event_point ev = Some (kx (ks s))) es"
proof (cases "wrapped_fun env p s")
  case (Inl et)
  with assms(1) have "wrapped_fun env p s = Inl (e, tr)" by (simp add: prime_def bind_err_def)
  from wrapped_fun_Inl_point[OF this] c show ?thesis by auto
next
  case a1: (Inr s1)
  from wrapped_fun_Inr[OF a1] c obtain v u where
    s1: "s1 = s\<lparr>fx := v, sf := u, trace := trace s @ [FunCall (kx (ks s))]\<rparr>" by auto
  have c1: "check_clip_x (kx (ks s1)) (p_nb p) = Inr (kx (ks s))" using c by (simp add: s1)
  show ?thesis
  proof (cases "wrapped_grad env p s1")
    case (Inl et)
    with assms(1) a1 have "wrapped_grad env p s1 = Inl (e, tr)"
      by (simp add: prime_def bind_err_def)
    from wrapped_grad_Inl_point[OF this] c1 show ?thesis by (auto simp: s1)
  next
    case a2: (Inr s2)
    from wrapped_grad_Inr[OF a2] c1 obtain gv u' where
      s2: "s2 = s1\<lparr>ks := (ks s1)\<lparr>kg := gv @ [Fin 0]\<rparr>, sf := u',
                      trace := trace s1 @ [GradCall (kx (ks s))]\<rparr>" by auto
    show ?thesis
    proof (cases "call_eval_constraint p s2")
      case (Inl et)
      with assms(1) a1 a2 have "call_eval_constraint p s2 = Inl (e, tr)"
        by (simp add: prime_def bind_err_def)
      from call_eval_constraint_Inl_point[OF this] show ?thesis by (simp add: s1 s2)
    next
      case a3: (Inr s3)
      from call_eval_constraint_Inr[OF a3] obtain cv where
        s3: "s3 = s2\<lparr>ks := (ks s2)\<lparr>kc := cv\<rparr>,
                        trace := trace s2 @ [ConstraintCall (kx (ks s2))]\<rparr>" by blast
      from assms(1) a1 a2 a3 have "call_eval_con_normals p s3 = Inl (e, tr)"
        by (simp add: prime_def bind_err_def)
      from call_eval_con_normals_Inl_point[OF this] show ?thesis by (simp add: s1 s2 s3)
    qed
  qed
qed

lemma initialise_Inr_point:
  assumes "initialise env ar = Inr (p, s0)"
  shows "np_clip (x0 ar) (make_new_bounds (bounds ar)) = Inr (kx (ks s0)) \<and>
         check_clip_x (kx (ks s0)) (p_nb p) = Inr (kx (ks s0)) \<and>
         trace s0 \<noteq> [] \<and>
         list_all (\<lambda>ev. event_point ev = Some (kx (ks s0))) (trace s0)"
proof -
  from initialise_Inr[OF assms]
  have c: "np_clip (x0 ar) (make_new_bounds (bounds ar)) = Inr (kx (ks s0))" by blast
  from initialise_Inr[OF assms] obtain cs meq_cv mieq_cv wv jwv xlv xuv sf0 where
    p: "p = \<lparr>p_cons = cs, p_nb = make_new_bounds (bounds ar), p_meq_cv = meq_cv,
                 p_mieq_cv = mieq_cv, p_meq = int (sum_list meq_cv),
                 p_mieq = int (sum_list mieq_cv),
                 p_m = int (sum_list meq_cv) + int (sum_list mieq_cv),
                 p_la = max 1 (int (sum_list meq_cv) + int (sum_list mieq_cv)),
                 p_n = int (length (kx (ks s0)))\<rparr>"
    and s: "s0 = \<lparr>ks = \<lparr>kx = kx (ks s0), kxl = xlv, kxu = xuv, kc = [], kg = [],
                         ka = Mat 0 0 [], kacc = ftol ar, majiter = maxiter ar - 1, mode = 0,
                         kw = wv, kjw = jwv,
                         rcells = replicate 10 (Fin 0), icells = replicate 5 0,
                         n1 = 0, n2 = 0, n3 = 0\<rparr>,
                  fx = Fin 0, sf = sf0, majiter_prev = 0,
                  trace = replicate (length (cons_eq cs) + length (cons_ineq cs))
                            (ConFunCall (kx (ks s0))) @ [PrepareCall (kx (ks s0))]\<rparr>"
    by blast
  from arg_cong[OF s, of trace]
  have t: "trace s0 = replicate (length (cons_eq cs) + length (cons_ineq cs))
                            (ConFunCall (kx (ks s0))) @ [PrepareCall (kx (ks s0))]" by simp
  from initialise_Inr_no_kernel[OF assms] have nb: "p_nb p = make_new_bounds (bounds ar)"
    by simp
  from np_clip_idem[OF c] have "check_clip_x (kx (ks s0)) (p_nb p) = Inr (kx (ks s0))"
    by (simp add: check_clip_x_def nb)
  then show ?thesis using c by (simp add: t list_all_iff)
qed

lemma prime_Inr_point:
  assumes "initialise env ar = Inr (p, s0)" "prime env p s0 = Inr s1"
  shows "trace s1 = trace s0 @ [FunCall (kx (ks s0)), GradCall (kx (ks s0)),
                                ConstraintCall (kx (ks s0)), NormalsCall (kx (ks s0))]"
  using prime_Inr[OF assms(2)] initialise_Inr_point[OF assms(1)] by auto

lemma takeWhile_before_kernel:
  "\<not> list_ex is_kernel_call pre \<Longrightarrow>
     takeWhile (\<lambda>ev. \<not> is_kernel_call ev) (pre @ KernelCall k k' # es) = pre"
  by (induction pre) auto

text \<open>Every call before the first kernel call is made at the clipped initial point.\<close>

lemma calls_before_kernel:
  assumes "minimize_slsqp env ar = Some r"
    and "ev \<in> set (takeWhile (\<lambda>ev. \<not> is_kernel_call ev) (run_trace r))"
  shows "\<exists>xc. np_clip (x0 ar) (make_new_bounds (bounds ar)) = Inr xc \<and> event_point ev = Some xc"
proof -
  from minimize_slsqp_cases[OF assms(1)] consider
      (i) e tr where "initialise env ar = Inl (e, tr)" "r = Inl (e, tr)"
    | (p) p s0 e tr where "initialise env ar = Inr (p, s0)" "prime env p s0 = Inl (e, tr)"
        "r = Inl (e, tr)"
    | (l) p s0 s1 where "initialise env ar = Inr (p, s0)" "prime env p s0 = Inr s1"
        "\<exists>k' es. run_trace r = trace s1 @ KernelCall (ks s1) k' # es"
  proof -
    assume a: "\<And>e tr. initialise env ar = Inl (e, tr) \<Longrightarrow> r = Inl (e, tr) \<Longrightarrow> thesis"
      and b: "\<And>p s0 e tr. initialise env ar = Inr (p, s0) \<Longrightarrow> prime env p s0 = Inl (e, tr) \<Longrightarrow>
                r = Inl (e, tr) \<Longrightarrow> thesis"
      and c: "\<And>p s0 s1. initialise env ar = Inr (p, s0) \<Longrightarrow> prime env p s0 = Inr s1 \<Longrightarrow>
                \<exists>k' es. run_trace r = trace s1 @ KernelCall (ks s1) k' # es \<Longrightarrow> thesis"
    from minimize_slsqp_cases[OF assms(1)] show thesis
    proof (elim disjE exE conjE)
      fix e tr assume "initialise env ar = Inl (e, tr)" "r = Inl (e, tr)"
      then show thesis by (rule a)
    next
      fix p s0 e tr
      assume "initialise env ar = Inr (p, s0)" "prime env p s0 = Inl (e, tr)" "r = Inl (e, tr)"
      then show thesis by (rule b)
    next
      fix p s0 s1 e tr
      assume i: "initialise env ar = Inr (p, s0)" and pr: "prime env p s0 = Inr s1"
        and l: "drive_loop env p s1 = Some (Inl (e, tr))" and r: "r = Inl (e, tr)"
      from drive_loop_result[OF l] r
      have "\<exists>k' es. run_trace r = trace s1 @ KernelCall (ks s1) k' # es"
        by (auto simp: run_trace_def)
      with i pr show thesis by (rule c)
    next
      fix p s0 s1 s2
      assume i: "initialise env ar = Inr (p, s0)" and pr: "prime env p s0 = Inr s1"
        and l: "drive_loop env p s1 = Some (Inr s2)" and r: "r = finish env p s2"
      have "run_trace (finish env p s2) = trace s2"
        by (cases "finish env p s2") (auto simp: run_trace_def dest: finish_Inl finish_Inr)
      with drive_loop_result[OF l] r
      have "\<exists>k' es. run_trace r = trace s1 @ KernelCall (ks s1) k' # es" by auto
      with i pr show thesis by (rule c)
    qed
  qed
  then show ?thesis
  proof cases
    case i
    from assms(2) have m: "ev \<in> set tr" using i(2) by (auto simp: run_trace_def dest: set_takeWhileD)
    from initialise_Inl[OF i(1)] m show ?thesis by auto
  next
    case p
    from initialise_Inr_point[OF p(1)] have c: "np_clip (x0 ar) (make_new_bounds (bounds ar)) = Inr (kx (ks s0))"
      and cc: "check_clip_x (kx (ks s0)) (p_nb p) = Inr (kx (ks s0))"
      and t0: "list_all (\<lambda>ev. event_point ev = Some (kx (ks s0))) (trace s0)" by simp_all
    from prime_Inl_point[OF p(2) cc] obtain es where "tr = trace s0 @ es"
      and "list_all (\<lambda>ev. event_point ev = Some (kx (ks s0))) es" by blast
    with t0 have "list_all (\<lambda>ev. event_point ev = Some (kx (ks s0))) tr" by simp
    moreover from assms(2) have "ev \<in> set tr" using p(3)
      by (auto simp: run_trace_def dest: set_takeWhileD)
    ultimately show ?thesis using c by (auto simp: list_all_iff)
  next
    case l
    from initialise_Inr_point[OF l(1)] have c: "np_clip (x0 ar) (make_new_bounds (bounds ar)) = Inr (kx (ks s0))"
      and t0: "list_all (\<lambda>ev. event_point ev = Some (kx (ks s0))) (trace s0)" by simp_all
    note t1 = prime_Inr_point[OF l(1) l(2)]
    have a1: "list_all (\<lambda>ev. event_point ev = Some (kx (ks s0))) (trace s1)"
      using t0 by (simp add: t1)
    have nk: "\<not> list_ex is_kernel_call (trace s1)"
      using initialise_Inr_no_kernel[OF l(1)] prime_Inr_no_kernel[OF l(2)] by simp
    from l(3) obtain k' es where "run_trace r = trace s1 @ KernelCall (ks s1) k' # es" by blast
    with takeWhile_before_kernel[OF nk] assms(2) have "ev \<in> set (trace s1)" by simp
    with a1 c show ?thesis by (auto simp: list_all_iff)
  qed
qed

lemma first_call_not_kernel:
  assumes "minimize_slsqp env ar = Some r" "run_trace r = ev # es"
  shows "\<not> is_kernel_call ev"
proof -
  from run_trace_shape[OF assms(1)] show ?thesis
  proof
    assume "\<not> list_ex is_kernel_call (run_trace r)"
    then show ?thesis by (simp add: assms(2))
  next
    assume "\<exists>p s0 s1 k' es. initialise env ar = Inr (p, s0) \<and> prime env p s0 = Inr s1 \<and>
            run_trace r = trace s1 @ KernelCall (ks s1) k' # es"
    then obtain p s0 s1 k' es' where i: "initialise env ar = Inr (p, s0)"
      and pr: "prime env p s0 = Inr s1"
      and t: "run_trace r = trace s1 @ KernelCall (ks s1) k' # es'" by blast
    have nk: "\<not> list_ex is_kernel_call (trace s1)"
      using initialise_Inr_no_kernel[OF i] prime_Inr_no_kernel[OF pr] by simp
    have "trace s1 \<noteq> []" using prime_Inr_point[OF i pr] by simp
    then obtain e1 rest where "trace s1 = e1 # rest" by (cases "trace s1") auto
    with t assms(2) nk show ?thesis by auto
  qed
qed

lemma np_clip_same_length_nth:
  assumes "bs \<noteq> []" "length bs = length xs"
  shows "\<exists>xc. np_clip xs (make_new_bounds (Some bs)) = Inr xc \<and> length xc = length xs \<and>
           (\<forall>i < length xc.
              xc ! i = npy_clip (xs ! i) (case fst (bs ! i) of None \<Rightarrow> NegInf | Some v \<Rightarrow> v)
                         (case snd (bs ! i) of None \<Rightarrow> PosInf | Some v \<Rightarrow> v))"
proof -
  have nb: "make_new_bounds (Some bs) = old_bound_to_new bs"
    using assms(1) by (simp add: make_new_bounds_def)
  have "np_clip xs (old_bound_to_new bs)
          = Inr (map (\<lambda>(v, lo, hi). npy_clip v lo hi)
                   (zip xs (zip (fst (old_bound_to_new bs)) (snd (old_bound_to_new bs)))))"
    using np_clip_same_length[of "fst (old_bound_to_new bs)" xs "snd (old_bound_to_new bs)"]
      assms(2) by (simp add: old_bound_to_new_def)
  moreover have "length (fst (old_bound_to_new bs)) = length xs"
    "length (snd (old_bound_to_new bs)) = length xs"
    using assms(2) by (simp_all add: old_bound_to_new_def)
  moreover have "fst (old_bound_to_new bs) ! i = (case fst (bs ! i) of None \<Rightarrow> NegInf | Some v \<Rightarrow> v)"
    "snd (old_bound_to_new bs) ! i = (case snd (bs ! i) of None \<Rightarrow> PosInf | Some v \<Rightarrow> v)"
    if "i < length bs" for i
    using that by (simp_all add: old_bound_to_new_def split_beta)
  ultimately show ?thesis using assms(2) by (simp add: nb)
qed

subsection \<open>The multipliers of a run\<close>

lemma residual_dims_values:
  "residual_dims xv cs tr = Inr (ds, tr') \<Longrightarrow>
     \<exists>rs. map_err (\<lambda>con. c_fun con xv) cs = Inr rs \<and> ds = map length rs"
proof (induction cs arbitrary: tr ds tr')
  case Nil
  then show ?case by simp
next
  case (Cons con cs)
  from Cons.prems obtain r ds0 where r: "c_fun con xv = Inr r"
    and rec: "residual_dims xv cs (tr @ [ConFunCall xv]) = Inr (ds0, tr')"
    and ds: "ds = length r # ds0"
    by (auto simp: bind_err_def split: sum.splits prod.splits)
  from Cons.IH[OF rec] obtain rs where "map_err (\<lambda>con. c_fun con xv) cs = Inr rs"
    and "ds0 = map length rs" by blast
  then show ?case using r ds by (simp add: bind_err_def)
qed

text \<open>
  What the set-up has computed when it raises nothing: the residual dimensions are the
  lengths of the constraint functions' values at the clipped point, the adapter is the one
  prepared at that point, and the workspace has the length of line 141.
\<close>

lemma initialise_Inr_values:
  assumes "initialise env ar = Inr (p, s0)"
  shows "\<exists>rs_eq rs_ineq.
           map_err (\<lambda>con. c_fun con (kx (ks s0))) (cons_eq (p_cons p)) = Inr rs_eq \<and>
           p_meq_cv p = map length rs_eq \<and>
           map_err (\<lambda>con. c_fun con (kx (ks s0))) (cons_ineq (p_cons p)) = Inr rs_ineq \<and>
           p_mieq_cv p = map length rs_ineq \<and>
           prepare_scalar_function env (kx (ks s0)) (p_nb p) = Inr (sf s0) \<and>
           p_meq p = int (sum_list (p_meq_cv p)) \<and>
           p_mieq p = int (sum_list (p_mieq_cv p)) \<and>
           p_m p = p_meq p + p_mieq p \<and>
           p_la p = max 1 (p_m p) \<and>
           p_n p = int (length (kx (ks s0))) \<and>
           0 \<le> len_w (p_n p) (p_m p) (p_meq p) \<and>
           kw (ks s0) = replicate (nat (len_w (p_n p) (p_m p) (p_meq p))) (Fin 0)"
proof -
  define nb where "nb = make_new_bounds (bounds ar)"
  from assms obtain xv where xv: "np_clip (x0 ar) nb = Inr xv"
    by (auto simp: initialise_def Let_def nb_def split: sum.splits)
  from assms xv obtain cs where cs: "triage env nb \<lparr>cons_eq = [], cons_ineq = []\<rparr> 0
              (as_sequence (constraints ar)) = Inr cs"
    by (auto simp: initialise_def Let_def nb_def split: sum.splits)
  from assms xv cs obtain meq_cv tr1 where r1: "residual_dims xv (cons_eq cs) [] = Inr (meq_cv, tr1)"
    by (cases "residual_dims xv (cons_eq cs) []")
       (auto simp: initialise_def Let_def nb_def bind_err_def)
  from assms xv cs r1 obtain mieq_cv tr2 where
    r2: "residual_dims xv (cons_ineq cs) tr1 = Inr (mieq_cv, tr2)"
    by (cases "residual_dims xv (cons_ineq cs) tr1")
       (auto simp: initialise_def Let_def nb_def bind_err_def)
  from residual_dims_values[OF r1] obtain rs_eq where
    e: "map_err (\<lambda>con. c_fun con xv) (cons_eq cs) = Inr rs_eq" "meq_cv = map length rs_eq" by blast
  from residual_dims_values[OF r2] obtain rs_ineq where
    i: "map_err (\<lambda>con. c_fun con xv) (cons_ineq cs) = Inr rs_ineq" "mieq_cv = map length rs_ineq"
    by blast
  from assms xv cs r1 r2 e i show ?thesis
    unfolding initialise_def Let_def nb_def[symmetric]
    by (auto simp: bind_err_def np_zeros_def split: sum.splits prod.splits if_splits)
qed

lemma py_slice_length_le:
  assumes "0 \<le> m"
  shows "length (py_slice xs a (a + m)) \<le> nat m"
  using assms by (auto simp: py_slice_def slice_bound_def Let_def min_def max_def)

lemma map_length_spans_of_iff:
  "map length (spans_of xs ds) = ds \<longleftrightarrow> sum_list ds \<le> length xs"
proof
  assume h: "map length (spans_of xs ds) = ds"
  have "length (concat (spans_of xs ds)) = sum_list (map length (spans_of xs ds))"
    by (simp add: length_concat)
  with h have "length (take (sum_list ds) xs) = sum_list ds" by (simp add: concat_spans_of)
  then show "sum_list ds \<le> length xs" by simp
next
  assume "sum_list ds \<le> length xs"
  then show "map length (spans_of xs ds) = ds" by (rule map_length_spans_of)
qed

lemma kkt_multipliers_spans:
  "kkt_multipliers wv la n1v n m meq_cv mieq_cv =
     (spans_of (py_slice wv (kkt_offset la n1v n) (kkt_offset la n1v n + m)) meq_cv,
      spans_of (drop (sum_list meq_cv) (py_slice wv (kkt_offset la n1v n) (kkt_offset la n1v n + m)))
        mieq_cv)"
  by (simp add: kkt_multipliers_def Let_def kkt_split_spans)

lemma finish_kkt:
  "finish env p s = Inr (r, tr) \<Longrightarrow>
     kkt r = kkt_multipliers (kw (ks s)) (p_la p) (n1 (ks s)) (p_n p) (p_m p) (p_meq_cv p)
               (p_mieq_cv p)"
  by (auto simp: finish_def Let_def split: option.splits)

lemma registered_Cons: "registered kind (con # rest) = registered kind [con] @ registered kind rest"
  by (simp add: registered_def map_filter_simps split: option.splits)

lemma triage_one_registered:
  assumes "triage_one env nb cs ic con = Inr cs'"
  shows "map c_fun (cons_eq cs') = map c_fun (cons_eq cs) @ registered ''eq'' [con] \<and>
         map c_fun (cons_ineq cs') = map c_fun (cons_ineq cs) @ registered ''ineq'' [con]"
  using assms
  by (auto simp: triage_one_def registered_def map_filter_simps Let_def
           split: con_obj.splits option.splits type_val.splits if_splits)

text \<open>The triage keeps the constraints of each kind in the order of registration.\<close>

lemma triage_registered:
  "triage env nb cs ic cons = Inr cs' \<Longrightarrow>
     map c_fun (cons_eq cs') = map c_fun (cons_eq cs) @ registered ''eq'' cons \<and>
     map c_fun (cons_ineq cs') = map c_fun (cons_ineq cs) @ registered ''ineq'' cons"
proof (induction cons arbitrary: cs ic)
  case Nil
  then show ?case by (simp add: registered_def map_filter_simps)
next
  case (Cons con rest)
  from Cons.prems obtain cs1 where a: "triage_one env nb cs ic con = Inr cs1"
    and b: "triage env nb cs1 (Suc ic) rest = Inr cs'"
    by (auto dest: bind_err_Inr)
  from triage_one_registered[OF a] Cons.IH[OF b] show ?case
    by (simp add: registered_Cons[of _ con rest])
qed

lemma initialise_registered:
  assumes "initialise env ar = Inr (p, s0)"
  shows "map c_fun (cons_eq (p_cons p)) = registered ''eq'' (as_sequence (constraints ar)) \<and>
         map c_fun (cons_ineq (p_cons p)) = registered ''ineq'' (as_sequence (constraints ar))"
proof -
  from initialise_Inr[OF assms] obtain cs meq_cv mieq_cv where
    t: "triage env (make_new_bounds (bounds ar)) \<lparr>cons_eq = [], cons_ineq = []\<rparr> 0
              (as_sequence (constraints ar)) = Inr cs"
    and p: "p = \<lparr>p_cons = cs, p_nb = make_new_bounds (bounds ar), p_meq_cv = meq_cv,
                 p_mieq_cv = mieq_cv, p_meq = int (sum_list meq_cv),
                 p_mieq = int (sum_list mieq_cv),
                 p_m = int (sum_list meq_cv) + int (sum_list mieq_cv),
                 p_la = max 1 (int (sum_list meq_cv) + int (sum_list mieq_cv)),
                 p_n = int (length (kx (ks s0)))\<rparr>"
    by blast
  from arg_cong[OF p, of p_cons] have pc: "p_cons p = cs" by simp
  from triage_registered[OF t] show ?thesis by (simp add: pc)
qed

text \<open>
  Claim C1, as the code has it. In every run that returns a result, the multipliers
  returned under \<open>eq\<close> and
  \<open>ineq\<close> are cut from the slice \<open>w[ir:ir + m]\<close> of the real workspace as the kernel
  left it: one span per equality constraint in registration order, then one span per
  inequality constraint in registration order, each starting where the one before it
  ends, so the spans are consecutive and disjoint, and their concatenation is the slice.
  The constraints of each kind are those the caller has given, in the order given.
  The recorded residual dimensions are the lengths of the constraint functions' values at
  the initial iterate and add up to \<open>m\<close>. Python's slicing yields at most \<open>m\<close> cells, and
  every span has the length of its constraint's recorded dimension exactly when it
  yields \<open>m\<close> cells, which it does when the kernel has left \<open>n + 1\<close> in its cell \<open>n1\<close> and
  the workspace at its length, and there is at most one more equality residual than
  variables.
\<close>

theorem kkt_partition:
  assumes "minimize_slsqp env ar = Some (Inr (r, tr))"
  shows "\<exists>p s0 s1 s2 rs_eq rs_ineq.
           initialise env ar = Inr (p, s0) \<and> prime env p s0 = Inr s1 \<and>
           drive_loop env p s1 = Some (Inr s2) \<and>
           map_err (\<lambda>con. c_fun con (kx (ks s0))) (cons_eq (p_cons p)) = Inr rs_eq \<and>
           p_meq_cv p = map length rs_eq \<and>
           map_err (\<lambda>con. c_fun con (kx (ks s0))) (cons_ineq (p_cons p)) = Inr rs_ineq \<and>
           p_mieq_cv p = map length rs_ineq \<and>
           p_m p = int (sum_list (p_meq_cv p)) + int (sum_list (p_mieq_cv p)) \<and>
           map c_fun (cons_eq (p_cons p)) = registered ''eq'' (as_sequence (constraints ar)) \<and>
           map c_fun (cons_ineq (p_cons p))
             = registered ''ineq'' (as_sequence (constraints ar)) \<and>
           (let ir = kkt_offset (p_la p) (n1 (ks s2)) (p_n p);
                kkt_mult = py_slice (kw (ks s2)) ir (ir + p_m p);
                k_eq = fst (kkt r);
                k_ineq = snd (kkt r)
            in length k_eq = length (cons_eq (p_cons p)) \<and>
               length k_ineq = length (cons_ineq (p_cons p)) \<and>
               (\<forall>i < length k_eq.
                  k_eq ! i = take (p_meq_cv p ! i)
                               (drop (sum_list (take i (p_meq_cv p))) kkt_mult)) \<and>
               (\<forall>j < length k_ineq.
                  k_ineq ! j = take (p_mieq_cv p ! j)
                                 (drop (sum_list (p_meq_cv p) + sum_list (take j (p_mieq_cv p)))
                                    kkt_mult)) \<and>
               concat (k_eq @ k_ineq) = kkt_mult \<and>
               length kkt_mult \<le> nat (p_m p) \<and>
               (map length k_eq = p_meq_cv p \<and> map length k_ineq = p_mieq_cv p
                  \<longleftrightarrow> length kkt_mult = nat (p_m p)) \<and>
               (n1 (ks s2) = p_n p + 1 \<and> length (kw (ks s2)) = length (kw (ks s0)) \<and>
                p_meq p \<le> p_n p + 1 \<longrightarrow> length kkt_mult = nat (p_m p)))"
proof -
  from minimize_slsqp_cases[OF assms] obtain p s0 s1 s2 where
    i: "initialise env ar = Inr (p, s0)" and pr: "prime env p s0 = Inr s1"
    and l: "drive_loop env p s1 = Some (Inr s2)" and f: "finish env p s2 = Inr (r, tr)"
    by auto
  from initialise_Inr_values[OF i] obtain rs_eq rs_ineq where
    e1: "map_err (\<lambda>con. c_fun con (kx (ks s0))) (cons_eq (p_cons p)) = Inr rs_eq"
    and e2: "p_meq_cv p = map length rs_eq"
    and i1: "map_err (\<lambda>con. c_fun con (kx (ks s0))) (cons_ineq (p_cons p)) = Inr rs_ineq"
    and i2: "p_mieq_cv p = map length rs_ineq"
    and meq: "p_meq p = int (sum_list (p_meq_cv p))"
    and mieq: "p_mieq p = int (sum_list (p_mieq_cv p))"
    and m: "p_m p = p_meq p + p_mieq p"
    and la: "p_la p = max 1 (p_m p)"
    and n: "p_n p = int (length (kx (ks s0)))"
    and lw0: "0 \<le> len_w (p_n p) (p_m p) (p_meq p)"
    and w0: "kw (ks s0) = replicate (nat (len_w (p_n p) (p_m p) (p_meq p))) (Fin 0)"
    by blast
  from initialise_Inr[OF i] have le: "length (p_meq_cv p) = length (cons_eq (p_cons p))"
    and li: "length (p_mieq_cv p) = length (cons_ineq (p_cons p))" by auto
  define meq_cv where "meq_cv = p_meq_cv p"
  define mieq_cv where "mieq_cv = p_mieq_cv p"
  define ir where "ir = kkt_offset (p_la p) (n1 (ks s2)) (p_n p)"
  define kkt_mult where "kkt_mult = py_slice (kw (ks s2)) ir (ir + p_m p)"
  have msum: "p_m p = int (sum_list meq_cv) + int (sum_list mieq_cv)"
    using m meq mieq by (simp add: meq_cv_def mieq_cv_def)
  have m0: "0 \<le> p_m p" using msum by simp
  have nm: "nat (p_m p) = sum_list meq_cv + sum_list mieq_cv"
    using msum by (simp add: nat_add_distrib)
  have K: "kkt r = (spans_of kkt_mult meq_cv, spans_of (drop (sum_list meq_cv) kkt_mult) mieq_cv)"
    using finish_kkt[OF f]
    by (simp add: kkt_multipliers_spans kkt_mult_def ir_def meq_cv_def mieq_cv_def)
  have L: "length kkt_mult \<le> nat (p_m p)"
    unfolding kkt_mult_def using m0 by (rule py_slice_length_le)
  have c1: "length (spans_of kkt_mult meq_cv) = length (cons_eq (p_cons p))"
    using le by (simp add: meq_cv_def)
  have c2: "length (spans_of (drop (sum_list meq_cv) kkt_mult) mieq_cv) = length (cons_ineq (p_cons p))"
    using li by (simp add: mieq_cv_def)
  have c3: "\<forall>i < length (spans_of kkt_mult meq_cv). spans_of kkt_mult meq_cv ! i
              = take (meq_cv ! i) (drop (sum_list (take i meq_cv)) kkt_mult)"
    by (simp add: nth_spans_of)
  have c4: "\<forall>j < length (spans_of (drop (sum_list meq_cv) kkt_mult) mieq_cv).
              spans_of (drop (sum_list meq_cv) kkt_mult) mieq_cv ! j
              = take (mieq_cv ! j) (drop (sum_list meq_cv + sum_list (take j mieq_cv)) kkt_mult)"
    by (simp add: nth_spans_of add.commute)
  have "concat (spans_of kkt_mult meq_cv @ spans_of (drop (sum_list meq_cv) kkt_mult) mieq_cv)
          = take (sum_list meq_cv) kkt_mult
            @ take (sum_list mieq_cv) (drop (sum_list meq_cv) kkt_mult)"
    by (simp add: concat_spans_of)
  also have "\<dots> = take (sum_list meq_cv + sum_list mieq_cv) kkt_mult"
    by (simp add: take_add)
  also have "\<dots> = kkt_mult" using L nm by simp
  finally have c5: "concat (spans_of kkt_mult meq_cv
                      @ spans_of (drop (sum_list meq_cv) kkt_mult) mieq_cv) = kkt_mult" .
  have c6: "(map length (spans_of kkt_mult meq_cv) = meq_cv \<and>
             map length (spans_of (drop (sum_list meq_cv) kkt_mult) mieq_cv) = mieq_cv)
            \<longleftrightarrow> length kkt_mult = nat (p_m p)"
    unfolding map_length_spans_of_iff using L nm by auto
  have c7: "length kkt_mult = nat (p_m p)"
    if h: "n1 (ks s2) = p_n p + 1 \<and> length (kw (ks s2)) = length (kw (ks s0)) \<and>
           p_meq p \<le> p_n p + 1"
  proof -
    have a: "0 \<le> p_n p" "0 \<le> p_meq p" "p_meq p \<le> p_m p" "p_meq p \<le> p_n p + 1"
      using n meq mieq m h by simp_all
    have b: "length (kw (ks s2)) = nat (len_w (p_n p) (p_m p) (p_meq p))"
      using h w0 by simp
    from kkt_slice_in_range[OF a b] show ?thesis
      using h la by (simp add: kkt_mult_def ir_def)
  qed
  have body: "let ir = kkt_offset (p_la p) (n1 (ks s2)) (p_n p);
                kkt_mult = py_slice (kw (ks s2)) ir (ir + p_m p);
                k_eq = fst (kkt r);
                k_ineq = snd (kkt r)
            in length k_eq = length (cons_eq (p_cons p)) \<and>
               length k_ineq = length (cons_ineq (p_cons p)) \<and>
               (\<forall>i < length k_eq.
                  k_eq ! i = take (p_meq_cv p ! i)
                               (drop (sum_list (take i (p_meq_cv p))) kkt_mult)) \<and>
               (\<forall>j < length k_ineq.
                  k_ineq ! j = take (p_mieq_cv p ! j)
                                 (drop (sum_list (p_meq_cv p) + sum_list (take j (p_mieq_cv p)))
                                    kkt_mult)) \<and>
               concat (k_eq @ k_ineq) = kkt_mult \<and>
               length kkt_mult \<le> nat (p_m p) \<and>
               (map length k_eq = p_meq_cv p \<and> map length k_ineq = p_mieq_cv p
                  \<longleftrightarrow> length kkt_mult = nat (p_m p)) \<and>
               (n1 (ks s2) = p_n p + 1 \<and> length (kw (ks s2)) = length (kw (ks s0)) \<and>
                p_meq p \<le> p_n p + 1 \<longrightarrow> length kkt_mult = nat (p_m p))"
    unfolding Let_def ir_def[symmetric] kkt_mult_def[symmetric] K fst_conv snd_conv
      meq_cv_def[symmetric] mieq_cv_def[symmetric]
    using c1 c2 c3 c4 c5 L c6 c7 by blast
  have ms: "p_m p = int (sum_list (p_meq_cv p)) + int (sum_list (p_mieq_cv p))"
    using m meq mieq by simp
  from initialise_registered[OF i]
  have rg: "map c_fun (cons_eq (p_cons p)) = registered ''eq'' (as_sequence (constraints ar))"
    "map c_fun (cons_ineq (p_cons p)) = registered ''ineq'' (as_sequence (constraints ar))"
    by simp_all
  from i pr l e1 e2 i1 i2 ms rg body show ?thesis by blast
qed

subsection \<open>The runs with a marked workspace\<close>

lemma none_nb: "make_new_bounds None = ([NegInf], [PosInf])"
  by (simp add: make_new_bounds_def)

lemma none_bounds: "decompose_bounds None (Suc 0) = Inr ([NaN], [NaN])"
  by (simp add: decompose_bounds_def)

lemma lower_eq: "py_lower ''eq'' = ''eq''" "py_lower ''ineq'' = ''ineq''"
  by (simp_all add: py_lower_def py_lower_char_def)

lemma clip_x_zero: "check_clip_x [Fin 0] ([NegInf], [PosInf]) = Inr [Fin 0]"
  by (simp add: check_clip_x_def np_clip_unbounded)

lemma over_triage:
  "triage env ([NegInf], [PosInf]) \<lparr>cons_eq = [], cons_ineq = []\<rparr> 0 [Dict over_con]
     = Inr over_cons"
  by (simp add: triage_one_def bind_err_def over_con_def lower_eq Let_def over_cons_def)

lemma over_len: "len_w 1 10 10 = 19" "len_jw 1 10 10 = 4"
  by (simp_all add: len_w_def len_jw_def Let_def)

lemma over_dims:
  "residual_dims [Fin 0] (cons_eq over_cons) [] = Inr ([10], [ConFunCall [Fin 0]])"
  "residual_dims [Fin 0] (cons_ineq over_cons) tr = Inr ([], tr)"
  by (simp_all add: over_cons_def bind_err_def)

lemma over_args_simps [simp]:
  "x0 over_args = [Fin 0]" "bounds over_args = None"
  "constraints over_args = ConSeq [Dict over_con]" "maxiter over_args = 3"
  "ftol over_args = Fin (1 / 1000000)"
  by (simp_all add: over_args_def)

lemma over_init: "initialise (example_env_with kf) over_args = Inr (over_problem, over_s0)"
  by (simp add: initialise_def none_nb np_clip_unbounded as_sequence_def over_triage over_dims
        bind_err_def Let_def over_len np_zeros_def none_bounds to_int64_def over_problem_def
        over_s0_def over_k0_def
        del: triage.simps residual_dims.simps)

lemma over_problem_simps [simp]:
  "p_cons over_problem = over_cons" "p_nb over_problem = ([NegInf], [PosInf])"
  "p_meq_cv over_problem = [10]" "p_mieq_cv over_problem = []"
  "p_meq over_problem = 10" "p_mieq over_problem = 0" "p_m over_problem = 10"
  "p_la over_problem = 10" "p_n over_problem = 1"
  by (simp_all add: over_problem_def)

lemma over_eval_constraint: "eval_constraint [Fin 0] over_cons = Inr (replicate 10 (Fin 0))"
  by (simp add: eval_constraint_def over_cons_def bind_err_def np_zeros_def)

lemma over_eval_con_normals:
  "eval_con_normals [Fin 0] over_cons 10 1 10 10 0
     = Inr (Mat 10 2 (replicate 10 [Fin 1, Fin 0]))"
  by (simp add: eval_con_normals_def over_cons_def bind_err_def np_zeros2_def np_vstack_def
        np_hstack2_def)

lemma over_prime: "prime (example_env_with kf) over_problem over_s0 = Inr over_s1"
  by (simp add: prime_def bind_err_def wrapped_fun_def wrapped_grad_def call_eval_constraint_def
        call_eval_con_normals_def clip_x_zero over_eval_constraint over_eval_con_normals
        over_s0_def over_k0_def over_s1_def over_k1_def over_tr_def)

lemma over_kernel: "marking_kernel 10 10 f over_k1 = over_k2"
  by (simp add: marking_kernel_def over_k2_def over_k1_def over_k0_def)

lemma over_body: "loop_body marking_env over_problem over_s1 = Inr over_s2"
  by (simp add: loop_body_def call_kernel_def bind_err_def Let_def over_s1_def over_s2_def
        over_kernel marking_env_def over_tr_def)
     (simp add: over_k2_def)

lemma over_loop: "drive_loop marking_env over_problem over_s1 = Some (Inr over_s2)"
  by (subst drive_loop.simps) (simp add: over_body over_s2_def over_k2_def)

lemma over_k2_fields:
  "kw over_k2 = map (\<lambda>i. Fin (real i)) [0..<19]" "n1 over_k2 = 2" "kg over_k2 = [Fin 0, Fin 0]"
  "mode over_k2 = 2" "kx over_k2 = [Fin 0]" "majiter over_k2 = 2"
  by (simp_all add: over_k2_def over_k1_def over_k0_def)

lemma over_kkt:
  "kkt_multipliers (map (\<lambda>i. Fin (real i)) [0..<19]) 10 2 1 10 [10] []
     = ([[Fin 13, Fin 14, Fin 15, Fin 16, Fin 17, Fin 18]], [])"
proof -
  have ir: "kkt_offset 10 2 1 = 13" by (simp add: kkt_offset_def Let_def)
  have sl: "py_slice (map (\<lambda>i. Fin (real i)) [0..<19]) 13 23
              = [Fin 13, Fin 14, Fin 15, Fin 16, Fin 17, Fin 18]"
    by (simp add: py_slice_def slice_bound_def Let_def drop_map upt_rec)
  have "kkt_split [Fin 13, Fin 14, Fin 15, Fin 16, Fin 17, Fin 18] [10] []
          = ([[Fin 13, Fin 14, Fin 15, Fin 16, Fin 17, Fin 18]], [])"
    by (simp add: kkt_split_def kkt_take_def Let_def py_slice_def slice_bound_def)
  then show ?thesis by (simp add: kkt_multipliers_def Let_def ir sl)
qed

lemma over_finish: "finish marking_env over_problem over_s2 = Inr (over_result, over_tr)"
  by (simp add: finish_def Let_def over_s2_def over_k2_fields over_kkt exit_modes_table
        over_result_def marking_env_def)

lemma over_run: "minimize_slsqp marking_env over_args = Some (Inr (over_result, over_tr))"
  by (simp add: minimize_slsqp_def over_init[of marking_kernel, folded marking_env_def]
        over_prime[of marking_kernel, folded marking_env_def] over_loop over_finish)

lemma mix_triage:
  "triage env ([NegInf], [PosInf]) \<lparr>cons_eq = [], cons_ineq = []\<rparr> 0 [Dict mix_ineq, Dict mix_eq]
     = Inr mix_cons"
  by (simp add: triage_one_def bind_err_def mix_ineq_def mix_eq_def lower_eq Let_def mix_cons_def)

lemma mix_len: "len_w 1 3 1 = 84" "len_jw 1 3 1 = 6"
  by (simp_all add: len_w_def len_jw_def Let_def)

lemma mix_dims:
  "residual_dims [Fin 0] (cons_eq mix_cons) [] = Inr ([1], [ConFunCall [Fin 0]])"
  "residual_dims [Fin 0] (cons_ineq mix_cons) [ConFunCall [Fin 0]]
     = Inr ([2], [ConFunCall [Fin 0], ConFunCall [Fin 0]])"
  by (simp_all add: mix_cons_def bind_err_def)

lemma mix_args_simps [simp]:
  "x0 mix_args = [Fin 0]" "bounds mix_args = None"
  "constraints mix_args = ConSeq [Dict mix_ineq, Dict mix_eq]" "maxiter mix_args = 3"
  "ftol mix_args = Fin (1 / 1000000)"
  by (simp_all add: mix_args_def)

lemma mix_init: "initialise (example_env_with kf) mix_args = Inr (mix_problem, mix_s0)"
  by (simp add: initialise_def none_nb np_clip_unbounded as_sequence_def mix_triage mix_dims
        bind_err_def Let_def mix_len np_zeros_def none_bounds to_int64_def mix_problem_def
        mix_s0_def mix_k0_def
        del: triage.simps residual_dims.simps)

lemma mix_problem_simps [simp]:
  "p_cons mix_problem = mix_cons" "p_nb mix_problem = ([NegInf], [PosInf])"
  "p_meq_cv mix_problem = [1]" "p_mieq_cv mix_problem = [2]"
  "p_meq mix_problem = 1" "p_mieq mix_problem = 2" "p_m mix_problem = 3"
  "p_la mix_problem = 3" "p_n mix_problem = 1"
  by (simp_all add: mix_problem_def)

lemma mix_eval_constraint: "eval_constraint [Fin 0] mix_cons = Inr [Fin 3, Fin 1, Fin 2]"
  by (simp add: eval_constraint_def mix_cons_def bind_err_def np_zeros_def)

lemma mix_eval_con_normals:
  "eval_con_normals [Fin 0] mix_cons 3 1 3 1 2
     = Inr (Mat 3 2 [[Fin 1, Fin 0], [Fin 1, Fin 0], [Fin 1, Fin 0]])"
  by (simp add: eval_con_normals_def mix_cons_def bind_err_def np_zeros2_def np_vstack_def
        np_hstack2_def numeral_3_eq_3)

lemma mix_prime: "prime (example_env_with kf) mix_problem mix_s0 = Inr mix_s1"
  by (simp add: prime_def bind_err_def wrapped_fun_def wrapped_grad_def call_eval_constraint_def
        call_eval_con_normals_def clip_x_zero mix_eval_constraint mix_eval_con_normals
        mix_s0_def mix_k0_def mix_s1_def mix_k1_def mix_tr_def)

lemma mix_kernel: "marking_kernel 3 1 f mix_k1 = mix_k2"
  by (simp add: marking_kernel_def mix_k2_def mix_k1_def mix_k0_def)

lemma mix_body: "loop_body marking_env mix_problem mix_s1 = Inr mix_s2"
  by (simp add: loop_body_def call_kernel_def bind_err_def Let_def mix_s1_def mix_s2_def
        mix_kernel marking_env_def mix_tr_def)
     (simp add: mix_k2_def)

lemma mix_loop: "drive_loop marking_env mix_problem mix_s1 = Some (Inr mix_s2)"
  by (subst drive_loop.simps) (simp add: mix_body mix_s2_def mix_k2_def)

lemma mix_k2_fields:
  "kw mix_k2 = map (\<lambda>i. Fin (real i)) [0..<84]" "n1 mix_k2 = 2" "kg mix_k2 = [Fin 0, Fin 0]"
  "mode mix_k2 = 0" "kx mix_k2 = [Fin 0]" "majiter mix_k2 = 2"
  by (simp_all add: mix_k2_def mix_k1_def mix_k0_def)

lemma mix_slice: "py_slice (map (\<lambda>i. Fin (real i)) [0..<84]) 6 9 = [Fin 6, Fin 7, Fin 8]"
  by (simp add: py_slice_def slice_bound_def Let_def drop_map take_map upt_rec)

lemma mix_kkt:
  "kkt_multipliers (map (\<lambda>i. Fin (real i)) [0..<84]) 3 2 1 3 [Suc 0] [2]
     = ([[Fin 6]], [[Fin 7, Fin 8]])"
proof -
  have ir: "kkt_offset 3 2 1 = 6" by (simp add: kkt_offset_def Let_def)
  have sp: "kkt_split [Fin 6, Fin 7, Fin 8] [Suc 0] [2] = ([[Fin 6]], [[Fin 7, Fin 8]])"
    by (simp add: kkt_split_def kkt_take_def Let_def py_slice_def slice_bound_def)
  show ?thesis by (simp add: kkt_multipliers_def Let_def ir mix_slice sp)
qed

lemma mix_finish: "finish marking_env mix_problem mix_s2 = Inr (mix_result, mix_tr)"
  by (simp add: finish_def Let_def mix_s2_def mix_k2_fields mix_kkt exit_modes_def
        mix_result_def marking_env_def)

lemma mix_run: "minimize_slsqp marking_env mix_args = Some (Inr (mix_result, mix_tr))"
  by (simp add: minimize_slsqp_def mix_init[of marking_kernel, folded marking_env_def]
        mix_prime[of marking_kernel, folded marking_env_def] mix_loop mix_finish)

lemma mix_registered:
  "registered ''eq'' [Dict mix_ineq, Dict mix_eq] = [\<lambda>xv. Inr [Fin 3]]"
  "registered ''ineq'' [Dict mix_ineq, Dict mix_eq] = [\<lambda>xv. Inr [Fin 1, Fin 2]]"
  by (simp_all add: registered_def map_filter_simps mix_ineq_def mix_eq_def lower_eq)

text \<open>
  The theorem of C1 in the run with the marked workspace, an equality constraint with
  one residual and an inequality constraint with two: the slice is \<open>w[6:9]\<close>.
\<close>

theorem kkt_partition_witness:
  "minimize_slsqp marking_env mix_args = Some (Inr (mix_result, mix_tr)) \<and>
   initialise marking_env mix_args = Inr (mix_problem, mix_s0) \<and>
   drive_loop marking_env mix_problem mix_s1 = Some (Inr mix_s2) \<and>
   constraints mix_args = ConSeq [Dict mix_ineq, Dict mix_eq] \<and>
   map c_fun (cons_eq (p_cons mix_problem)) = registered ''eq'' [Dict mix_ineq, Dict mix_eq] \<and>
   map c_fun (cons_ineq (p_cons mix_problem))
     = registered ''ineq'' [Dict mix_ineq, Dict mix_eq] \<and>
   registered ''eq'' [Dict mix_ineq, Dict mix_eq] = [\<lambda>xv. Inr [Fin 3]] \<and>
   registered ''ineq'' [Dict mix_ineq, Dict mix_eq] = [\<lambda>xv. Inr [Fin 1, Fin 2]] \<and>
   p_meq_cv mix_problem = [1] \<and> p_mieq_cv mix_problem = [2] \<and> p_m mix_problem = 3 \<and>
   kkt_offset (p_la mix_problem) (n1 (ks mix_s2)) (p_n mix_problem) = 6 \<and>
   py_slice (kw (ks mix_s2)) 6 9 = [Fin 6, Fin 7, Fin 8] \<and>
   length (fst (kkt mix_result)) = 1 \<and> length (snd (kkt mix_result)) = 1 \<and>
   fst (kkt mix_result) ! 0 = take 1 (drop 0 [Fin 6, Fin 7, Fin 8]) \<and>
   snd (kkt mix_result) ! 0 = take 2 (drop 1 [Fin 6, Fin 7, Fin 8]) \<and>
   concat (fst (kkt mix_result) @ snd (kkt mix_result)) = [Fin 6, Fin 7, Fin 8] \<and>
   map length (fst (kkt mix_result)) = [1] \<and> map length (snd (kkt mix_result)) = [2]"
proof -
  from kkt_partition[OF mix_run] obtain p s0 s1 s2 where
    i: "initialise marking_env mix_args = Inr (p, s0)"
    and pr: "prime marking_env p s0 = Inr s1"
    and l: "drive_loop marking_env p s1 = Some (Inr s2)"
    and rg: "map c_fun (cons_eq (p_cons p)) = registered ''eq'' (as_sequence (constraints mix_args))"
      "map c_fun (cons_ineq (p_cons p)) = registered ''ineq'' (as_sequence (constraints mix_args))"
    and b: "let ir = kkt_offset (p_la p) (n1 (ks s2)) (p_n p);
                kkt_mult = py_slice (kw (ks s2)) ir (ir + p_m p);
                k_eq = fst (kkt mix_result);
                k_ineq = snd (kkt mix_result)
            in length k_eq = length (cons_eq (p_cons p)) \<and>
               length k_ineq = length (cons_ineq (p_cons p)) \<and>
               (\<forall>i < length k_eq.
                  k_eq ! i = take (p_meq_cv p ! i)
                               (drop (sum_list (take i (p_meq_cv p))) kkt_mult)) \<and>
               (\<forall>j < length k_ineq.
                  k_ineq ! j = take (p_mieq_cv p ! j)
                                 (drop (sum_list (p_meq_cv p) + sum_list (take j (p_mieq_cv p)))
                                    kkt_mult)) \<and>
               concat (k_eq @ k_ineq) = kkt_mult \<and>
               length kkt_mult \<le> nat (p_m p) \<and>
               (map length k_eq = p_meq_cv p \<and> map length k_ineq = p_mieq_cv p
                  \<longleftrightarrow> length kkt_mult = nat (p_m p)) \<and>
               (n1 (ks s2) = p_n p + 1 \<and> length (kw (ks s2)) = length (kw (ks s0)) \<and>
                p_meq p \<le> p_n p + 1 \<longrightarrow> length kkt_mult = nat (p_m p))"
    by blast
  have i0: "initialise marking_env mix_args = Inr (mix_problem, mix_s0)"
    unfolding marking_env_def by (rule mix_init)
  have pr0: "prime marking_env mix_problem mix_s0 = Inr mix_s1"
    unfolding marking_env_def by (rule mix_prime)
  from i i0 have p: "p = mix_problem" and s0: "s0 = mix_s0" by simp_all
  from pr pr0 p s0 have s1: "s1 = mix_s1" by simp
  from l mix_loop p s1 have s2: "s2 = mix_s2" by simp
  have ks: "ks mix_s2 = mix_k2" "ks mix_s0 = mix_k0" by (simp_all add: mix_s2_def mix_s0_def)
  have ir: "kkt_offset 3 2 1 = 6" by (simp add: kkt_offset_def Let_def)
  have cs: "length (cons_eq mix_cons) = 1" "length (cons_ineq mix_cons) = 1"
    by (simp_all add: mix_cons_def)
  have lw: "length (kw mix_k2) = length (kw mix_k0)" by (simp add: mix_k2_fields mix_k0_def)
  note b' = b[unfolded Let_def p s0 s2 ks mix_problem_simps mix_k2_fields(1,2) ir]
  from b' have c1: "length (fst (kkt mix_result)) = 1" "length (snd (kkt mix_result)) = 1"
    by (simp_all add: cs)
  from b' have c2: "fst (kkt mix_result) ! 0 = take 1 (drop 0 [Fin 6, Fin 7, Fin 8])"
    "snd (kkt mix_result) ! 0 = take 2 (drop 1 [Fin 6, Fin 7, Fin 8])"
    by (simp_all add: mix_slice cs)
  from b' have c3: "concat (fst (kkt mix_result) @ snd (kkt mix_result)) = [Fin 6, Fin 7, Fin 8]"
    by (simp add: mix_slice)
  from b' have c4: "map length (fst (kkt mix_result)) = [1] \<and>
      map length (snd (kkt mix_result)) = [2]"
    by (simp add: mix_k0_def)
  have sq: "as_sequence (constraints mix_args) = [Dict mix_ineq, Dict mix_eq]"
    by (simp add: as_sequence_def)
  note rg' = rg[unfolded p sq]
  show ?thesis using mix_run i0 mix_loop c1 c2 c3 c4 rg' mix_registered
    by (simp add: ks mix_k2_fields ir mix_slice)
qed

text \<open>
  Claim C1 as the spec states it fails in the run with one variable and one equality
  constraint with ten residuals: the workspace has 19 cells and keeps them, the kernel
  leaves \<open>n + 1 = 2\<close> in \<open>n1\<close>, the slice is \<open>w[13:23]\<close>, and the span returned for the
  constraint has six cells, not ten.
\<close>

theorem kkt_span_shorter_than_dimension:
  "initialise marking_env over_args = Inr (over_problem, over_s0) \<and>
   p_meq_cv over_problem = [10] \<and> p_mieq_cv over_problem = [] \<and> p_m over_problem = 10 \<and>
   drive_loop marking_env over_problem over_s1 = Some (Inr over_s2) \<and>
   length (kw (ks over_s0)) = 19 \<and> length (kw (ks over_s2)) = 19 \<and> n1 (ks over_s2) = 2 \<and>
   kkt_offset (p_la over_problem) (n1 (ks over_s2)) (p_n over_problem) = 13 \<and>
   minimize_slsqp marking_env over_args = Some (Inr (over_result, over_tr)) \<and>
   status over_result = 2 \<and>
   kkt over_result = ([[Fin 13, Fin 14, Fin 15, Fin 16, Fin 17, Fin 18]], []) \<and>
   map length (fst (kkt over_result)) = [6] \<and>
   map length (fst (kkt over_result)) \<noteq> p_meq_cv over_problem \<and>
   int (sum_list (map length (fst (kkt over_result) @ snd (kkt over_result))))
     \<noteq> p_m over_problem"
proof -
  have i0: "initialise marking_env over_args = Inr (over_problem, over_s0)"
    unfolding marking_env_def by (rule over_init)
  have ir: "kkt_offset 10 2 1 = 13" by (simp add: kkt_offset_def Let_def)
  have ks: "ks over_s2 = over_k2" "ks over_s0 = over_k0" by (simp_all add: over_s2_def over_s0_def)
  have l0: "length (kw over_k0) = 19" by (simp add: over_k0_def)
  have r: "status over_result = 2"
    "kkt over_result = ([[Fin 13, Fin 14, Fin 15, Fin 16, Fin 17, Fin 18]], [])"
    by (simp_all add: over_result_def)
  show ?thesis using i0 over_loop over_run
    by (simp add: ks over_k2_fields ir l0 r)
qed

subsection \<open>The values of the evaluations\<close>

lemma wrapped_fun_Inr_value:
  "wrapped_fun env p s = Inr s' \<Longrightarrow>
     \<exists>y v u. check_clip_x (kx (ks s)) (p_nb p) = Inr y \<and> sf_fun env (sf s) y = Inr (v, u) \<and>
       s' = s\<lparr>fx := v, sf := u, trace := trace s @ [FunCall y]\<rparr>"
  by (auto simp: wrapped_fun_def split: sum.splits prod.splits)

lemma wrapped_fun_Inl_value:
  "wrapped_fun env p s = Inl (e, tr) \<Longrightarrow>
     (check_clip_x (kx (ks s)) (p_nb p) = Inl e \<and> tr = trace s) \<or>
     (\<exists>y. check_clip_x (kx (ks s)) (p_nb p) = Inr y \<and> sf_fun env (sf s) y = Inl e \<and>
          tr = trace s @ [FunCall y])"
  by (auto simp: wrapped_fun_def split: sum.splits prod.splits)

lemma wrapped_grad_Inr_value:
  "wrapped_grad env p s = Inr s' \<Longrightarrow>
     \<exists>y gv u. check_clip_x (kx (ks s)) (p_nb p) = Inr y \<and> sf_grad env (sf s) y = Inr (gv, u) \<and>
       s' = s\<lparr>ks := (ks s)\<lparr>kg := gv @ [Fin 0]\<rparr>, sf := u, trace := trace s @ [GradCall y]\<rparr>"
  by (auto simp: wrapped_grad_def split: sum.splits prod.splits)

lemma wrapped_grad_Inl_value:
  "wrapped_grad env p s = Inl (e, tr) \<Longrightarrow>
     (check_clip_x (kx (ks s)) (p_nb p) = Inl e \<and> tr = trace s) \<or>
     (\<exists>y. check_clip_x (kx (ks s)) (p_nb p) = Inr y \<and> sf_grad env (sf s) y = Inl e \<and>
          tr = trace s @ [GradCall y])"
  by (auto simp: wrapped_grad_def split: sum.splits prod.splits)

lemma call_eval_constraint_Inr_value:
  "call_eval_constraint p s = Inr s' \<Longrightarrow>
     \<exists>cv. eval_constraint (kx (ks s)) (p_cons p) = Inr cv \<and>
       s' = s\<lparr>ks := (ks s)\<lparr>kc := cv\<rparr>, trace := trace s @ [ConstraintCall (kx (ks s))]\<rparr>"
  by (auto simp: call_eval_constraint_def split: sum.splits)

lemma call_eval_constraint_Inl_value:
  "call_eval_constraint p s = Inl (e, tr) \<Longrightarrow>
     eval_constraint (kx (ks s)) (p_cons p) = Inl e \<and>
     tr = trace s @ [ConstraintCall (kx (ks s))]"
  by (auto simp: call_eval_constraint_def split: sum.splits)

lemma call_eval_con_normals_Inr_value:
  "call_eval_con_normals p s = Inr s' \<Longrightarrow>
     \<exists>av. eval_con_normals (kx (ks s)) (p_cons p) (p_la p) (p_n p) (p_m p) (p_meq p) (p_mieq p)
            = Inr av \<and>
       s' = s\<lparr>ks := (ks s)\<lparr>ka := av\<rparr>, trace := trace s @ [NormalsCall (kx (ks s))]\<rparr>"
  by (auto simp: call_eval_con_normals_def split: sum.splits)

lemma call_eval_con_normals_Inl_value:
  "call_eval_con_normals p s = Inl (e, tr) \<Longrightarrow>
     eval_con_normals (kx (ks s)) (p_cons p) (p_la p) (p_n p) (p_m p) (p_meq p) (p_mieq p)
       = Inl e \<and>
     tr = trace s @ [NormalsCall (kx (ks s))]"
  by (auto simp: call_eval_con_normals_def split: sum.splits)

text \<open>
  The four evaluations of lines 217-220 with their values: the state after them is the
  state before them with \<open>fx\<close>, \<open>g\<close>, \<open>c\<close> and \<open>a\<close> assigned, the adapter as the two
  calls left it, and four more calls in the log.
\<close>

lemma prime_values:
  assumes "prime env p s = Inr s'"
  shows "\<exists>y v u gv u' cv av.
           check_clip_x (kx (ks s)) (p_nb p) = Inr y \<and>
           sf_fun env (sf s) y = Inr (v, u) \<and>
           sf_grad env u y = Inr (gv, u') \<and>
           eval_constraint (kx (ks s)) (p_cons p) = Inr cv \<and>
           eval_con_normals (kx (ks s)) (p_cons p) (p_la p) (p_n p) (p_m p) (p_meq p) (p_mieq p)
             = Inr av \<and>
           s' = s\<lparr>ks := (ks s)\<lparr>kg := gv @ [Fin 0], kc := cv, ka := av\<rparr>, fx := v, sf := u',
                  trace := trace s @ [FunCall y, GradCall y, ConstraintCall (kx (ks s)),
                                      NormalsCall (kx (ks s))]\<rparr>"
proof -
  from assms obtain s1 where a1: "wrapped_fun env p s = Inr s1"
    by (cases "wrapped_fun env p s") (auto simp: prime_def bind_err_def)
  with assms obtain s2 where a2: "wrapped_grad env p s1 = Inr s2"
    by (cases "wrapped_grad env p s1") (auto simp: prime_def bind_err_def)
  with assms a1 obtain s3 where a3: "call_eval_constraint p s2 = Inr s3"
    by (cases "call_eval_constraint p s2") (auto simp: prime_def bind_err_def)
  with assms a1 a2 have a4: "call_eval_con_normals p s3 = Inr s'"
    by (simp add: prime_def bind_err_def)
  from wrapped_fun_Inr_value[OF a1] obtain y v u where
    y: "check_clip_x (kx (ks s)) (p_nb p) = Inr y" and f: "sf_fun env (sf s) y = Inr (v, u)"
    and s1: "s1 = s\<lparr>fx := v, sf := u, trace := trace s @ [FunCall y]\<rparr>" by blast
  from wrapped_grad_Inr_value[OF a2] obtain y' gv u' where
    y': "check_clip_x (kx (ks s1)) (p_nb p) = Inr y'" and g: "sf_grad env (sf s1) y' = Inr (gv, u')"
    and s2: "s2 = s1\<lparr>ks := (ks s1)\<lparr>kg := gv @ [Fin 0]\<rparr>, sf := u',
                     trace := trace s1 @ [GradCall y']\<rparr>" by blast
  from call_eval_constraint_Inr_value[OF a3] obtain cv where
    c: "eval_constraint (kx (ks s2)) (p_cons p) = Inr cv"
    and s3: "s3 = s2\<lparr>ks := (ks s2)\<lparr>kc := cv\<rparr>, trace := trace s2 @ [ConstraintCall (kx (ks s2))]\<rparr>"
    by blast
  from call_eval_con_normals_Inr_value[OF a4] obtain av where
    a: "eval_con_normals (kx (ks s3)) (p_cons p) (p_la p) (p_n p) (p_m p) (p_meq p) (p_mieq p)
          = Inr av"
    and s4: "s' = s3\<lparr>ks := (ks s3)\<lparr>ka := av\<rparr>, trace := trace s3 @ [NormalsCall (kx (ks s3))]\<rparr>"
    by blast
  have yy: "y' = y" using y y' by (simp add: s1)
  have g': "sf_grad env u y = Inr (gv, u')" using g yy by (simp add: s1)
  have c': "eval_constraint (kx (ks s)) (p_cons p) = Inr cv" using c by (simp add: s1 s2)
  have a': "eval_con_normals (kx (ks s)) (p_cons p) (p_la p) (p_n p) (p_m p) (p_meq p) (p_mieq p)
          = Inr av" using a by (simp add: s1 s2 s3)
  have e: "s' = s\<lparr>ks := (ks s)\<lparr>kg := gv @ [Fin 0], kc := cv, ka := av\<rparr>, fx := v, sf := u',
                  trace := trace s @ [FunCall y, GradCall y, ConstraintCall (kx (ks s)),
                                      NormalsCall (kx (ks s))]\<rparr>"
    by (simp add: s1 s2 s3 s4 yy)
  from y f g' c' a' e show ?thesis by blast
qed

text \<open>
  One turn of the loop that raises nothing, with its values: after mode \<open>1\<close> the
  objective and the residuals are assigned and nothing else; after mode \<open>-1\<close> the
  gradient and the normals and nothing else; after another mode nothing is assigned.
\<close>

lemma loop_body_values:
  assumes "loop_body env p s = Inr s'"
  defines "k' \<equiv> kernel env (p_m p) (p_meq p) (fx s) (ks s)"
  shows "(mode k' = 1 \<longrightarrow>
            (\<exists>y v u cv.
               check_clip_x (kx k') (p_nb p) = Inr y \<and> sf_fun env (sf s) y = Inr (v, u) \<and>
               eval_constraint (kx k') (p_cons p) = Inr cv \<and>
               s' = s\<lparr>ks := k'\<lparr>kc := cv\<rparr>, fx := v, sf := u,
                      trace := trace s @ [KernelCall (ks s) k', FunCall y,
                                          ConstraintCall (kx k')]\<rparr>)) \<and>
         (mode k' = - 1 \<longrightarrow>
            (\<exists>y gv u av.
               check_clip_x (kx k') (p_nb p) = Inr y \<and> sf_grad env (sf s) y = Inr (gv, u) \<and>
               eval_con_normals (kx k') (p_cons p) (p_la p) (p_n p) (p_m p) (p_meq p) (p_mieq p)
                 = Inr av \<and>
               s' = s\<lparr>ks := k'\<lparr>kg := gv @ [Fin 0], ka := av\<rparr>, sf := u,
                      trace := trace s @ [KernelCall (ks s) k', GradCall y,
                                          NormalsCall (kx k')]\<rparr>)) \<and>
         (mode k' \<noteq> 1 \<and> mode k' \<noteq> - 1 \<longrightarrow>
            s' = s\<lparr>ks := k', trace := trace s @ [KernelCall (ks s) k']\<rparr>)"
proof -
  define s1 where "s1 = call_kernel env p s"
  have s1: "s1 = s\<lparr>ks := k', trace := trace s @ [KernelCall (ks s) k']\<rparr>"
    by (simp add: s1_def call_kernel_def Let_def k'_def)
  have m1: "mode (ks s1) = mode k'" by (simp add: s1)
  from assms(1) obtain s2 where
    st1: "(if mode k' = 1 then bind_err (wrapped_fun env p s1) (call_eval_constraint p)
           else Inr s1) = Inr s2"
    and st2: "(if mode (ks s2) = - 1
               then bind_err (wrapped_grad env p s2) (call_eval_con_normals p)
               else Inr s2) = Inr s'"
    unfolding loop_body_def Let_def s1_def[symmetric] m1
    by (blast dest: bind_err_Inr)
  consider (f) "mode k' = 1" | (g) "mode k' = - 1" | (t) "mode k' \<noteq> 1" "mode k' \<noteq> - 1" by blast
  then show ?thesis
  proof cases
    case f
    from st1 f obtain sa where a1: "wrapped_fun env p s1 = Inr sa"
      and a2: "call_eval_constraint p sa = Inr s2"
      by (auto dest: bind_err_Inr)
    from wrapped_fun_Inr_value[OF a1] obtain y v u where
      y: "check_clip_x (kx (ks s1)) (p_nb p) = Inr y" and fv: "sf_fun env (sf s1) y = Inr (v, u)"
      and sa: "sa = s1\<lparr>fx := v, sf := u, trace := trace s1 @ [FunCall y]\<rparr>" by blast
    from call_eval_constraint_Inr_value[OF a2] obtain cv where
      c: "eval_constraint (kx (ks sa)) (p_cons p) = Inr cv"
      and s2: "s2 = sa\<lparr>ks := (ks sa)\<lparr>kc := cv\<rparr>, trace := trace sa @ [ConstraintCall (kx (ks sa))]\<rparr>"
      by blast
    have "mode (ks s2) = 1" using f by (simp add: s1 sa s2)
    with st2 have e: "s' = s2" by simp
    have y': "check_clip_x (kx k') (p_nb p) = Inr y" using y by (simp add: s1)
    have fv': "sf_fun env (sf s) y = Inr (v, u)" using fv by (simp add: s1)
    have c': "eval_constraint (kx k') (p_cons p) = Inr cv" using c by (simp add: s1 sa)
    have "s' = s\<lparr>ks := k'\<lparr>kc := cv\<rparr>, fx := v, sf := u,
                  trace := trace s @ [KernelCall (ks s) k', FunCall y, ConstraintCall (kx k')]\<rparr>"
      by (simp add: e s1 sa s2)
    with y' fv' c' f show ?thesis by auto
  next
    case g
    with st1 have e: "s2 = s1" by simp
    with st2 g m1 obtain sa where a1: "wrapped_grad env p s1 = Inr sa"
      and a2: "call_eval_con_normals p sa = Inr s'"
      by (auto dest: bind_err_Inr)
    from wrapped_grad_Inr_value[OF a1] obtain y gv u where
      y: "check_clip_x (kx (ks s1)) (p_nb p) = Inr y" and gv: "sf_grad env (sf s1) y = Inr (gv, u)"
      and sa: "sa = s1\<lparr>ks := (ks s1)\<lparr>kg := gv @ [Fin 0]\<rparr>, sf := u,
                       trace := trace s1 @ [GradCall y]\<rparr>" by blast
    from call_eval_con_normals_Inr_value[OF a2] obtain av where
      a: "eval_con_normals (kx (ks sa)) (p_cons p) (p_la p) (p_n p) (p_m p) (p_meq p) (p_mieq p)
            = Inr av"
      and s3: "s' = sa\<lparr>ks := (ks sa)\<lparr>ka := av\<rparr>, trace := trace sa @ [NormalsCall (kx (ks sa))]\<rparr>"
      by blast
    have y': "check_clip_x (kx k') (p_nb p) = Inr y" using y by (simp add: s1)
    have gv': "sf_grad env (sf s) y = Inr (gv, u)" using gv by (simp add: s1)
    have a': "eval_con_normals (kx k') (p_cons p) (p_la p) (p_n p) (p_m p) (p_meq p) (p_mieq p)
            = Inr av" using a by (simp add: s1 sa)
    have "s' = s\<lparr>ks := k'\<lparr>kg := gv @ [Fin 0], ka := av\<rparr>, sf := u,
                  trace := trace s @ [KernelCall (ks s) k', GradCall y, NormalsCall (kx k')]\<rparr>"
      by (simp add: s1 sa s3)
    with y' gv' a' g show ?thesis by auto
  next
    case t
    with st1 have e: "s2 = s1" by simp
    with st2 t m1 have "s' = s1" by simp
    then show ?thesis using t by (simp add: s1)
  qed
qed

text \<open>
  One turn of the loop that raises: the mode was \<open>1\<close> or \<open>-1\<close>, and the exception is
  that of the clipping wrapper or of one of the two evaluations the mode asks for; what
  comes after it in the turn is not evaluated.
\<close>

lemma loop_body_raises:
  assumes "loop_body env p s = Inl (e, tr)"
  defines "k' \<equiv> kernel env (p_m p) (p_meq p) (fx s) (ks s)"
  shows "(mode k' = 1 \<or> mode k' = - 1) \<and>
         (mode k' = 1 \<longrightarrow>
            (check_clip_x (kx k') (p_nb p) = Inl e \<and> tr = trace s @ [KernelCall (ks s) k']) \<or>
            (\<exists>y. check_clip_x (kx k') (p_nb p) = Inr y \<and>
               ((sf_fun env (sf s) y = Inl e \<and>
                 tr = trace s @ [KernelCall (ks s) k', FunCall y]) \<or>
                (\<exists>v u. sf_fun env (sf s) y = Inr (v, u) \<and>
                   eval_constraint (kx k') (p_cons p) = Inl e \<and>
                   tr = trace s @ [KernelCall (ks s) k', FunCall y, ConstraintCall (kx k')])))) \<and>
         (mode k' = - 1 \<longrightarrow>
            (check_clip_x (kx k') (p_nb p) = Inl e \<and> tr = trace s @ [KernelCall (ks s) k']) \<or>
            (\<exists>y. check_clip_x (kx k') (p_nb p) = Inr y \<and>
               ((sf_grad env (sf s) y = Inl e \<and>
                 tr = trace s @ [KernelCall (ks s) k', GradCall y]) \<or>
                (\<exists>gv u. sf_grad env (sf s) y = Inr (gv, u) \<and>
                   eval_con_normals (kx k') (p_cons p) (p_la p) (p_n p) (p_m p) (p_meq p)
                     (p_mieq p) = Inl e \<and>
                   tr = trace s @ [KernelCall (ks s) k', GradCall y, NormalsCall (kx k')]))))"
proof -
  define s1 where "s1 = call_kernel env p s"
  have s1: "s1 = s\<lparr>ks := k', trace := trace s @ [KernelCall (ks s) k']\<rparr>"
    by (simp add: s1_def call_kernel_def Let_def k'_def)
  have m1: "mode (ks s1) = mode k'" by (simp add: s1)
  from assms(1) have B:
    "bind_err (if mode k' = 1 then bind_err (wrapped_fun env p s1) (call_eval_constraint p)
               else Inr s1)
       (\<lambda>s2. if mode (ks s2) = - 1
              then bind_err (wrapped_grad env p s2) (call_eval_con_normals p)
              else Inr s2) = Inl (e, tr)"
    unfolding loop_body_def Let_def s1_def[symmetric] m1 .
  consider (f) "mode k' = 1" | (g) "mode k' = - 1" | (t) "mode k' \<noteq> 1" "mode k' \<noteq> - 1" by blast
  then show ?thesis
  proof cases
    case f
    have second: False
      if "bind_err (wrapped_fun env p s1) (call_eval_constraint p) = Inr s2"
         "(if mode (ks s2) = - 1
           then bind_err (wrapped_grad env p s2) (call_eval_con_normals p)
           else Inr s2) = Inl (e, tr)" for s2
    proof -
      from that(1) obtain sa where a1: "wrapped_fun env p s1 = Inr sa"
        and a2: "call_eval_constraint p sa = Inr s2" by (auto dest: bind_err_Inr)
      from wrapped_fun_Inr_value[OF a1] call_eval_constraint_Inr_value[OF a2]
      have "mode (ks s2) = mode (ks s1)" by auto
      with f m1 that(2) show False by simp
    qed
    from B f have "bind_err (wrapped_fun env p s1) (call_eval_constraint p) = Inl (e, tr)"
      using second by (auto dest!: bind_err_Inl)
    from bind_err_Inl[OF this]
    have "(check_clip_x (kx k') (p_nb p) = Inl e \<and> tr = trace s @ [KernelCall (ks s) k']) \<or>
            (\<exists>y. check_clip_x (kx k') (p_nb p) = Inr y \<and>
               ((sf_fun env (sf s) y = Inl e \<and>
                 tr = trace s @ [KernelCall (ks s) k', FunCall y]) \<or>
                (\<exists>v u. sf_fun env (sf s) y = Inr (v, u) \<and>
                   eval_constraint (kx k') (p_cons p) = Inl e \<and>
                   tr = trace s @ [KernelCall (ks s) k', FunCall y, ConstraintCall (kx k')])))"
    proof
      assume "wrapped_fun env p s1 = Inl (e, tr)"
      from wrapped_fun_Inl_value[OF this] show ?thesis by (auto simp: s1)
    next
      assume "\<exists>u. wrapped_fun env p s1 = Inr u \<and> call_eval_constraint p u = Inl (e, tr)"
      then obtain sa where a1: "wrapped_fun env p s1 = Inr sa"
        and a2: "call_eval_constraint p sa = Inl (e, tr)" by blast
      from wrapped_fun_Inr_value[OF a1] obtain y v u where
        y: "check_clip_x (kx (ks s1)) (p_nb p) = Inr y" and fv: "sf_fun env (sf s1) y = Inr (v, u)"
        and sa: "sa = s1\<lparr>fx := v, sf := u, trace := trace s1 @ [FunCall y]\<rparr>" by blast
      from call_eval_constraint_Inl_value[OF a2]
      have "eval_constraint (kx k') (p_cons p) = Inl e"
        "tr = trace s @ [KernelCall (ks s) k', FunCall y, ConstraintCall (kx k')]"
        by (simp_all add: sa s1)
      moreover have "check_clip_x (kx k') (p_nb p) = Inr y" "sf_fun env (sf s) y = Inr (v, u)"
        using y fv by (simp_all add: s1)
      ultimately show ?thesis by blast
    qed
    with f show ?thesis by simp
  next
    case g
    from B g m1 have "bind_err (wrapped_grad env p s1) (call_eval_con_normals p) = Inl (e, tr)"
      by (simp add: bind_err_def)
    from bind_err_Inl[OF this]
    have "(check_clip_x (kx k') (p_nb p) = Inl e \<and> tr = trace s @ [KernelCall (ks s) k']) \<or>
            (\<exists>y. check_clip_x (kx k') (p_nb p) = Inr y \<and>
               ((sf_grad env (sf s) y = Inl e \<and>
                 tr = trace s @ [KernelCall (ks s) k', GradCall y]) \<or>
                (\<exists>gv u. sf_grad env (sf s) y = Inr (gv, u) \<and>
                   eval_con_normals (kx k') (p_cons p) (p_la p) (p_n p) (p_m p) (p_meq p)
                     (p_mieq p) = Inl e \<and>
                   tr = trace s @ [KernelCall (ks s) k', GradCall y, NormalsCall (kx k')])))"
    proof
      assume "wrapped_grad env p s1 = Inl (e, tr)"
      from wrapped_grad_Inl_value[OF this] show ?thesis by (auto simp: s1)
    next
      assume "\<exists>u. wrapped_grad env p s1 = Inr u \<and> call_eval_con_normals p u = Inl (e, tr)"
      then obtain sa where a1: "wrapped_grad env p s1 = Inr sa"
        and a2: "call_eval_con_normals p sa = Inl (e, tr)" by blast
      from wrapped_grad_Inr_value[OF a1] obtain y gv u where
        y: "check_clip_x (kx (ks s1)) (p_nb p) = Inr y" and fv: "sf_grad env (sf s1) y = Inr (gv, u)"
        and sa: "sa = s1\<lparr>ks := (ks s1)\<lparr>kg := gv @ [Fin 0]\<rparr>, sf := u,
                         trace := trace s1 @ [GradCall y]\<rparr>" by blast
      from call_eval_con_normals_Inl_value[OF a2]
      have "eval_con_normals (kx k') (p_cons p) (p_la p) (p_n p) (p_m p) (p_meq p) (p_mieq p)
              = Inl e"
        "tr = trace s @ [KernelCall (ks s) k', GradCall y, NormalsCall (kx k')]"
        by (simp_all add: sa s1)
      moreover have "check_clip_x (kx k') (p_nb p) = Inr y" "sf_grad env (sf s) y = Inr (gv, u)"
        using y fv by (simp_all add: s1)
      ultimately show ?thesis by blast
    qed
    with g show ?thesis by simp
  next
    case t
    with B m1 have False by (simp add: bind_err_def)
    then show ?thesis ..
  qed
qed

lemma loop_body_raises_protocol:
  assumes "loop_body env p s = Inl (e, tr)"
  shows "\<exists>es. tr = trace s @ es \<and> protocol_raised (p_nb p) es"
proof -
  define k' where "k' = kernel env (p_m p) (p_meq p) (fx s) (ks s)"
  note r = loop_body_raises[OF assms, folded k'_def]
  from r have "mode k' = 1 \<or> mode k' = - 1" by blast
  then show ?thesis
  proof
    assume m: "mode k' = 1"
    with r consider
        (a) "check_clip_x (kx k') (p_nb p) = Inl e" "tr = trace s @ [KernelCall (ks s) k']"
      | (b) y where "check_clip_x (kx k') (p_nb p) = Inr y"
          "tr = trace s @ [KernelCall (ks s) k', FunCall y]"
      | (c) y where "check_clip_x (kx k') (p_nb p) = Inr y"
          "tr = trace s @ [KernelCall (ks s) k', FunCall y, ConstraintCall (kx k')]"
      by blast
    then show ?thesis
    proof cases
      case a
      have "protocol_raised (p_nb p) [KernelCall (ks s) k']" using m a(1) by simp
      with a(2) show ?thesis by blast
    next
      case b
      have "protocol_raised (p_nb p) [KernelCall (ks s) k', FunCall y]" using m b(1) by simp
      with b(2) show ?thesis by blast
    next
      case c
      have "protocol_raised (p_nb p) [KernelCall (ks s) k', FunCall y, ConstraintCall (kx k')]"
        using m c(1) by simp
      with c(2) show ?thesis by blast
    qed
  next
    assume m: "mode k' = - 1"
    with r consider
        (a) "check_clip_x (kx k') (p_nb p) = Inl e" "tr = trace s @ [KernelCall (ks s) k']"
      | (b) y where "check_clip_x (kx k') (p_nb p) = Inr y"
          "tr = trace s @ [KernelCall (ks s) k', GradCall y]"
      | (c) y where "check_clip_x (kx k') (p_nb p) = Inr y"
          "tr = trace s @ [KernelCall (ks s) k', GradCall y, NormalsCall (kx k')]"
      by blast
    then show ?thesis
    proof cases
      case a
      have "protocol_raised (p_nb p) [KernelCall (ks s) k']" using m a(1) by simp
      with a(2) show ?thesis by blast
    next
      case b
      have "protocol_raised (p_nb p) [KernelCall (ks s) k', GradCall y]" using m b(1) by simp
      with b(2) show ?thesis by blast
    next
      case c
      have "protocol_raised (p_nb p) [KernelCall (ks s) k', GradCall y, NormalsCall (kx k')]"
        using m c(1) by simp
      with c(2) show ?thesis by blast
    qed
  qed
qed

lemma protocol_raised_round:
  assumes "mode k' = 1 \<longrightarrow> (\<exists>y. check_clip_x (kx k') nb = Inr y \<and>
                      es = [FunCall y, ConstraintCall (kx k')])"
    and "mode k' = - 1 \<longrightarrow> (\<exists>y. check_clip_x (kx k') nb = Inr y \<and>
                      es = [GradCall y, NormalsCall (kx k')])"
    and "mode k' = 1 \<or> mode k' = - 1"
    and "protocol_raised nb rest"
  shows "protocol_raised nb (KernelCall k k' # es @ rest)"
  using assms by auto

text \<open>The calls of a loop that an exception has ended.\<close>

lemma drive_loop_raised:
  assumes "drive_loop env p s = Some r"
  shows "\<forall>e tr. r = Inl (e, tr) \<longrightarrow> (\<exists>es. tr = trace s @ es \<and> protocol_raised (p_nb p) es)"
proof -
  let ?Q = "\<lambda>(env :: 'a env) p (s :: 'a dstate) (r :: 'a dstate run).
    \<forall>e tr. r = Inl (e, tr) \<longrightarrow> (\<exists>es. tr = trace s @ es \<and> protocol_raised (p_nb p) es)"
  show ?thesis
  proof (rule drive_loop.raw_induct[where P = ?Q, OF _ assms])
    fix loop :: "'a env \<Rightarrow> problem \<Rightarrow> 'a dstate \<Rightarrow> 'a dstate run option"
      and env p s r
    assume IH: "\<And>env p s r. loop env p s = Some r \<Longrightarrow> ?Q env p s r"
      and H: "(case loop_body env p s of
                 Inl e \<Rightarrow> Some (Inl e)
               | Inr s' \<Rightarrow>
                   if \<bar>mode (ks s')\<bar> \<noteq> 1 then Some (Inr s')
                   else loop env p (s'\<lparr>majiter_prev := majiter (ks s')\<rparr>)) = Some r"
    define k' where "k' = kernel env (p_m p) (p_meq p) (fx s) (ks s)"
    show "?Q env p s r"
    proof (cases "loop_body env p s")
      case (Inl et)
      obtain e tr where et: "et = (e, tr)" by (cases et)
      from Inl et H have r: "r = Inl (e, tr)" by simp
      from loop_body_raises_protocol[of env p s e tr] Inl et
      have "\<exists>es. tr = trace s @ es \<and> protocol_raised (p_nb p) es" by simp
      with r show ?thesis by simp
    next
      case (Inr s')
      note lb = loop_body_Inr[OF Inr, folded k'_def]
      from lb obtain es where tr': "trace s' = trace s @ KernelCall (ks s) k' # es"
        and f: "mode k' = 1 \<longrightarrow> (\<exists>y. check_clip_x (kx k') (p_nb p) = Inr y \<and>
                      es = [FunCall y, ConstraintCall (kx k')])"
        and g: "mode k' = - 1 \<longrightarrow> (\<exists>y. check_clip_x (kx k') (p_nb p) = Inr y \<and>
                      es = [GradCall y, NormalsCall (kx k')])"
        by blast
      from lb have md: "mode (ks s') = mode k'" by simp
      show ?thesis
      proof (cases "\<bar>mode (ks s')\<bar> \<noteq> 1")
        case True
        with Inr H have "r = Inr s'" by simp
        then show ?thesis by simp
      next
        case False
        define s'' where "s'' = s'\<lparr>majiter_prev := majiter (ks s')\<rparr>"
        from False Inr H have "loop env p s'' = Some r" by (simp add: s''_def)
        note ih = IH[OF this]
        have tr'': "trace s'' = trace s @ KernelCall (ks s) k' # es" by (simp add: s''_def tr')
        from False md have m: "mode k' = 1 \<or> mode k' = - 1" by linarith
        show ?thesis
        proof (intro allI impI)
          fix e tr assume "r = Inl (e, tr)"
          with ih obtain es2 where a: "tr = trace s'' @ es2"
            and b: "protocol_raised (p_nb p) es2" by blast
          from a have "tr = trace s @ (KernelCall (ks s) k' # es @ es2)" by (simp add: tr'')
          moreover from protocol_raised_round[OF f g m b]
          have "protocol_raised (p_nb p) (KernelCall (ks s) k' # es @ es2)" .
          ultimately show "\<exists>es. tr = trace s @ es \<and> protocol_raised (p_nb p) es" by blast
        qed
      qed
    qed
  qed
qed

lemma drive_loop_step_raises:
  assumes "loop_body env p s = Inl e"
  shows "drive_loop env p s = Some (Inl e)"
  by (subst drive_loop.simps) (simp add: assms)

subsection \<open>The run with telling values, step by step\<close>

lemma pb_clip:
  "np_clip [Fin 3] ([Fin 0], [Fin 10]) = Inr [Fin 3]"
  "np_clip [Fin 7] ([Fin 0], [Fin 10]) = Inr [Fin 7]"
  by (simp_all add: np_clip_def broadcast_len_def broadcast_to_def npy_clip_def npy_max_def
        npy_min_def fl_isnan_def)

lemma pb_check_clip:
  "check_clip_x [Fin 0] ([Fin 0], [Fin 10]) = Inr [Fin 0]"
  "check_clip_x [Fin 3] ([Fin 0], [Fin 10]) = Inr [Fin 3]"
  "check_clip_x [Fin 7] ([Fin 0], [Fin 10]) = Inr [Fin 7]"
  by (simp_all add: check_clip_x_def ex_clip0 pb_clip)

lemma pb_triage:
  "triage env ([Fin 0], [Fin 10]) \<lparr>cons_eq = [], cons_ineq = []\<rparr> 0 [Dict probe_con]
     = Inr pb_cons"
  by (simp add: triage_one_def bind_err_def probe_con_def lower_eq Let_def pb_cons_def)

lemma pb_dims:
  "residual_dims [Fin 0] (cons_eq pb_cons) [] = Inr ([], [])"
  "residual_dims [Fin 0] (cons_ineq pb_cons) [] = Inr ([1], [ConFunCall [Fin 0]])"
  by (simp_all add: pb_cons_def bind_err_def)

lemma pb_env [simp]:
  "kernel (probe_env_with kf) = kf"
  "prepare_scalar_function (probe_env_with kf) xv nb = Inr (xv, 0, 0)"
  "sf_fun (probe_env_with kf) (pt, nf, ng) [Fin 0] = Inr (Fin 0, (pt, Suc nf, ng))"
  "sf_fun (probe_env_with kf) (pt, nf, ng) [Fin 3] = Inr (Fin 3, (pt, Suc nf, ng))"
  "sf_fun (probe_env_with kf) (pt, nf, ng) [Fin 7] = Inl (Raised (ByCaller ''objective''))"
  "sf_grad (probe_env_with kf) (pt, nf, ng) xv = Inr (xv, (pt, nf, Suc ng))"
  "sf_nfev (probe_env_with kf) (pt, nf, ng) = int nf"
  "sf_ngev (probe_env_with kf) (pt, nf, ng) = int ng"
  by (simp_all add: probe_env_with_def)

lemma pb_args [simp]:
  "x0 probe_args = [Fin (- 5)]"
  "bounds probe_args = Some [(Some (Fin 0), Some (Fin 10))]"
  "constraints probe_args = ConSeq [Dict probe_con]"
  "maxiter probe_args = 3"
  "ftol probe_args = Fin (1 / 1000000)"
  by (simp_all add: probe_args_def)

lemma pb_init: "initialise (probe_env_with kf) probe_args = Inr (pb_problem, pb_s0)"
  by (simp add: initialise_def ex_nb ex_clip as_sequence_def pb_triage pb_dims bind_err_def
        Let_def ex_len np_zeros_def ex_bounds to_int64_def pb_problem_def pb_s0_def ex_k0_def
        del: triage.simps residual_dims.simps)

lemma pb_problem_simps [simp]:
  "p_cons pb_problem = pb_cons" "p_nb pb_problem = ([Fin 0], [Fin 10])"
  "p_meq_cv pb_problem = []" "p_mieq_cv pb_problem = [1]"
  "p_meq pb_problem = 0" "p_mieq pb_problem = 1" "p_m pb_problem = 1"
  "p_la pb_problem = 1" "p_n pb_problem = 1"
  by (simp_all add: pb_problem_def)

lemma pb_eval_constraint: "eval_constraint xv pb_cons = Inr xv"
  by (simp add: eval_constraint_def pb_cons_def bind_err_def np_zeros_def)

lemma pb_eval_con_normals:
  "eval_con_normals [v] pb_cons 1 1 1 0 1 = Inr (Mat 1 2 [[v, Fin 0]])"
  by (simp add: eval_con_normals_def pb_cons_def bind_err_def np_zeros2_def np_vstack_def
        np_hstack2_def)

lemma pb_k_simps [simp]:
  "kx ex_k0 = [Fin 0]" "kx pb_k1 = [Fin 0]" "kx pb_ka = [Fin 3]" "kx pb_kb = [Fin 3]"
  "kx pb_kc = [Fin 3]" "kx pb_k7 = [Fin 7]"
  "mode pb_ka = 1" "mode pb_kb = - 1" "mode pb_kc = 0" "mode pb_k7 = 1"
  "majiter pb_k1 = 2" "majiter pb_ka = 1" "majiter pb_kb = 0" "majiter pb_kc = 0"
  by (simp_all add: pb_ka_def pb_kb_def pb_kc_def pb_k7_def pb_k1_def ex_k0_def)

lemma pb_prime: "prime (probe_env_with kf) pb_problem pb_s0 = Inr pb_s1"
  by (simp add: prime_def bind_err_def wrapped_fun_def wrapped_grad_def call_eval_constraint_def
        call_eval_con_normals_def pb_check_clip pb_eval_constraint pb_eval_con_normals
        pb_s0_def pb_s1_def pb_k1_def pb_tr1_def)

lemma pb_kernel:
  "stepping_kernel m meq f pb_k1 = pb_ka"
  "stepping_kernel m meq f (pb_ka\<lparr>kc := [Fin 3]\<rparr>) = pb_kb"
  "stepping_kernel m meq f (pb_kb\<lparr>kg := [Fin 3, Fin 0], ka := Mat (Suc 0) 2 [[Fin 3, Fin 0]]\<rparr>)
     = pb_kc"
  "straying_kernel m meq f pb_k1 = pb_k7"
  by (simp_all add: stepping_kernel_def straying_kernel_def pb_ka_def pb_kb_def pb_kc_def
        pb_k7_def pb_k1_def ex_k0_def)

lemma pb_s_simps [simp]:
  "ks pb_s1 = pb_k1" "fx pb_s1 = Fin 0" "sf pb_s1 = ([Fin 0], 1, 1)" "trace pb_s1 = pb_tr1"
  "ks pb_sa = pb_ka\<lparr>kc := [Fin 3]\<rparr>" "fx pb_sa = Fin 3" "sf pb_sa = ([Fin 0], 2, 1)"
  "ks pb_sb = pb_kb\<lparr>kg := [Fin 3, Fin 0], ka := Mat 1 2 [[Fin 3, Fin 0]]\<rparr>"
  "fx pb_sb = Fin 3" "sf pb_sb = ([Fin 0], 2, 2)"
  "ks pb_s2 = pb_kc" "fx pb_s2 = Fin 3" "sf pb_s2 = ([Fin 0], 2, 2)"
  "trace pb_s2 = pb_tr1 @ pb_rounds"
  by (simp_all add: pb_s1_def pb_sa_def pb_sb_def pb_s2_def)

lemma pb_body1: "loop_body probe_env pb_problem pb_s1 = Inr pb_sa"
  by (simp add: loop_body_def call_kernel_def bind_err_def Let_def probe_env_def pb_kernel
        wrapped_fun_def call_eval_constraint_def pb_check_clip pb_eval_constraint)
     (simp add: pb_s1_def pb_sa_def pb_rounds_def)

lemma pb_body2: "loop_body probe_env pb_problem (pb_sa\<lparr>majiter_prev := 1\<rparr>) = Inr pb_sb"
  by (simp add: loop_body_def call_kernel_def bind_err_def Let_def probe_env_def pb_kernel
        wrapped_grad_def call_eval_con_normals_def pb_check_clip pb_eval_con_normals)
     (simp add: pb_sa_def pb_sb_def pb_rounds_def)

lemma pb_body3: "loop_body probe_env pb_problem (pb_sb\<lparr>majiter_prev := 0\<rparr>) = Inr pb_s2"
  by (simp add: loop_body_def call_kernel_def bind_err_def Let_def probe_env_def pb_kernel)
     (simp add: pb_sb_def pb_s2_def pb_rounds_def)

lemma pb_loop: "drive_loop probe_env pb_problem pb_s1 = Some (Inr pb_s2)"
  apply (subst drive_loop.simps)
  apply (simp add: pb_body1)
  apply (subst drive_loop.simps)
  apply (simp add: pb_body2)
  apply (subst drive_loop.simps)
  apply (simp add: pb_body3)
  done

lemma pb_kc_fields:
  "kw pb_kc = replicate 81 (Fin 0)" "n1 pb_kc = 2" "kg pb_kc = [Fin 3, Fin 0]"
  by (simp_all add: pb_kc_def pb_kb_def pb_ka_def pb_k1_def ex_k0_def)

lemma pb_finish: "finish probe_env pb_problem pb_s2 = Inr (pb_result, pb_tr1 @ pb_rounds)"
  by (simp add: finish_def Let_def pb_kc_fields ex_kkt ex_exit pb_result_def probe_env_def)

lemma pb_run:
  "minimize_slsqp probe_env probe_args = Some (Inr (pb_result, pb_tr1 @ pb_rounds))"
  by (simp add: minimize_slsqp_def pb_init[of stepping_kernel, folded probe_env_def]
        pb_prime[of stepping_kernel, folded probe_env_def] pb_loop pb_finish)

lemma pb_body7:
  "loop_body stray_env pb_problem pb_s1 = Inl (Raised (ByCaller ''objective''), pb_tr7)"
  by (simp add: loop_body_def call_kernel_def bind_err_def Let_def stray_env_def pb_kernel
        wrapped_fun_def pb_check_clip pb_tr7_def)

lemma pb_loop7:
  "drive_loop stray_env pb_problem pb_s1 = Some (Inl (Raised (ByCaller ''objective''), pb_tr7))"
  by (subst drive_loop.simps) (simp add: pb_body7)

lemma pb_run7:
  "minimize_slsqp stray_env probe_args = Some (Inl (Raised (ByCaller ''objective''), pb_tr7))"
  by (simp add: minimize_slsqp_def pb_init[of straying_kernel, folded stray_env_def]
        pb_prime[of straying_kernel, folded stray_env_def] pb_loop7)

lemma pb_protocol: "protocol ([Fin 0], [Fin 10]) pb_rounds"
  by (simp add: pb_rounds_def pb_check_clip)

lemma pb_protocol_raised:
  "protocol_raised ([Fin 0], [Fin 10]) [KernelCall pb_k1 pb_k7, FunCall [Fin 7]]"
  by (simp add: pb_check_clip)

subsection \<open>The protocol of the iteration driver, with its values\<close>

lemma loop_turn:
  assumes "loop_body env p s = Inr s'"
  shows "let k' = kernel env (p_m p) (p_meq p) (fx s) (ks s)
         in (mode k' = 1 \<longrightarrow>
               (\<exists>y v u cv.
                  check_clip_x (kx k') (p_nb p) = Inr y \<and> sf_fun env (sf s) y = Inr (v, u) \<and>
                  eval_constraint (kx k') (p_cons p) = Inr cv \<and>
                  s' = s\<lparr>ks := k'\<lparr>kc := cv\<rparr>, fx := v, sf := u,
                         trace := trace s @ [KernelCall (ks s) k', FunCall y,
                                             ConstraintCall (kx k')]\<rparr>)) \<and>
            (mode k' = - 1 \<longrightarrow>
               (\<exists>y gv u av.
                  check_clip_x (kx k') (p_nb p) = Inr y \<and> sf_grad env (sf s) y = Inr (gv, u) \<and>
                  eval_con_normals (kx k') (p_cons p) (p_la p) (p_n p) (p_m p) (p_meq p)
                    (p_mieq p) = Inr av \<and>
                  s' = s\<lparr>ks := k'\<lparr>kg := gv @ [Fin 0], ka := av\<rparr>, sf := u,
                         trace := trace s @ [KernelCall (ks s) k', GradCall y,
                                             NormalsCall (kx k')]\<rparr>)) \<and>
            (mode k' \<noteq> 1 \<and> mode k' \<noteq> - 1 \<longrightarrow>
               s' = s\<lparr>ks := k', trace := trace s @ [KernelCall (ks s) k']\<rparr>) \<and>
            (if \<bar>mode k'\<bar> \<noteq> 1 then drive_loop env p s = Some (Inr s')
             else drive_loop env p s = drive_loop env p (s'\<lparr>majiter_prev := majiter (ks s')\<rparr>))"
proof -
  define k' where "k' = kernel env (p_m p) (p_meq p) (fx s) (ks s)"
  note v = loop_body_values[OF assms, folded k'_def]
  from loop_body_Inr[OF assms, folded k'_def] have md: "mode (ks s') = mode k'" by simp
  from drive_loop_step[OF assms] md
  have st: "if \<bar>mode k'\<bar> \<noteq> 1 then drive_loop env p s = Some (Inr s')
        else drive_loop env p s = drive_loop env p (s'\<lparr>majiter_prev := majiter (ks s')\<rparr>)"
    by simp
  show ?thesis unfolding Let_def k'_def[symmetric] using v st by blast
qed

lemma loop_turn_raises:
  assumes "loop_body env p s = Inl (e, tr)"
  shows "let k' = kernel env (p_m p) (p_meq p) (fx s) (ks s)
         in drive_loop env p s = Some (Inl (e, tr)) \<and>
            (mode k' = 1 \<or> mode k' = - 1) \<and>
            (mode k' = 1 \<longrightarrow>
               (check_clip_x (kx k') (p_nb p) = Inl e \<and> tr = trace s @ [KernelCall (ks s) k']) \<or>
               (\<exists>y. check_clip_x (kx k') (p_nb p) = Inr y \<and>
                  ((sf_fun env (sf s) y = Inl e \<and>
                    tr = trace s @ [KernelCall (ks s) k', FunCall y]) \<or>
                   (\<exists>v u. sf_fun env (sf s) y = Inr (v, u) \<and>
                      eval_constraint (kx k') (p_cons p) = Inl e \<and>
                      tr = trace s @ [KernelCall (ks s) k', FunCall y,
                                      ConstraintCall (kx k')])))) \<and>
            (mode k' = - 1 \<longrightarrow>
               (check_clip_x (kx k') (p_nb p) = Inl e \<and> tr = trace s @ [KernelCall (ks s) k']) \<or>
               (\<exists>y. check_clip_x (kx k') (p_nb p) = Inr y \<and>
                  ((sf_grad env (sf s) y = Inl e \<and>
                    tr = trace s @ [KernelCall (ks s) k', GradCall y]) \<or>
                   (\<exists>gv u. sf_grad env (sf s) y = Inr (gv, u) \<and>
                      eval_con_normals (kx k') (p_cons p) (p_la p) (p_n p) (p_m p) (p_meq p)
                        (p_mieq p) = Inl e \<and>
                      tr = trace s @ [KernelCall (ks s) k', GradCall y,
                                      NormalsCall (kx k')]))))"
  unfolding Let_def
  using loop_body_raises[OF assms] drive_loop_step_raises[OF assms] by blast

lemma run_protocol:
  assumes "minimize_slsqp env ar = Some r"
  shows "(isl r \<and> \<not> list_ex is_kernel_call (run_trace r)) \<or>
         (\<exists>pre y xv es.
            run_trace r = pre @ [FunCall y, GradCall y, ConstraintCall xv, NormalsCall xv] @ es \<and>
            \<not> list_ex is_kernel_call pre \<and>
            (protocol (make_new_bounds (bounds ar)) es \<or>
             isl r \<and> protocol_raised (make_new_bounds (bounds ar)) es))"
proof -
  from minimize_slsqp_cases[OF assms] consider
      (i) e tr where "initialise env ar = Inl (e, tr)" "r = Inl (e, tr)"
    | (p) p s0 e tr where "initialise env ar = Inr (p, s0)" "prime env p s0 = Inl (e, tr)"
        "r = Inl (e, tr)"
    | (l) p s0 s1 e tr where "initialise env ar = Inr (p, s0)" "prime env p s0 = Inr s1"
        "drive_loop env p s1 = Some (Inl (e, tr))" "r = Inl (e, tr)"
    | (f) p s0 s1 s2 where "initialise env ar = Inr (p, s0)" "prime env p s0 = Inr s1"
        "drive_loop env p s1 = Some (Inr s2)" "r = finish env p s2"
    by blast
  then show ?thesis
  proof cases
    case i
    from initialise_Inl_no_kernel[OF i(1)] i(2) show ?thesis by (simp add: run_trace_def)
  next
    case p
    from initialise_Inr_no_kernel[OF p(1)] prime_Inl_no_kernel[OF p(2)] p(3)
    show ?thesis by (auto simp: run_trace_def)
  next
    case l
    from initialise_Inr_no_kernel[OF l(1)] have nk: "\<not> list_ex is_kernel_call (trace s0)"
      and nb: "p_nb p = make_new_bounds (bounds ar)" by simp_all
    from prime_Inr[OF l(2)] obtain y where
      t1: "trace s1 = trace s0 @ [FunCall y, GradCall y, ConstraintCall (kx (ks s0)),
                                  NormalsCall (kx (ks s0))]" by blast
    from drive_loop_raised[OF l(3)] obtain es where t2: "tr = trace s1 @ es"
      and pe: "protocol_raised (p_nb p) es" by blast
    have "run_trace r = trace s0 @ [FunCall y, GradCall y, ConstraintCall (kx (ks s0)),
                                    NormalsCall (kx (ks s0))] @ es"
      using l(4) t1 t2 by (simp add: run_trace_def)
    moreover have "isl r" using l(4) by simp
    ultimately show ?thesis using nk pe nb by metis
  next
    case f
    from initialise_Inr_no_kernel[OF f(1)] have nk: "\<not> list_ex is_kernel_call (trace s0)"
      and nb: "p_nb p = make_new_bounds (bounds ar)" by simp_all
    from prime_Inr[OF f(2)] obtain y where
      t1: "trace s1 = trace s0 @ [FunCall y, GradCall y, ConstraintCall (kx (ks s0)),
                                  NormalsCall (kx (ks s0))]" by blast
    from drive_loop_protocol[OF f(3)] obtain es where t2: "trace s2 = trace s1 @ es"
      and pe: "protocol (p_nb p) es" by blast
    have "run_trace (finish env p s2) = trace s2"
      by (cases "finish env p s2") (auto simp: run_trace_def dest: finish_Inl finish_Inr)
    then have "run_trace r = trace s0 @ [FunCall y, GradCall y, ConstraintCall (kx (ks s0)),
                                    NormalsCall (kx (ks s0))] @ es"
      using f(4) t1 t2 by simp
    then show ?thesis using nk pe nb by metis
  qed
qed

text \<open>
  Claim C2. Before the loop the driver evaluates the objective, the gradient, the
  constraint residuals and the normals at the iterate, in this order and in every run that
  gets there: the state after them holds the values the evaluators returned, and no kernel
  call comes before them. Every turn of the loop calls the kernel on the current cells
  and objective value. When the mode the kernel returned is \<open>1\<close>, the turn assigns to
  \<open>fx\<close> the value of the objective and to \<open>c\<close> the constraint residuals at the iterate the
  kernel left, and changes nothing else; when it is \<open>-1\<close>, it assigns the gradient
  (with a zero appended) and the normals, and changes nothing else; when it is neither,
  it evaluates nothing. The loop ends after the turn exactly when the mode is neither \<open>1\<close>
  nor \<open>-1\<close>, whatever the values are, and otherwise goes on from the state of the turn. A
  turn raises only what the clipping wrapper or an evaluation its mode asks for raises,
  and then the loop ends with that exception. The calls of a loop that has ended by
  \<^verbatim>\<open>break\<close> are rounds of the protocol, and those of a loop that an exception has ended
  are such rounds and a last round cut short; the log of a whole run is the calls of the
  set-up, the four evaluations, and the calls of the loop, and the run is the set-up,
  these evaluations, the loop and the assembly of the result, ended by the first
  exception. These statements are about every turn, so they hold of the turns of a loop
  that never ends as well.
\<close>

theorem iteration_protocol:
  "(\<forall>s0 s1. prime env p s0 = Inr s1 \<longrightarrow>
       (\<exists>y v u gv u' cv av.
           check_clip_x (kx (ks s0)) (p_nb p) = Inr y \<and>
           sf_fun env (sf s0) y = Inr (v, u) \<and>
           sf_grad env u y = Inr (gv, u') \<and>
           eval_constraint (kx (ks s0)) (p_cons p) = Inr cv \<and>
           eval_con_normals (kx (ks s0)) (p_cons p) (p_la p) (p_n p) (p_m p) (p_meq p)
             (p_mieq p) = Inr av \<and>
           s1 = s0\<lparr>ks := (ks s0)\<lparr>kg := gv @ [Fin 0], kc := cv, ka := av\<rparr>, fx := v, sf := u',
                    trace := trace s0 @ [FunCall y, GradCall y, ConstraintCall (kx (ks s0)),
                                         NormalsCall (kx (ks s0))]\<rparr>)) \<and>
   (\<forall>s s'. loop_body env p s = Inr s' \<longrightarrow>
       (let k' = kernel env (p_m p) (p_meq p) (fx s) (ks s)
        in (mode k' = 1 \<longrightarrow>
              (\<exists>y v u cv.
                 check_clip_x (kx k') (p_nb p) = Inr y \<and> sf_fun env (sf s) y = Inr (v, u) \<and>
                 eval_constraint (kx k') (p_cons p) = Inr cv \<and>
                 s' = s\<lparr>ks := k'\<lparr>kc := cv\<rparr>, fx := v, sf := u,
                        trace := trace s @ [KernelCall (ks s) k', FunCall y,
                                            ConstraintCall (kx k')]\<rparr>)) \<and>
           (mode k' = - 1 \<longrightarrow>
              (\<exists>y gv u av.
                 check_clip_x (kx k') (p_nb p) = Inr y \<and> sf_grad env (sf s) y = Inr (gv, u) \<and>
                 eval_con_normals (kx k') (p_cons p) (p_la p) (p_n p) (p_m p) (p_meq p)
                   (p_mieq p) = Inr av \<and>
                 s' = s\<lparr>ks := k'\<lparr>kg := gv @ [Fin 0], ka := av\<rparr>, sf := u,
                        trace := trace s @ [KernelCall (ks s) k', GradCall y,
                                            NormalsCall (kx k')]\<rparr>)) \<and>
           (mode k' \<noteq> 1 \<and> mode k' \<noteq> - 1 \<longrightarrow>
              s' = s\<lparr>ks := k', trace := trace s @ [KernelCall (ks s) k']\<rparr>) \<and>
           (if \<bar>mode k'\<bar> \<noteq> 1 then drive_loop env p s = Some (Inr s')
            else drive_loop env p s
                   = drive_loop env p (s'\<lparr>majiter_prev := majiter (ks s')\<rparr>)))) \<and>
   (\<forall>s e tr. loop_body env p s = Inl (e, tr) \<longrightarrow>
       (let k' = kernel env (p_m p) (p_meq p) (fx s) (ks s)
        in drive_loop env p s = Some (Inl (e, tr)) \<and>
           (mode k' = 1 \<or> mode k' = - 1) \<and>
           (mode k' = 1 \<longrightarrow>
              (check_clip_x (kx k') (p_nb p) = Inl e \<and> tr = trace s @ [KernelCall (ks s) k']) \<or>
              (\<exists>y. check_clip_x (kx k') (p_nb p) = Inr y \<and>
                 ((sf_fun env (sf s) y = Inl e \<and>
                   tr = trace s @ [KernelCall (ks s) k', FunCall y]) \<or>
                  (\<exists>v u. sf_fun env (sf s) y = Inr (v, u) \<and>
                     eval_constraint (kx k') (p_cons p) = Inl e \<and>
                     tr = trace s @ [KernelCall (ks s) k', FunCall y,
                                     ConstraintCall (kx k')])))) \<and>
           (mode k' = - 1 \<longrightarrow>
              (check_clip_x (kx k') (p_nb p) = Inl e \<and> tr = trace s @ [KernelCall (ks s) k']) \<or>
              (\<exists>y. check_clip_x (kx k') (p_nb p) = Inr y \<and>
                 ((sf_grad env (sf s) y = Inl e \<and>
                   tr = trace s @ [KernelCall (ks s) k', GradCall y]) \<or>
                  (\<exists>gv u. sf_grad env (sf s) y = Inr (gv, u) \<and>
                     eval_con_normals (kx k') (p_cons p) (p_la p) (p_n p) (p_m p) (p_meq p)
                       (p_mieq p) = Inl e \<and>
                     tr = trace s @ [KernelCall (ks s) k', GradCall y,
                                     NormalsCall (kx k')])))))) \<and>
   (\<forall>s s2. drive_loop env p s = Some (Inr s2) \<longrightarrow>
       \<bar>mode (ks s2)\<bar> \<noteq> 1 \<and> (\<exists>es. trace s2 = trace s @ es \<and> protocol (p_nb p) es)) \<and>
   (\<forall>s e tr. drive_loop env p s = Some (Inl (e, tr)) \<longrightarrow>
       (\<exists>es. tr = trace s @ es \<and> protocol_raised (p_nb p) es)) \<and>
   (\<forall>ar r. minimize_slsqp env ar = Some r \<longrightarrow>
       (isl r \<and> \<not> list_ex is_kernel_call (run_trace r)) \<or>
       (\<exists>pre y xv es.
          run_trace r = pre @ [FunCall y, GradCall y, ConstraintCall xv, NormalsCall xv] @ es \<and>
          \<not> list_ex is_kernel_call pre \<and>
          (protocol (make_new_bounds (bounds ar)) es \<or>
           isl r \<and> protocol_raised (make_new_bounds (bounds ar)) es))) \<and>
   (\<forall>ar r. minimize_slsqp env ar = Some r \<longrightarrow>
       (\<exists>e tr. initialise env ar = Inl (e, tr) \<and> r = Inl (e, tr)) \<or>
       (\<exists>q s0 e tr. initialise env ar = Inr (q, s0) \<and> prime env q s0 = Inl (e, tr) \<and>
           r = Inl (e, tr)) \<or>
       (\<exists>q s0 s1 e tr. initialise env ar = Inr (q, s0) \<and> prime env q s0 = Inr s1 \<and>
           drive_loop env q s1 = Some (Inl (e, tr)) \<and> r = Inl (e, tr)) \<or>
       (\<exists>q s0 s1 s2. initialise env ar = Inr (q, s0) \<and> prime env q s0 = Inr s1 \<and>
           drive_loop env q s1 = Some (Inr s2) \<and> r = finish env q s2))"
proof (intro conjI allI impI)
  fix s0 s1 :: "'a dstate"
  assume "prime env p s0 = Inr s1"
  then show "\<exists>y v u gv u' cv av.
           check_clip_x (kx (ks s0)) (p_nb p) = Inr y \<and>
           sf_fun env (sf s0) y = Inr (v, u) \<and>
           sf_grad env u y = Inr (gv, u') \<and>
           eval_constraint (kx (ks s0)) (p_cons p) = Inr cv \<and>
           eval_con_normals (kx (ks s0)) (p_cons p) (p_la p) (p_n p) (p_m p) (p_meq p)
             (p_mieq p) = Inr av \<and>
           s1 = s0\<lparr>ks := (ks s0)\<lparr>kg := gv @ [Fin 0], kc := cv, ka := av\<rparr>, fx := v, sf := u',
                    trace := trace s0 @ [FunCall y, GradCall y, ConstraintCall (kx (ks s0)),
                                         NormalsCall (kx (ks s0))]\<rparr>"
    by (rule prime_values)
next
  fix s s' :: "'a dstate"
  assume "loop_body env p s = Inr s'"
  then show "let k' = kernel env (p_m p) (p_meq p) (fx s) (ks s)
        in (mode k' = 1 \<longrightarrow>
              (\<exists>y v u cv.
                 check_clip_x (kx k') (p_nb p) = Inr y \<and> sf_fun env (sf s) y = Inr (v, u) \<and>
                 eval_constraint (kx k') (p_cons p) = Inr cv \<and>
                 s' = s\<lparr>ks := k'\<lparr>kc := cv\<rparr>, fx := v, sf := u,
                        trace := trace s @ [KernelCall (ks s) k', FunCall y,
                                            ConstraintCall (kx k')]\<rparr>)) \<and>
           (mode k' = - 1 \<longrightarrow>
              (\<exists>y gv u av.
                 check_clip_x (kx k') (p_nb p) = Inr y \<and> sf_grad env (sf s) y = Inr (gv, u) \<and>
                 eval_con_normals (kx k') (p_cons p) (p_la p) (p_n p) (p_m p) (p_meq p)
                   (p_mieq p) = Inr av \<and>
                 s' = s\<lparr>ks := k'\<lparr>kg := gv @ [Fin 0], ka := av\<rparr>, sf := u,
                        trace := trace s @ [KernelCall (ks s) k', GradCall y,
                                            NormalsCall (kx k')]\<rparr>)) \<and>
           (mode k' \<noteq> 1 \<and> mode k' \<noteq> - 1 \<longrightarrow>
              s' = s\<lparr>ks := k', trace := trace s @ [KernelCall (ks s) k']\<rparr>) \<and>
           (if \<bar>mode k'\<bar> \<noteq> 1 then drive_loop env p s = Some (Inr s')
            else drive_loop env p s
                   = drive_loop env p (s'\<lparr>majiter_prev := majiter (ks s')\<rparr>))"
    by (rule loop_turn)
next
  fix s :: "'a dstate" and e tr
  assume "loop_body env p s = Inl (e, tr)"
  then show "let k' = kernel env (p_m p) (p_meq p) (fx s) (ks s)
        in drive_loop env p s = Some (Inl (e, tr)) \<and>
           (mode k' = 1 \<or> mode k' = - 1) \<and>
           (mode k' = 1 \<longrightarrow>
              (check_clip_x (kx k') (p_nb p) = Inl e \<and> tr = trace s @ [KernelCall (ks s) k']) \<or>
              (\<exists>y. check_clip_x (kx k') (p_nb p) = Inr y \<and>
                 ((sf_fun env (sf s) y = Inl e \<and>
                   tr = trace s @ [KernelCall (ks s) k', FunCall y]) \<or>
                  (\<exists>v u. sf_fun env (sf s) y = Inr (v, u) \<and>
                     eval_constraint (kx k') (p_cons p) = Inl e \<and>
                     tr = trace s @ [KernelCall (ks s) k', FunCall y,
                                     ConstraintCall (kx k')])))) \<and>
           (mode k' = - 1 \<longrightarrow>
              (check_clip_x (kx k') (p_nb p) = Inl e \<and> tr = trace s @ [KernelCall (ks s) k']) \<or>
              (\<exists>y. check_clip_x (kx k') (p_nb p) = Inr y \<and>
                 ((sf_grad env (sf s) y = Inl e \<and>
                   tr = trace s @ [KernelCall (ks s) k', GradCall y]) \<or>
                  (\<exists>gv u. sf_grad env (sf s) y = Inr (gv, u) \<and>
                     eval_con_normals (kx k') (p_cons p) (p_la p) (p_n p) (p_m p) (p_meq p)
                       (p_mieq p) = Inl e \<and>
                     tr = trace s @ [KernelCall (ks s) k', GradCall y,
                                     NormalsCall (kx k')]))))"
    by (rule loop_turn_raises)
next
  fix s s2 :: "'a dstate"
  assume h: "drive_loop env p s = Some (Inr s2)"
  from drive_loop_protocol[OF h] show "\<bar>mode (ks s2)\<bar> \<noteq> 1" by simp
  from drive_loop_protocol[OF h]
  show "\<exists>es. trace s2 = trace s @ es \<and> protocol (p_nb p) es" by simp
next
  fix s :: "'a dstate" and e tr
  assume "drive_loop env p s = Some (Inl (e, tr))"
  from drive_loop_raised[OF this]
  show "\<exists>es. tr = trace s @ es \<and> protocol_raised (p_nb p) es" by simp
next
  fix ar r
  assume "minimize_slsqp env ar = Some r"
  then show "(isl r \<and> \<not> list_ex is_kernel_call (run_trace r)) \<or>
       (\<exists>pre y xv es.
          run_trace r = pre @ [FunCall y, GradCall y, ConstraintCall xv, NormalsCall xv] @ es \<and>
          \<not> list_ex is_kernel_call pre \<and>
          (protocol (make_new_bounds (bounds ar)) es \<or>
           isl r \<and> protocol_raised (make_new_bounds (bounds ar)) es))"
    by (rule run_protocol)
next
  fix ar r
  assume "minimize_slsqp env ar = Some r"
  then show
    "(\<exists>e tr. initialise env ar = Inl (e, tr) \<and> r = Inl (e, tr)) \<or>
       (\<exists>q s0 e tr. initialise env ar = Inr (q, s0) \<and> prime env q s0 = Inl (e, tr) \<and>
           r = Inl (e, tr)) \<or>
       (\<exists>q s0 s1 e tr. initialise env ar = Inr (q, s0) \<and> prime env q s0 = Inr s1 \<and>
           drive_loop env q s1 = Some (Inl (e, tr)) \<and> r = Inl (e, tr)) \<or>
       (\<exists>q s0 s1 s2. initialise env ar = Inr (q, s0) \<and> prime env q s0 = Inr s1 \<and>
           drive_loop env q s1 = Some (Inr s2) \<and> r = finish env q s2)"
    by (rule minimize_slsqp_cases)
qed

text \<open>
  The theorem of C2 in the runs with telling values: the four evaluations before the loop
  at \<open>[0]\<close>; the first turn (mode 1: the objective and the residuals at \<open>[3]\<close>, the
  gradient and the normals kept, the loop goes on); the second turn (mode -1: the
  gradient and the normals at \<open>[3]\<close>, the objective and the residuals kept); the third
  turn (mode 0: nothing evaluated, the loop ends); and the turn whose objective raises at
  \<open>[7]\<close>, which ends the loop and the run with that exception.
\<close>

theorem iteration_protocol_witness:
  "prime probe_env pb_problem pb_s0 = Inr pb_s1 \<and>
   fx pb_s1 = Fin 0 \<and> kg (ks pb_s1) = [Fin 0, Fin 0] \<and> kc (ks pb_s1) = [Fin 0] \<and>
   ka (ks pb_s1) = Mat 1 2 [[Fin 0, Fin 0]] \<and> sf pb_s1 = ([Fin 0], 1, 1) \<and>
   trace pb_s1 = trace pb_s0 @ [FunCall [Fin 0], GradCall [Fin 0], ConstraintCall [Fin 0],
                                NormalsCall [Fin 0]] \<and>
   loop_body probe_env pb_problem pb_s1 = Inr pb_sa \<and>
   kernel probe_env 1 0 (Fin 0) pb_k1 = pb_ka \<and> mode pb_ka = 1 \<and> kx pb_ka = [Fin 3] \<and>
   fx pb_sa = Fin 3 \<and> kc (ks pb_sa) = [Fin 3] \<and> kg (ks pb_sa) = [Fin 0, Fin 0] \<and>
   ka (ks pb_sa) = Mat 1 2 [[Fin 0, Fin 0]] \<and> sf pb_sa = ([Fin 0], 2, 1) \<and>
   trace pb_sa = trace pb_s1 @ [KernelCall pb_k1 pb_ka, FunCall [Fin 3], ConstraintCall [Fin 3]] \<and>
   drive_loop probe_env pb_problem pb_s1
     = drive_loop probe_env pb_problem (pb_sa\<lparr>majiter_prev := 1\<rparr>) \<and>
   loop_body probe_env pb_problem (pb_sa\<lparr>majiter_prev := 1\<rparr>) = Inr pb_sb \<and>
   kernel probe_env 1 0 (Fin 3) (ks pb_sa) = pb_kb \<and> mode pb_kb = - 1 \<and>
   fx pb_sb = Fin 3 \<and> kc (ks pb_sb) = [Fin 3] \<and> kg (ks pb_sb) = [Fin 3, Fin 0] \<and>
   ka (ks pb_sb) = Mat 1 2 [[Fin 3, Fin 0]] \<and> sf pb_sb = ([Fin 0], 2, 2) \<and>
   loop_body probe_env pb_problem (pb_sb\<lparr>majiter_prev := 0\<rparr>) = Inr pb_s2 \<and>
   kernel probe_env 1 0 (Fin 3) (ks pb_sb) = pb_kc \<and> mode pb_kc = 0 \<and>
   pb_s2 = pb_sb\<lparr>majiter_prev := 0, ks := pb_kc,
                  trace := trace pb_sb @ [KernelCall (ks pb_sb) pb_kc]\<rparr> \<and>
   drive_loop probe_env pb_problem (pb_sb\<lparr>majiter_prev := 0\<rparr>) = Some (Inr pb_s2) \<and>
   drive_loop probe_env pb_problem pb_s1 = Some (Inr pb_s2) \<and>
   trace pb_s2 = trace pb_s1 @ pb_rounds \<and> protocol (p_nb pb_problem) pb_rounds \<and>
   loop_body stray_env pb_problem pb_s1 = Inl (Raised (ByCaller ''objective''), pb_tr7) \<and>
   kernel stray_env 1 0 (Fin 0) pb_k1 = pb_k7 \<and> mode pb_k7 = 1 \<and>
   sf_fun stray_env (sf pb_s1) [Fin 7] = Inl (Raised (ByCaller ''objective'')) \<and>
   drive_loop stray_env pb_problem pb_s1
     = Some (Inl (Raised (ByCaller ''objective''), pb_tr7)) \<and>
   pb_tr7 = trace pb_s1 @ [KernelCall pb_k1 pb_k7, FunCall [Fin 7]] \<and>
   protocol_raised (p_nb pb_problem) [KernelCall pb_k1 pb_k7, FunCall [Fin 7]] \<and>
   minimize_slsqp probe_env probe_args = Some (Inr (pb_result, pb_tr1 @ pb_rounds)) \<and>
   minimize_slsqp stray_env probe_args = Some (Inl (Raised (ByCaller ''objective''), pb_tr7)) \<and>
   (\<exists>pre y xv es.
       pb_tr1 @ pb_rounds = pre @ [FunCall y, GradCall y, ConstraintCall xv, NormalsCall xv] @ es \<and>
       \<not> list_ex is_kernel_call pre \<and> protocol (make_new_bounds (bounds probe_args)) es) \<and>
   (\<exists>q s0 s1. initialise stray_env probe_args = Inr (q, s0) \<and> prime stray_env q s0 = Inr s1 \<and>
       drive_loop stray_env q s1 = Some (Inl (Raised (ByCaller ''objective''), pb_tr7)))"
proof -
  note t = iteration_protocol[of probe_env pb_problem]
  note t7 = iteration_protocol[of stray_env pb_problem]
  have pr: "prime probe_env pb_problem pb_s0 = Inr pb_s1"
    unfolding probe_env_def by (rule pb_prime)
  have k0: "ks pb_s0 = ex_k0" "sf pb_s0 = ([Fin 0], 0, 0)" by (simp_all add: pb_s0_def)
  have env: "kernel probe_env = stepping_kernel" "kernel stray_env = straying_kernel"
    by (simp_all add: probe_env_def stray_env_def)
  from t[THEN conjunct1, rule_format, OF pr] obtain y v u gv u' cv av where
    y: "check_clip_x (kx (ks pb_s0)) (p_nb pb_problem) = Inr y"
    and f: "sf_fun probe_env (sf pb_s0) y = Inr (v, u)"
    and g: "sf_grad probe_env u y = Inr (gv, u')"
    and c: "eval_constraint (kx (ks pb_s0)) (p_cons pb_problem) = Inr cv"
    and a: "eval_con_normals (kx (ks pb_s0)) (p_cons pb_problem) (p_la pb_problem)
              (p_n pb_problem) (p_m pb_problem) (p_meq pb_problem) (p_mieq pb_problem) = Inr av"
    and s1: "pb_s1 = pb_s0\<lparr>ks := (ks pb_s0)\<lparr>kg := gv @ [Fin 0], kc := cv, ka := av\<rparr>, fx := v,
                sf := u', trace := trace pb_s0 @ [FunCall y, GradCall y,
                  ConstraintCall (kx (ks pb_s0)), NormalsCall (kx (ks pb_s0))]\<rparr>"
    by blast
  from y have y0: "y = [Fin 0]" by (simp add: k0 pb_check_clip)
  from f y0 have v: "v = Fin 0" "u = ([Fin 0], 1, 0)" by (auto simp: k0 probe_env_def)
  from g y0 v have gv: "gv = [Fin 0]" "u' = ([Fin 0], 1, 1)" by (auto simp: probe_env_def)
  from c have cv: "cv = [Fin 0]" by (simp add: k0 pb_eval_constraint)
  from a have av: "av = Mat 1 2 [[Fin 0, Fin 0]]" by (simp add: k0 pb_eval_con_normals)
  from arg_cong[OF s1, of fx] v have p1: "fx pb_s1 = Fin 0" by simp
  from arg_cong[OF s1, of "\<lambda>s. kg (ks s)"] gv have p2: "kg (ks pb_s1) = [Fin 0, Fin 0]" by simp
  from arg_cong[OF s1, of "\<lambda>s. kc (ks s)"] cv have p3: "kc (ks pb_s1) = [Fin 0]" by simp
  from arg_cong[OF s1, of "\<lambda>s. ka (ks s)"] av have p4: "ka (ks pb_s1) = Mat 1 2 [[Fin 0, Fin 0]]"
    by simp
  from arg_cong[OF s1, of sf] gv have p5: "sf pb_s1 = ([Fin 0], 1, 1)" by simp
  from arg_cong[OF s1, of trace] y0 have p6: "trace pb_s1 = trace pb_s0 @ [FunCall [Fin 0],
      GradCall [Fin 0], ConstraintCall [Fin 0], NormalsCall [Fin 0]]" by (simp add: k0)
  have ka: "kernel probe_env 1 0 (Fin 0) pb_k1 = pb_ka" by (simp add: env pb_kernel)
  note b1 = t[THEN conjunct2, THEN conjunct1, rule_format, OF pb_body1,
              unfolded Let_def pb_s_simps pb_problem_simps ka]
  from b1 have "\<exists>y v u cv.
      check_clip_x (kx pb_ka) ([Fin 0], [Fin 10]) = Inr y \<and>
      sf_fun probe_env ([Fin 0], 1, 1) y = Inr (v, u) \<and>
      eval_constraint (kx pb_ka) pb_cons = Inr cv \<and>
      pb_sa = pb_s1\<lparr>ks := pb_ka\<lparr>kc := cv\<rparr>, fx := v, sf := u,
                trace := pb_tr1 @ [KernelCall pb_k1 pb_ka, FunCall y, ConstraintCall (kx pb_ka)]\<rparr>"
    by simp
  then obtain y1 v1 u1 cv1 where
    y1: "check_clip_x (kx pb_ka) ([Fin 0], [Fin 10]) = Inr y1"
    and f1: "sf_fun probe_env ([Fin 0], 1, 1) y1 = Inr (v1, u1)"
    and c1: "eval_constraint (kx pb_ka) pb_cons = Inr cv1"
    and sa: "pb_sa = pb_s1\<lparr>ks := pb_ka\<lparr>kc := cv1\<rparr>, fx := v1, sf := u1,
                trace := pb_tr1 @ [KernelCall pb_k1 pb_ka, FunCall y1, ConstraintCall (kx pb_ka)]\<rparr>"
    by blast
  from y1 have y13: "y1 = [Fin 3]" by (simp add: pb_check_clip)
  from f1 y13 have v1: "v1 = Fin 3" "u1 = ([Fin 0], 2, 1)" by (auto simp: probe_env_def)
  from c1 have cv1: "cv1 = [Fin 3]" by (simp add: pb_eval_constraint)
  from arg_cong[OF sa, of fx] v1 have q1: "fx pb_sa = Fin 3" by simp
  from arg_cong[OF sa, of "\<lambda>s. kc (ks s)"] cv1 have q2: "kc (ks pb_sa) = [Fin 3]" by simp
  from arg_cong[OF sa, of "\<lambda>s. kg (ks s)"] have q3: "kg (ks pb_sa) = [Fin 0, Fin 0]"
    by (simp add: pb_ka_def pb_k1_def)
  from arg_cong[OF sa, of "\<lambda>s. ka (ks s)"] have q4: "ka (ks pb_sa) = Mat 1 2 [[Fin 0, Fin 0]]"
    by (simp add: pb_ka_def pb_k1_def)
  from arg_cong[OF sa, of sf] v1 have q5: "sf pb_sa = ([Fin 0], 2, 1)" by simp
  from arg_cong[OF sa, of trace] y13 have q6: "trace pb_sa = trace pb_s1
      @ [KernelCall pb_k1 pb_ka, FunCall [Fin 3], ConstraintCall [Fin 3]]" by simp
  from b1 have q7: "drive_loop probe_env pb_problem pb_s1
     = drive_loop probe_env pb_problem (pb_sa\<lparr>majiter_prev := 1\<rparr>)" by simp
  have kb: "kernel probe_env 1 0 (Fin 3) (pb_ka\<lparr>kc := [Fin 3]\<rparr>) = pb_kb"
    by (simp add: env pb_kernel)
  have sa': "ks (pb_sa\<lparr>majiter_prev := 1\<rparr>) = pb_ka\<lparr>kc := [Fin 3]\<rparr>"
    "fx (pb_sa\<lparr>majiter_prev := 1\<rparr>) = Fin 3" "sf (pb_sa\<lparr>majiter_prev := 1\<rparr>) = ([Fin 0], 2, 1)"
    by simp_all
  note b2 = t[THEN conjunct2, THEN conjunct1, rule_format, OF pb_body2,
              unfolded Let_def sa' pb_problem_simps kb]
  from b2 obtain y2 gv2 u2 av2 where
    y2: "check_clip_x (kx pb_kb) ([Fin 0], [Fin 10]) = Inr y2"
    and g2: "sf_grad probe_env ([Fin 0], 2, 1) y2 = Inr (gv2, u2)"
    and a2: "eval_con_normals (kx pb_kb) pb_cons 1 1 1 0 1 = Inr av2"
    and sb: "pb_sb = pb_sa\<lparr>majiter_prev := 1, ks := pb_kb\<lparr>kg := gv2 @ [Fin 0], ka := av2\<rparr>,
                sf := u2,
                trace := trace (pb_sa\<lparr>majiter_prev := 1\<rparr>)
                  @ [KernelCall (pb_ka\<lparr>kc := [Fin 3]\<rparr>) pb_kb, GradCall y2,
                     NormalsCall (kx pb_kb)]\<rparr>"
    by auto
  from y2 have y23: "y2 = [Fin 3]" by (simp add: pb_check_clip)
  from g2 y23 have gv2: "gv2 = [Fin 3]" "u2 = ([Fin 0], 2, 2)" by (auto simp: probe_env_def)
  from a2 have av2: "av2 = Mat 1 2 [[Fin 3, Fin 0]]" by (simp add: pb_eval_con_normals)
  from arg_cong[OF sb, of fx] q1 have r1: "fx pb_sb = Fin 3" by simp
  from arg_cong[OF sb, of "\<lambda>s. kc (ks s)"] have r2: "kc (ks pb_sb) = [Fin 3]"
    by (simp add: pb_kb_def)
  from arg_cong[OF sb, of "\<lambda>s. kg (ks s)"] gv2 have r3: "kg (ks pb_sb) = [Fin 3, Fin 0]" by simp
  from arg_cong[OF sb, of "\<lambda>s. ka (ks s)"] av2 have r4: "ka (ks pb_sb) = Mat 1 2 [[Fin 3, Fin 0]]"
    by simp
  from arg_cong[OF sb, of sf] gv2 have r5: "sf pb_sb = ([Fin 0], 2, 2)" by simp
  have kc: "kernel probe_env 1 0 (Fin 3)
              (pb_kb\<lparr>kg := [Fin 3, Fin 0], ka := Mat (Suc 0) 2 [[Fin 3, Fin 0]]\<rparr>) = pb_kc"
    by (simp add: env pb_kernel)
  have sb': "ks (pb_sb\<lparr>majiter_prev := 0\<rparr>)
               = pb_kb\<lparr>kg := [Fin 3, Fin 0], ka := Mat (Suc 0) 2 [[Fin 3, Fin 0]]\<rparr>"
    "fx (pb_sb\<lparr>majiter_prev := 0\<rparr>) = Fin 3"
    by simp_all
  note b3 = t[THEN conjunct2, THEN conjunct1, rule_format, OF pb_body3,
              unfolded Let_def sb' pb_problem_simps kc]
  from b3 have w1: "pb_s2 = pb_sb\<lparr>majiter_prev := 0, ks := pb_kc,
                  trace := trace pb_sb @ [KernelCall (ks pb_sb) pb_kc]\<rparr>"
    and w2: "drive_loop probe_env pb_problem (pb_sb\<lparr>majiter_prev := 0\<rparr>) = Some (Inr pb_s2)"
    by simp_all
  from t[THEN conjunct2, THEN conjunct2, THEN conjunct2, THEN conjunct1, rule_format, OF pb_loop]
  obtain es where e: "trace pb_s2 = trace pb_s1 @ es" and pe: "protocol (p_nb pb_problem) es"
    by blast
  from e have "es = pb_rounds" by simp
  with e pe have x1: "trace pb_s2 = trace pb_s1 @ pb_rounds" "protocol (p_nb pb_problem) pb_rounds"
    by simp_all
  have k7: "kernel stray_env 1 0 (Fin 0) pb_k1 = pb_k7" by (simp add: env pb_kernel)
  note b7 = t7[THEN conjunct2, THEN conjunct2, THEN conjunct1, rule_format, OF pb_body7,
               unfolded Let_def pb_s_simps pb_problem_simps k7]
  from b7 have z1: "drive_loop stray_env pb_problem pb_s1
     = Some (Inl (Raised (ByCaller ''objective''), pb_tr7))" by simp
  have z2: "sf_fun stray_env (sf pb_s1) [Fin 7] = Inl (Raised (ByCaller ''objective''))"
    by (simp add: stray_env_def)
  from t7[THEN conjunct2, THEN conjunct2, THEN conjunct2, THEN conjunct2, THEN conjunct1,
          rule_format, OF z1]
  obtain es7 where e7: "pb_tr7 = trace pb_s1 @ es7"
    and pe7: "protocol_raised (p_nb pb_problem) es7" by blast
  from e7 have "es7 = [KernelCall pb_k1 pb_k7, FunCall [Fin 7]]" by (simp add: pb_tr7_def)
  with e7 pe7 have z3: "pb_tr7 = trace pb_s1 @ [KernelCall pb_k1 pb_k7, FunCall [Fin 7]]"
    "protocol_raised (p_nb pb_problem) [KernelCall pb_k1 pb_k7, FunCall [Fin 7]]"
    by simp_all
  have ks: "ks pb_sa = pb_ka\<lparr>kc := [Fin 3]\<rparr>"
    "ks pb_sb = pb_kb\<lparr>kg := [Fin 3, Fin 0], ka := Mat 1 2 [[Fin 3, Fin 0]]\<rparr>"
    by simp_all
  from t[THEN conjunct2, THEN conjunct2, THEN conjunct2, THEN conjunct2, THEN conjunct2,
         THEN conjunct1, rule_format, OF pb_run]
  have y6: "\<exists>pre y xv es.
       pb_tr1 @ pb_rounds = pre @ [FunCall y, GradCall y, ConstraintCall xv, NormalsCall xv] @ es \<and>
       \<not> list_ex is_kernel_call pre \<and> protocol (make_new_bounds (bounds probe_args)) es"
    by (simp add: run_trace_def)
  have i7: "initialise stray_env probe_args = Inr (pb_problem, pb_s0)"
    unfolding stray_env_def by (rule pb_init)
  have pr7: "prime stray_env pb_problem pb_s0 = Inr pb_s1"
    unfolding stray_env_def by (rule pb_prime)
  from t7[THEN conjunct2, THEN conjunct2, THEN conjunct2, THEN conjunct2, THEN conjunct2,
          THEN conjunct2, rule_format, OF pb_run7] i7 pr7 pb_loop7
  have y7: "\<exists>q s0 s1. initialise stray_env probe_args = Inr (q, s0) \<and>
       prime stray_env q s0 = Inr s1 \<and>
       drive_loop stray_env q s1 = Some (Inl (Raised (ByCaller ''objective''), pb_tr7))"
    by auto
  have main: "prime probe_env pb_problem pb_s0 = Inr pb_s1 \<and>
   fx pb_s1 = Fin 0 \<and> kg (ks pb_s1) = [Fin 0, Fin 0] \<and> kc (ks pb_s1) = [Fin 0] \<and>
   ka (ks pb_s1) = Mat 1 2 [[Fin 0, Fin 0]] \<and> sf pb_s1 = ([Fin 0], 1, 1) \<and>
   trace pb_s1 = trace pb_s0 @ [FunCall [Fin 0], GradCall [Fin 0], ConstraintCall [Fin 0],
                                NormalsCall [Fin 0]] \<and>
   loop_body probe_env pb_problem pb_s1 = Inr pb_sa \<and>
   kernel probe_env 1 0 (Fin 0) pb_k1 = pb_ka \<and> mode pb_ka = 1 \<and> kx pb_ka = [Fin 3] \<and>
   fx pb_sa = Fin 3 \<and> kc (ks pb_sa) = [Fin 3] \<and> kg (ks pb_sa) = [Fin 0, Fin 0] \<and>
   ka (ks pb_sa) = Mat 1 2 [[Fin 0, Fin 0]] \<and> sf pb_sa = ([Fin 0], 2, 1) \<and>
   trace pb_sa = trace pb_s1 @ [KernelCall pb_k1 pb_ka, FunCall [Fin 3], ConstraintCall [Fin 3]] \<and>
   drive_loop probe_env pb_problem pb_s1
     = drive_loop probe_env pb_problem (pb_sa\<lparr>majiter_prev := 1\<rparr>) \<and>
   loop_body probe_env pb_problem (pb_sa\<lparr>majiter_prev := 1\<rparr>) = Inr pb_sb \<and>
   kernel probe_env 1 0 (Fin 3) (ks pb_sa) = pb_kb \<and> mode pb_kb = - 1 \<and>
   fx pb_sb = Fin 3 \<and> kc (ks pb_sb) = [Fin 3] \<and> kg (ks pb_sb) = [Fin 3, Fin 0] \<and>
   ka (ks pb_sb) = Mat 1 2 [[Fin 3, Fin 0]] \<and> sf pb_sb = ([Fin 0], 2, 2) \<and>
   loop_body probe_env pb_problem (pb_sb\<lparr>majiter_prev := 0\<rparr>) = Inr pb_s2 \<and>
   kernel probe_env 1 0 (Fin 3) (ks pb_sb) = pb_kc \<and> mode pb_kc = 0 \<and>
   pb_s2 = pb_sb\<lparr>majiter_prev := 0, ks := pb_kc,
                  trace := trace pb_sb @ [KernelCall (ks pb_sb) pb_kc]\<rparr> \<and>
   drive_loop probe_env pb_problem (pb_sb\<lparr>majiter_prev := 0\<rparr>) = Some (Inr pb_s2) \<and>
   drive_loop probe_env pb_problem pb_s1 = Some (Inr pb_s2) \<and>
   trace pb_s2 = trace pb_s1 @ pb_rounds \<and> protocol (p_nb pb_problem) pb_rounds \<and>
   loop_body stray_env pb_problem pb_s1 = Inl (Raised (ByCaller ''objective''), pb_tr7) \<and>
   kernel stray_env 1 0 (Fin 0) pb_k1 = pb_k7 \<and> mode pb_k7 = 1 \<and>
   sf_fun stray_env (sf pb_s1) [Fin 7] = Inl (Raised (ByCaller ''objective'')) \<and>
   drive_loop stray_env pb_problem pb_s1
     = Some (Inl (Raised (ByCaller ''objective''), pb_tr7)) \<and>
   pb_tr7 = trace pb_s1 @ [KernelCall pb_k1 pb_k7, FunCall [Fin 7]] \<and>
   protocol_raised (p_nb pb_problem) [KernelCall pb_k1 pb_k7, FunCall [Fin 7]] \<and>
   minimize_slsqp probe_env probe_args = Some (Inr (pb_result, pb_tr1 @ pb_rounds)) \<and>
   minimize_slsqp stray_env probe_args = Some (Inl (Raised (ByCaller ''objective''), pb_tr7))"
    using pr p1 p2 p3 p4 p5 p6 pb_body1 ka q1 q2 q3 q4 q5 q6 q7 pb_body2 kb r1 r2 r3 r4 r5
      pb_body3 kc w1 w2 pb_loop x1 pb_body7 k7 z1 z2 z3 pb_run pb_run7
    by (simp add: ks)
  from main y6 y7 show ?thesis by blast
qed

subsection \<open>The clipped initial iterate and the evaluations before the loop\<close>

lemma npy_clip_in_box_iff:
  "fl_le lo (npy_clip v lo hi) \<and> fl_le (npy_clip v lo hi) hi \<longleftrightarrow> fl_le lo hi \<and> v \<noteq> NaN"
  by (cases v; cases lo; cases hi)
     (auto simp: npy_clip_def npy_max_def npy_min_def fl_isnan_def fl_le_def)

lemma npy_clip_inverted: "fl_less hi lo \<Longrightarrow> v \<noteq> NaN \<Longrightarrow> npy_clip v lo hi = hi"
  by (cases v; cases lo; cases hi)
     (auto simp: npy_clip_def npy_max_def npy_min_def fl_isnan_def)

lemma npy_clip_nan: "npy_clip NaN lo hi = NaN"
  by (simp add: npy_clip_def npy_max_def npy_min_def fl_isnan_def)

text \<open>\<^verbatim>\<open>np.clip\<close> component by component, on the arrays as numpy broadcasts them.\<close>

lemma np_clip_nth:
  assumes "np_clip xs nb = Inr xc" "i < length xc"
  shows "xc ! i = npy_clip (broadcast_to (length xc) xs ! i)
                    (broadcast_to (length xc) (fst nb) ! i)
                    (broadcast_to (length xc) (snd nb) ! i)"
proof -
  obtain kb k where kb: "broadcast_len (length (fst nb)) (length (snd nb)) = Some kb"
    and k: "broadcast_len (length xs) kb = Some k"
    and xc: "xc = map (\<lambda>(v, lo, hi). npy_clip v lo hi)
                    (zip (broadcast_to k xs)
                       (zip (broadcast_to k (fst nb)) (broadcast_to k (snd nb))))"
    using assms(1) by (auto simp: np_clip_def split: option.splits)
  have lx: "length (broadcast_to k xs) = k"
    using broadcast_len_cases[OF k] by (simp add: length_broadcast_to)
  have "(length (fst nb) = kb \<or> length (fst nb) = 1) \<and> (length (snd nb) = kb \<or> length (snd nb) = 1)"
    using broadcast_len_cases[OF kb] .
  moreover have "kb = k \<or> kb = 1" using broadcast_len_cases[OF k] by simp
  ultimately have ll: "length (broadcast_to k (fst nb)) = k"
    and lu: "length (broadcast_to k (snd nb)) = k"
    by (auto simp: broadcast_to_def)
  have ly: "length xc = k" using lx ll lu by (simp add: xc)
  show ?thesis using assms(2) lx ll lu unfolding ly by (simp add: xc)
qed

lemma np_clip_components:
  assumes "np_clip xs nb = Inr xc" "i < length xc"
  shows "let v = broadcast_to (length xc) xs ! i;
             lo = broadcast_to (length xc) (fst nb) ! i;
             hi = broadcast_to (length xc) (snd nb) ! i
         in xc ! i = npy_clip v lo hi \<and>
            (fl_le lo (xc ! i) \<and> fl_le (xc ! i) hi \<longleftrightarrow> fl_le lo hi \<and> v \<noteq> NaN) \<and>
            (fl_less hi lo \<and> v \<noteq> NaN \<longrightarrow> xc ! i = hi) \<and>
            (v = NaN \<longrightarrow> xc ! i = NaN)"
  unfolding Let_def np_clip_nth[OF assms]
  using npy_clip_in_box_iff npy_clip_inverted npy_clip_nan by auto

text \<open>What the set-up has evaluated, and where.\<close>

lemma initialise_evaluations:
  assumes "initialise env ar = Inr (p, s0)"
  shows "np_clip (x0 ar) (make_new_bounds (bounds ar)) = Inr (kx (ks s0)) \<and>
         p_nb p = make_new_bounds (bounds ar) \<and>
         check_clip_x (kx (ks s0)) (p_nb p) = Inr (kx (ks s0)) \<and>
         (\<exists>rs_eq rs_ineq.
            map_err (\<lambda>con. c_fun con (kx (ks s0))) (cons_eq (p_cons p)) = Inr rs_eq \<and>
            p_meq_cv p = map length rs_eq \<and>
            map_err (\<lambda>con. c_fun con (kx (ks s0))) (cons_ineq (p_cons p)) = Inr rs_ineq \<and>
            p_mieq_cv p = map length rs_ineq) \<and>
         prepare_scalar_function env (kx (ks s0)) (p_nb p) = Inr (sf s0) \<and>
         trace s0 = replicate (length (cons_eq (p_cons p)) + length (cons_ineq (p_cons p)))
                      (ConFunCall (kx (ks s0))) @ [PrepareCall (kx (ks s0))]"
proof -
  from initialise_Inr_point[OF assms]
  have c: "np_clip (x0 ar) (make_new_bounds (bounds ar)) = Inr (kx (ks s0))"
    and cc: "check_clip_x (kx (ks s0)) (p_nb p) = Inr (kx (ks s0))" by simp_all
  from initialise_Inr_no_kernel[OF assms] have nb: "p_nb p = make_new_bounds (bounds ar)"
    by simp
  from initialise_Inr_values[OF assms] obtain rs_eq rs_ineq where
    v: "map_err (\<lambda>con. c_fun con (kx (ks s0))) (cons_eq (p_cons p)) = Inr rs_eq"
       "p_meq_cv p = map length rs_eq"
       "map_err (\<lambda>con. c_fun con (kx (ks s0))) (cons_ineq (p_cons p)) = Inr rs_ineq"
       "p_mieq_cv p = map length rs_ineq"
       "prepare_scalar_function env (kx (ks s0)) (p_nb p) = Inr (sf s0)"
    by blast
  from initialise_Inr[OF assms] obtain cs meq_cv mieq_cv wv jwv xlv xuv sf0 where
    p: "p = \<lparr>p_cons = cs, p_nb = make_new_bounds (bounds ar), p_meq_cv = meq_cv,
                 p_mieq_cv = mieq_cv, p_meq = int (sum_list meq_cv),
                 p_mieq = int (sum_list mieq_cv),
                 p_m = int (sum_list meq_cv) + int (sum_list mieq_cv),
                 p_la = max 1 (int (sum_list meq_cv) + int (sum_list mieq_cv)),
                 p_n = int (length (kx (ks s0)))\<rparr>"
    and s: "s0 = \<lparr>ks = \<lparr>kx = kx (ks s0), kxl = xlv, kxu = xuv, kc = [], kg = [],
                         ka = Mat 0 0 [], kacc = ftol ar, majiter = maxiter ar - 1, mode = 0,
                         kw = wv, kjw = jwv,
                         rcells = replicate 10 (Fin 0), icells = replicate 5 0,
                         n1 = 0, n2 = 0, n3 = 0\<rparr>,
                  fx = Fin 0, sf = sf0, majiter_prev = 0,
                  trace = replicate (length (cons_eq cs) + length (cons_ineq cs))
                            (ConFunCall (kx (ks s0))) @ [PrepareCall (kx (ks s0))]\<rparr>"
    by blast
  from arg_cong[OF s, of trace]
  have t: "trace s0 = replicate (length (cons_eq cs) + length (cons_ineq cs))
                            (ConFunCall (kx (ks s0))) @ [PrepareCall (kx (ks s0))]" by simp
  from arg_cong[OF p, of p_cons] have pc: "p_cons p = cs" by simp
  have t': "trace s0 = replicate (length (cons_eq (p_cons p)) + length (cons_ineq (p_cons p)))
                      (ConFunCall (kx (ks s0))) @ [PrepareCall (kx (ks s0))]"
    using t pc by simp
  from c nb cc v t' show ?thesis by blast
qed

text \<open>What the four evaluations before the loop receive, after this set-up.\<close>

lemma prime_evaluations:
  assumes "initialise env ar = Inr (p, s0)" "prime env p s0 = Inr s1"
  shows "(\<exists>u gv. sf_fun env (sf s0) (kx (ks s0)) = Inr (fx s1, u) \<and>
                 sf_grad env u (kx (ks s0)) = Inr (gv, sf s1) \<and>
                 kg (ks s1) = gv @ [Fin 0]) \<and>
         eval_constraint (kx (ks s0)) (p_cons p) = Inr (kc (ks s1)) \<and>
         eval_con_normals (kx (ks s0)) (p_cons p) (p_la p) (p_n p) (p_m p) (p_meq p) (p_mieq p)
           = Inr (ka (ks s1)) \<and>
         kx (ks s1) = kx (ks s0) \<and>
         trace s1 = trace s0 @ [FunCall (kx (ks s0)), GradCall (kx (ks s0)),
                                ConstraintCall (kx (ks s0)), NormalsCall (kx (ks s0))]"
proof -
  from initialise_Inr_point[OF assms(1)]
  have cc: "check_clip_x (kx (ks s0)) (p_nb p) = Inr (kx (ks s0))" by simp
  from prime_values[OF assms(2)] cc obtain v u gv u' cv av where
    f: "sf_fun env (sf s0) (kx (ks s0)) = Inr (v, u)"
    and g: "sf_grad env u (kx (ks s0)) = Inr (gv, u')"
    and c: "eval_constraint (kx (ks s0)) (p_cons p) = Inr cv"
    and a: "eval_con_normals (kx (ks s0)) (p_cons p) (p_la p) (p_n p) (p_m p) (p_meq p)
              (p_mieq p) = Inr av"
    and s1: "s1 = s0\<lparr>ks := (ks s0)\<lparr>kg := gv @ [Fin 0], kc := cv, ka := av\<rparr>, fx := v, sf := u',
                trace := trace s0 @ [FunCall (kx (ks s0)), GradCall (kx (ks s0)),
                                     ConstraintCall (kx (ks s0)), NormalsCall (kx (ks s0))]\<rparr>"
    by auto
  have e: "fx s1 = v" "sf s1 = u'" "kg (ks s1) = gv @ [Fin 0]" "kc (ks s1) = cv"
    "ka (ks s1) = av" "kx (ks s1) = kx (ks s0)"
    "trace s1 = trace s0 @ [FunCall (kx (ks s0)), GradCall (kx (ks s0)),
                            ConstraintCall (kx (ks s0)), NormalsCall (kx (ks s0))]"
    by (simp_all add: s1)
  from f g c a show ?thesis unfolding e by blast
qed

text \<open>
  Claim C5, as the code has it. The iterate of the state that the set-up leaves is
  \<^verbatim>\<open>np.clip\<close> of \<open>x0\<close> against
  the bounds, and every evaluation before the first kernel call receives this array: the
  constraint functions of lines 126-127, whose values give the residual dimensions, the
  preparation of the objective adapter, and the objective, the gradient, the residuals
  and the normals of lines 217-220, whose values the state before the loop holds. The
  same holds of the calls logged in runs that end with an exception. Component by
  component the array is \<open>min(max(x0, lower), upper)\<close> on the arrays as numpy broadcasts
  them; it lies in \<open>[lower, upper]\<close> exactly when the lower bound does not exceed the
  upper one and the component of \<open>x0\<close> is a number: above a lower bound that exceeds the
  upper one it is the upper bound, and a component that is not a number stays so. With
  as many bound pairs as variables the bounds of a component are those of its pair (a
  missing bound being infinite); without bounds the array is \<open>x0\<close>. For the bounds
  \<open>[(0, 10)]\<close> and \<open>x0 = -5\<close> it is \<open>[0]\<close>, the first call of every log is an evaluation
  at \<open>[0]\<close>, and the objective is first evaluated at \<open>[0]\<close>. A run is this set-up, these
  four evaluations, the loop and the assembly of the result, ended by the first
  exception.
\<close>

theorem initial_iterate_clipped:
  "(\<forall>p s0. initialise env ar = Inr (p, s0) \<longrightarrow>
       np_clip (x0 ar) (make_new_bounds (bounds ar)) = Inr (kx (ks s0)) \<and>
       p_nb p = make_new_bounds (bounds ar) \<and>
       check_clip_x (kx (ks s0)) (p_nb p) = Inr (kx (ks s0)) \<and>
       (\<exists>rs_eq rs_ineq.
          map_err (\<lambda>con. c_fun con (kx (ks s0))) (cons_eq (p_cons p)) = Inr rs_eq \<and>
          p_meq_cv p = map length rs_eq \<and>
          map_err (\<lambda>con. c_fun con (kx (ks s0))) (cons_ineq (p_cons p)) = Inr rs_ineq \<and>
          p_mieq_cv p = map length rs_ineq) \<and>
       prepare_scalar_function env (kx (ks s0)) (p_nb p) = Inr (sf s0) \<and>
       trace s0 = replicate (length (cons_eq (p_cons p)) + length (cons_ineq (p_cons p)))
                    (ConFunCall (kx (ks s0))) @ [PrepareCall (kx (ks s0))] \<and>
       (\<forall>s1. prime env p s0 = Inr s1 \<longrightarrow>
           (\<exists>u gv. sf_fun env (sf s0) (kx (ks s0)) = Inr (fx s1, u) \<and>
                   sf_grad env u (kx (ks s0)) = Inr (gv, sf s1) \<and>
                   kg (ks s1) = gv @ [Fin 0]) \<and>
           eval_constraint (kx (ks s0)) (p_cons p) = Inr (kc (ks s1)) \<and>
           eval_con_normals (kx (ks s0)) (p_cons p) (p_la p) (p_n p) (p_m p) (p_meq p)
             (p_mieq p) = Inr (ka (ks s1)) \<and>
           kx (ks s1) = kx (ks s0) \<and>
           trace s1 = trace s0 @ [FunCall (kx (ks s0)), GradCall (kx (ks s0)),
                                  ConstraintCall (kx (ks s0)), NormalsCall (kx (ks s0))])) \<and>
   (\<forall>r. minimize_slsqp env ar = Some r \<longrightarrow>
       (\<forall>ev \<in> set (takeWhile (\<lambda>ev. \<not> is_kernel_call ev) (run_trace r)).
           \<exists>xc. np_clip (x0 ar) (make_new_bounds (bounds ar)) = Inr xc \<and>
                event_point ev = Some xc)) \<and>
   (\<forall>xc. np_clip (x0 ar) (make_new_bounds (bounds ar)) = Inr xc \<longrightarrow>
       (\<forall>i < length xc.
          let v = broadcast_to (length xc) (x0 ar) ! i;
              lo = broadcast_to (length xc) (fst (make_new_bounds (bounds ar))) ! i;
              hi = broadcast_to (length xc) (snd (make_new_bounds (bounds ar))) ! i
          in xc ! i = npy_clip v lo hi \<and>
             (fl_le lo (xc ! i) \<and> fl_le (xc ! i) hi \<longleftrightarrow> fl_le lo hi \<and> v \<noteq> NaN) \<and>
             (fl_less hi lo \<and> v \<noteq> NaN \<longrightarrow> xc ! i = hi) \<and>
             (v = NaN \<longrightarrow> xc ! i = NaN))) \<and>
   (\<forall>bs. bounds ar = Some bs \<and> bs \<noteq> [] \<and> length bs = length (x0 ar) \<longrightarrow>
       (\<exists>xc. np_clip (x0 ar) (make_new_bounds (bounds ar)) = Inr xc \<and>
             length xc = length (x0 ar) \<and>
             (\<forall>i < length xc.
                xc ! i = npy_clip (x0 ar ! i)
                           (case fst (bs ! i) of None \<Rightarrow> NegInf | Some v \<Rightarrow> v)
                           (case snd (bs ! i) of None \<Rightarrow> PosInf | Some v \<Rightarrow> v)))) \<and>
   (bounds ar = None \<or> bounds ar = Some [] \<longrightarrow>
       np_clip (x0 ar) (make_new_bounds (bounds ar)) = Inr (x0 ar)) \<and>
   (x0 ar = [Fin (- 5)] \<and> bounds ar = Some [(Some (Fin 0), Some (Fin 10))] \<longrightarrow>
       np_clip (x0 ar) (make_new_bounds (bounds ar)) = Inr [Fin 0] \<and>
       (\<forall>r ev es. minimize_slsqp env ar = Some r \<and> run_trace r = ev # es \<longrightarrow>
           event_point ev = Some [Fin 0]) \<and>
       (\<forall>p s0 s1. initialise env ar = Inr (p, s0) \<and> prime env p s0 = Inr s1 \<longrightarrow>
           (\<exists>u. sf_fun env (sf s0) [Fin 0] = Inr (fx s1, u)))) \<and>
   (\<forall>r. minimize_slsqp env ar = Some r \<longrightarrow>
       (\<exists>e tr. initialise env ar = Inl (e, tr) \<and> r = Inl (e, tr)) \<or>
       (\<exists>p s0 e tr. initialise env ar = Inr (p, s0) \<and> prime env p s0 = Inl (e, tr) \<and>
           r = Inl (e, tr)) \<or>
       (\<exists>p s0 s1 e tr. initialise env ar = Inr (p, s0) \<and> prime env p s0 = Inr s1 \<and>
           drive_loop env p s1 = Some (Inl (e, tr)) \<and> r = Inl (e, tr)) \<or>
       (\<exists>p s0 s1 s2. initialise env ar = Inr (p, s0) \<and> prime env p s0 = Inr s1 \<and>
           drive_loop env p s1 = Some (Inr s2) \<and> r = finish env p s2))"
proof (intro conjI allI impI ballI)
  fix p s0 assume i: "initialise env ar = Inr (p, s0)"
  note e = initialise_evaluations[OF i]
  from e show "np_clip (x0 ar) (make_new_bounds (bounds ar)) = Inr (kx (ks s0))" by blast
  from e show "p_nb p = make_new_bounds (bounds ar)" by blast
  from e show "check_clip_x (kx (ks s0)) (p_nb p) = Inr (kx (ks s0))" by blast
  from e show "\<exists>rs_eq rs_ineq.
          map_err (\<lambda>con. c_fun con (kx (ks s0))) (cons_eq (p_cons p)) = Inr rs_eq \<and>
          p_meq_cv p = map length rs_eq \<and>
          map_err (\<lambda>con. c_fun con (kx (ks s0))) (cons_ineq (p_cons p)) = Inr rs_ineq \<and>
          p_mieq_cv p = map length rs_ineq" by blast
  from e show "prepare_scalar_function env (kx (ks s0)) (p_nb p) = Inr (sf s0)" by blast
  from e show "trace s0 = replicate (length (cons_eq (p_cons p)) + length (cons_ineq (p_cons p)))
                    (ConFunCall (kx (ks s0))) @ [PrepareCall (kx (ks s0))]" by blast
  fix s1 assume pr: "prime env p s0 = Inr s1"
  note v = prime_evaluations[OF i pr]
  from v show "\<exists>u gv. sf_fun env (sf s0) (kx (ks s0)) = Inr (fx s1, u) \<and>
                   sf_grad env u (kx (ks s0)) = Inr (gv, sf s1) \<and>
                   kg (ks s1) = gv @ [Fin 0]" by blast
  from v show "eval_constraint (kx (ks s0)) (p_cons p) = Inr (kc (ks s1))" by blast
  from v show "eval_con_normals (kx (ks s0)) (p_cons p) (p_la p) (p_n p) (p_m p) (p_meq p)
             (p_mieq p) = Inr (ka (ks s1))" by blast
  from v show "kx (ks s1) = kx (ks s0)" by blast
  from v show "trace s1 = trace s0 @ [FunCall (kx (ks s0)), GradCall (kx (ks s0)),
                                  ConstraintCall (kx (ks s0)), NormalsCall (kx (ks s0))]" by blast
next
  fix r ev
  assume "minimize_slsqp env ar = Some r"
    and "ev \<in> set (takeWhile (\<lambda>ev. \<not> is_kernel_call ev) (run_trace r))"
  then show "\<exists>xc. np_clip (x0 ar) (make_new_bounds (bounds ar)) = Inr xc \<and>
                event_point ev = Some xc"
    by (rule calls_before_kernel)
next
  fix xc i
  assume "np_clip (x0 ar) (make_new_bounds (bounds ar)) = Inr xc" "i < length xc"
  then show "let v = broadcast_to (length xc) (x0 ar) ! i;
              lo = broadcast_to (length xc) (fst (make_new_bounds (bounds ar))) ! i;
              hi = broadcast_to (length xc) (snd (make_new_bounds (bounds ar))) ! i
          in xc ! i = npy_clip v lo hi \<and>
             (fl_le lo (xc ! i) \<and> fl_le (xc ! i) hi \<longleftrightarrow> fl_le lo hi \<and> v \<noteq> NaN) \<and>
             (fl_less hi lo \<and> v \<noteq> NaN \<longrightarrow> xc ! i = hi) \<and>
             (v = NaN \<longrightarrow> xc ! i = NaN)"
    by (rule np_clip_components)
next
  fix bs assume h: "bounds ar = Some bs \<and> bs \<noteq> [] \<and> length bs = length (x0 ar)"
  from np_clip_same_length_nth[of bs "x0 ar"] h
  show "\<exists>xc. np_clip (x0 ar) (make_new_bounds (bounds ar)) = Inr xc \<and>
             length xc = length (x0 ar) \<and>
             (\<forall>i < length xc.
                xc ! i = npy_clip (x0 ar ! i)
                           (case fst (bs ! i) of None \<Rightarrow> NegInf | Some v \<Rightarrow> v)
                           (case snd (bs ! i) of None \<Rightarrow> PosInf | Some v \<Rightarrow> v))"
    by auto
next
  assume "bounds ar = None \<or> bounds ar = Some []"
  then have "make_new_bounds (bounds ar) = ([NegInf], [PosInf])"
    by (auto simp: make_new_bounds_def)
  then show "np_clip (x0 ar) (make_new_bounds (bounds ar)) = Inr (x0 ar)"
    by (simp add: np_clip_unbounded)
next
  assume h: "x0 ar = [Fin (- 5)] \<and> bounds ar = Some [(Some (Fin 0), Some (Fin 10))]"
  then show c: "np_clip (x0 ar) (make_new_bounds (bounds ar)) = Inr [Fin 0]"
    by (simp add: ex_nb ex_clip)
  {
    fix r ev es
    assume a: "minimize_slsqp env ar = Some r \<and> run_trace r = ev # es"
    then have "\<not> is_kernel_call ev" using first_call_not_kernel by blast
    with a have "ev \<in> set (takeWhile (\<lambda>ev. \<not> is_kernel_call ev) (run_trace r))" by simp
    with a calls_before_kernel[of env ar r ev] c show "event_point ev = Some [Fin 0]" by auto
  }
  {
    fix p s0 s1
    assume a: "initialise env ar = Inr (p, s0) \<and> prime env p s0 = Inr s1"
    then have i: "initialise env ar = Inr (p, s0)" and pr: "prime env p s0 = Inr s1" by simp_all
    from initialise_evaluations[OF i] c have x: "kx (ks s0) = [Fin 0]" by simp
    from prime_evaluations[OF i pr] x
    show "\<exists>u. sf_fun env (sf s0) [Fin 0] = Inr (fx s1, u)" by auto
  }
next
  fix r
  assume "minimize_slsqp env ar = Some r"
  then show
    "(\<exists>e tr. initialise env ar = Inl (e, tr) \<and> r = Inl (e, tr)) \<or>
       (\<exists>p s0 e tr. initialise env ar = Inr (p, s0) \<and> prime env p s0 = Inl (e, tr) \<and>
           r = Inl (e, tr)) \<or>
       (\<exists>p s0 s1 e tr. initialise env ar = Inr (p, s0) \<and> prime env p s0 = Inr s1 \<and>
           drive_loop env p s1 = Some (Inl (e, tr)) \<and> r = Inl (e, tr)) \<or>
       (\<exists>p s0 s1 s2. initialise env ar = Inr (p, s0) \<and> prime env p s0 = Inr s1 \<and>
           drive_loop env p s1 = Some (Inr s2) \<and> r = finish env p s2)"
    by (rule minimize_slsqp_cases)
qed

lemma pb_triage_any:
  "triage env nb \<lparr>cons_eq = [], cons_ineq = []\<rparr> 0 [Dict probe_con] = Inr pb_cons"
  by (simp add: triage_one_def bind_err_def probe_con_def lower_eq Let_def pb_cons_def)

lemma pb_dims_any:
  "residual_dims xv (cons_eq pb_cons) [] = Inr ([], [])"
  "residual_dims [v] (cons_ineq pb_cons) [] = Inr ([1], [ConFunCall [v]])"
  by (simp_all add: pb_cons_def bind_err_def)

lemma inv_args [simp]:
  "x0 inverted_args = [Fin 0]"
  "bounds inverted_args = Some [(Some (Fin 1), Some (Fin (1 / 2)))]"
  "constraints inverted_args = ConSeq [Dict probe_con]"
  "maxiter inverted_args = 3"
  "ftol inverted_args = Fin (1 / 1000000)"
  by (simp_all add: inverted_args_def)

lemma inv_nb:
  "make_new_bounds (Some [(Some (Fin 1), Some (Fin (1 / 2)))]) = ([Fin 1], [Fin (1 / 2)])"
  by (simp add: make_new_bounds_def old_bound_to_new_def)

lemma inv_clip: "np_clip [Fin 0] ([Fin 1], [Fin (1 / 2)]) = Inr [Fin (1 / 2)]"
  by (simp add: np_clip_def broadcast_len_def broadcast_to_def npy_clip_def npy_max_def
        npy_min_def fl_isnan_def)

lemma inv_bounds:
  "decompose_bounds (Some [(Some (Fin 1), Some (Fin (1 / 2)))]) (Suc 0)
     = Inl (ValueError (LbGtUb [True]))"
  by (simp add: decompose_bounds_def Let_def bound_scalar_def)

lemma inv_init:
  "initialise (probe_env_with kf) inverted_args
     = Inl (ValueError (LbGtUb [True]), [ConFunCall [Fin (1 / 2)]])"
  by (simp add: initialise_def inv_nb inv_clip as_sequence_def pb_triage_any pb_dims_any
        bind_err_def Let_def ex_len np_zeros_def inv_bounds
        del: triage.simps residual_dims.simps)

lemma inv_run:
  "minimize_slsqp probe_env inverted_args
     = Some (Inl (ValueError (LbGtUb [True]), [ConFunCall [Fin (1 / 2)]]))"
  by (simp add: minimize_slsqp_def inv_init[of stepping_kernel, folded probe_env_def])

lemma nan_args_simps [simp]:
  "x0 nan_args = [NaN]"
  "bounds nan_args = Some [(Some (Fin 0), Some (Fin 10))]"
  "constraints nan_args = ConSeq [Dict probe_con]"
  "maxiter nan_args = 3"
  "ftol nan_args = Fin (1 / 1000000)"
  by (simp_all add: nan_args_def)

lemma nan_clip: "np_clip [NaN] ([Fin 0], [Fin 10]) = Inr [NaN]"
  by (simp add: np_clip_def broadcast_len_def broadcast_to_def npy_clip_def npy_max_def
        npy_min_def fl_isnan_def)

lemma nan_init: "initialise (probe_env_with kf) nan_args = Inr (pb_problem, nan_s0)"
  by (simp add: initialise_def ex_nb nan_clip as_sequence_def pb_triage_any pb_dims_any
        bind_err_def Let_def ex_len np_zeros_def ex_bounds to_int64_def pb_problem_def
        nan_s0_def ex_k0_def
        del: triage.simps residual_dims.simps)

text \<open>
  The theorem of C5 in the run with telling values (bounds \<open>[(0, 10)]\<close>, \<open>x0 = -5\<close>): the
  adapter is prepared at \<open>[0]\<close> and the objective, which returns the first component of
  its argument, has the value 0 before the loop. And without bounds.
\<close>

theorem initial_iterate_clipped_witness:
  "initialise probe_env probe_args = Inr (pb_problem, pb_s0) \<and>
   prime probe_env pb_problem pb_s0 = Inr pb_s1 \<and>
   minimize_slsqp probe_env probe_args = Some (Inr (pb_result, pb_tr1 @ pb_rounds)) \<and>
   x0 probe_args = [Fin (- 5)] \<and>
   bounds probe_args = Some [(Some (Fin 0), Some (Fin 10))] \<and>
   np_clip (x0 probe_args) (make_new_bounds (bounds probe_args)) = Inr [Fin 0] \<and>
   kx (ks pb_s0) = [Fin 0] \<and>
   c_fun (hd (cons_ineq (p_cons pb_problem))) [Fin 0] = Inr [Fin 0] \<and>
   p_mieq_cv pb_problem = [1] \<and>
   prepare_scalar_function probe_env [Fin 0] (p_nb pb_problem) = Inr (sf pb_s0) \<and>
   sf pb_s0 = ([Fin 0], 0, 0) \<and>
   trace pb_s0 = [ConFunCall [Fin 0], PrepareCall [Fin 0]] \<and>
   sf_fun probe_env (sf pb_s0) [Fin 0] = Inr (fx pb_s1, ([Fin 0], 1, 0)) \<and> fx pb_s1 = Fin 0 \<and>
   eval_constraint [Fin 0] (p_cons pb_problem) = Inr (kc (ks pb_s1)) \<and>
   trace pb_s1 = trace pb_s0 @ [FunCall [Fin 0], GradCall [Fin 0], ConstraintCall [Fin 0],
                                NormalsCall [Fin 0]] \<and>
   event_point (hd (pb_tr1 @ pb_rounds)) = Some [Fin 0] \<and>
   fl_le (Fin 0) (Fin 0) \<and> fl_le (Fin 0) (Fin 10) \<and>
   bounds unbounded_args = None \<and>
   np_clip (x0 unbounded_args) (make_new_bounds (bounds unbounded_args)) = Inr [Fin (- 5)] \<and>
   (\<exists>p s0 s1 s2. initialise probe_env probe_args = Inr (p, s0) \<and>
       prime probe_env p s0 = Inr s1 \<and> drive_loop probe_env p s1 = Some (Inr s2) \<and>
       finish probe_env p s2 = Inr (pb_result, pb_tr1 @ pb_rounds))"
proof -
  note t = initial_iterate_clipped[of probe_env probe_args]
  have i: "initialise probe_env probe_args = Inr (pb_problem, pb_s0)"
    unfolding probe_env_def by (rule pb_init)
  have pr: "prime probe_env pb_problem pb_s0 = Inr pb_s1"
    unfolding probe_env_def by (rule pb_prime)
  have a: "x0 probe_args = [Fin (- 5)]"
    "bounds probe_args = Some [(Some (Fin 0), Some (Fin 10))]" by simp_all
  have x: "kx (ks pb_s0) = [Fin 0]" by (simp add: pb_s0_def)
  note t1 = t[THEN conjunct1, rule_format, OF i]
  from t1 have c1: "np_clip (x0 probe_args) (make_new_bounds (bounds probe_args))
      = Inr (kx (ks pb_s0))" by blast
  from t1 obtain rs_ineq where
    "map_err (\<lambda>con. c_fun con (kx (ks pb_s0))) (cons_ineq (p_cons pb_problem)) = Inr rs_ineq"
    and "p_mieq_cv pb_problem = map length rs_ineq" by blast
  then have c2: "c_fun (hd (cons_ineq (p_cons pb_problem))) [Fin 0] = Inr [Fin 0]"
    "p_mieq_cv pb_problem = [1]"
    by (simp_all add: x pb_cons_def)
  from t1 have c3: "prepare_scalar_function probe_env (kx (ks pb_s0)) (p_nb pb_problem)
      = Inr (sf pb_s0)" by blast
  have c4: "sf pb_s0 = ([Fin 0], 0, 0)" by (simp add: pb_s0_def)
  from t1 have c5: "trace pb_s0 = replicate (length (cons_eq (p_cons pb_problem))
      + length (cons_ineq (p_cons pb_problem))) (ConFunCall (kx (ks pb_s0)))
      @ [PrepareCall (kx (ks pb_s0))]" by blast
  then have c5': "trace pb_s0 = [ConFunCall [Fin 0], PrepareCall [Fin 0]]"
    by (simp add: x pb_cons_def)
  note t2 = t1[THEN conjunct2, THEN conjunct2, THEN conjunct2, THEN conjunct2, THEN conjunct2,
               THEN conjunct2, rule_format, OF pr]
  from t2 obtain u gv where f: "sf_fun probe_env (sf pb_s0) (kx (ks pb_s0)) = Inr (fx pb_s1, u)"
    by blast
  then have c6: "sf_fun probe_env (sf pb_s0) [Fin 0] = Inr (fx pb_s1, ([Fin 0], 1, 0))"
    "fx pb_s1 = Fin 0"
    by (auto simp: x c4 probe_env_def)
  from t2 have c7: "eval_constraint (kx (ks pb_s0)) (p_cons pb_problem) = Inr (kc (ks pb_s1))"
    and c8: "trace pb_s1 = trace pb_s0 @ [FunCall (kx (ks pb_s0)), GradCall (kx (ks pb_s0)),
      ConstraintCall (kx (ks pb_s0)), NormalsCall (kx (ks pb_s0))]" by blast+
  have rt: "run_trace (Inr (pb_result, pb_tr1 @ pb_rounds))
      = hd (pb_tr1 @ pb_rounds) # tl (pb_tr1 @ pb_rounds)"
    by (simp add: run_trace_def pb_tr1_def)
  from t a pb_run rt have c9: "event_point (hd (pb_tr1 @ pb_rounds)) = Some [Fin 0]" by blast
  from t[THEN conjunct2, THEN conjunct2, THEN conjunct1, rule_format, OF c1, of 0]
  have "fl_le (Fin 0) (Fin 0) \<and> fl_le (Fin 0) (Fin 10) \<longleftrightarrow>
          fl_le (Fin 0) (Fin 10) \<and> Fin (- 5) \<noteq> NaN"
    by (simp add: x Let_def ex_nb broadcast_to_def)
  then have c10: "fl_le (Fin 0) (Fin 0) \<and> fl_le (Fin 0) (Fin 10)"
    by (simp add: fl_le_def)
  have u: "bounds unbounded_args = None" by (simp add: unbounded_args_def)
  from initial_iterate_clipped[of probe_env unbounded_args] u
  have "np_clip (x0 unbounded_args) (make_new_bounds (bounds unbounded_args))
          = Inr (x0 unbounded_args)"
    by blast
  then have c11: "np_clip (x0 unbounded_args) (make_new_bounds (bounds unbounded_args))
      = Inr [Fin (- 5)]"
    by (simp add: unbounded_args_def)
  from t[THEN conjunct2, THEN conjunct2, THEN conjunct2, THEN conjunct2, THEN conjunct2,
         THEN conjunct2, rule_format, OF pb_run]
  have c12: "\<exists>p s0 s1 s2. initialise probe_env probe_args = Inr (p, s0) \<and>
       prime probe_env p s0 = Inr s1 \<and> drive_loop probe_env p s1 = Some (Inr s2) \<and>
       finish probe_env p s2 = Inr (pb_result, pb_tr1 @ pb_rounds)"
    by (auto simp: eq_commute[of "Inr (pb_result, pb_tr1 @ pb_rounds)"])
  have main: "initialise probe_env probe_args = Inr (pb_problem, pb_s0) \<and>
   prime probe_env pb_problem pb_s0 = Inr pb_s1 \<and>
   minimize_slsqp probe_env probe_args = Some (Inr (pb_result, pb_tr1 @ pb_rounds)) \<and>
   x0 probe_args = [Fin (- 5)] \<and>
   bounds probe_args = Some [(Some (Fin 0), Some (Fin 10))] \<and>
   np_clip (x0 probe_args) (make_new_bounds (bounds probe_args)) = Inr [Fin 0] \<and>
   kx (ks pb_s0) = [Fin 0] \<and>
   c_fun (hd (cons_ineq (p_cons pb_problem))) [Fin 0] = Inr [Fin 0] \<and>
   p_mieq_cv pb_problem = [1] \<and>
   prepare_scalar_function probe_env [Fin 0] (p_nb pb_problem) = Inr (sf pb_s0) \<and>
   sf pb_s0 = ([Fin 0], 0, 0) \<and>
   trace pb_s0 = [ConFunCall [Fin 0], PrepareCall [Fin 0]] \<and>
   sf_fun probe_env (sf pb_s0) [Fin 0] = Inr (fx pb_s1, ([Fin 0], 1, 0)) \<and> fx pb_s1 = Fin 0 \<and>
   eval_constraint [Fin 0] (p_cons pb_problem) = Inr (kc (ks pb_s1)) \<and>
   trace pb_s1 = trace pb_s0 @ [FunCall [Fin 0], GradCall [Fin 0], ConstraintCall [Fin 0],
                                NormalsCall [Fin 0]] \<and>
   event_point (hd (pb_tr1 @ pb_rounds)) = Some [Fin 0] \<and>
   fl_le (Fin 0) (Fin 0) \<and> fl_le (Fin 0) (Fin 10) \<and>
   bounds unbounded_args = None \<and>
   np_clip (x0 unbounded_args) (make_new_bounds (bounds unbounded_args)) = Inr [Fin (- 5)]"
    using i pr pb_run a c1 c2 c3 c4 c5' c6 c7 c8 c9 c10 u c11 x by simp
  from main c12 show ?thesis by blast
qed

text \<open>
  Claim C5 as the spec states it fails for the bounds \<open>[(1, 0.5)]\<close> and \<open>x0 = 0\<close>: the
  iterate is \<open>[0.5]\<close>, below the lower bound, and the constraint function is evaluated
  there before the run raises for the bounds. It fails for \<open>x0 = nan\<close> under the bounds
  \<open>[(0, 10)]\<close> as well: the iterate stays \<open>[nan]\<close>, and the constraint function and the
  preparation of the adapter receive it.
\<close>

theorem initial_iterate_outside_bounds:
  "x0 inverted_args = [Fin 0] \<and>
   bounds inverted_args = Some [(Some (Fin 1), Some (Fin (1 / 2)))] \<and>
   np_clip (x0 inverted_args) (make_new_bounds (bounds inverted_args)) = Inr [Fin (1 / 2)] \<and>
   \<not> fl_le (Fin 1) (Fin (1 / 2)) \<and>
   minimize_slsqp probe_env inverted_args
     = Some (Inl (ValueError (LbGtUb [True]), [ConFunCall [Fin (1 / 2)]])) \<and>
   x0 nan_args = [NaN] \<and>
   bounds nan_args = Some [(Some (Fin 0), Some (Fin 10))] \<and>
   np_clip (x0 nan_args) (make_new_bounds (bounds nan_args)) = Inr [NaN] \<and>
   \<not> fl_le (Fin 0) NaN \<and>
   initialise probe_env nan_args = Inr (pb_problem, nan_s0) \<and>
   trace nan_s0 = [ConFunCall [NaN], PrepareCall [NaN]] \<and>
   sf nan_s0 = ([NaN], 0, 0)"
proof -
  have i: "initialise probe_env nan_args = Inr (pb_problem, nan_s0)"
    unfolding probe_env_def by (rule nan_init)
  show ?thesis using inv_run i
    by (simp add: inv_nb inv_clip ex_nb nan_clip fl_le_def nan_s0_def)
qed

end
